(* ===== verification/Prelude.thy ===== *)
theory Prelude
  imports Main "HOL-Library.AList"
begin

section \<open>Prelude: Go values and effects\<close>

text \<open>
  What every component shares: the outcome of a Go function (a value, an error value or a
  panic), the state-passing programs built from it, Go maps (nil or an association list whose
  order is the iteration order of \<^verbatim>\<open>range\<close>), 64-bit integers, and the functions of the
  Go standard library that the sources call (\<^verbatim>\<open>strings.Split\<close>, \<^verbatim>\<open>strings.Contains\<close>,
  \<^verbatim>\<open>strconv.Atoi\<close>, \<^verbatim>\<open>strconv.Itoa\<close>, \<^verbatim>\<open>strconv.ParseBool\<close>, \<^verbatim>\<open>fmt.Sprintf\<close>).
\<close>

named_theorems go_defs \<open>definitions of the Go runtime and standard library layer\<close>
named_theorems key_defs \<open>the string constants of the API group\<close>

subsection \<open>Outcomes\<close>

text \<open>
  The reason of an API status error (\<^verbatim>\<open>k8s.io/apimachinery/pkg/api/errors\<close> only asks for
  these), and Go error values: an API error or one made by \<^verbatim>\<open>fmt.Errorf\<close>, kept as its
  format and its arguments.
\<close>

datatype api_reason = ReasonNotFound | ReasonAlreadyExists | ReasonConflict | ReasonOther

datatype go_error = ApiError api_reason string | Errorf string "string list"

fun IsNotFound :: "go_error \<Rightarrow> bool" where
  "IsNotFound (ApiError r _) = (r = ReasonNotFound)"
| "IsNotFound (Errorf _ _) = False"

fun IsAlreadyExists :: "go_error \<Rightarrow> bool" where
  "IsAlreadyExists (ApiError r _) = (r = ReasonAlreadyExists)"
| "IsAlreadyExists (Errorf _ _) = False"

fun IsConflict :: "go_error \<Rightarrow> bool" where
  "IsConflict (ApiError r _) = (r = ReasonConflict)"
| "IsConflict (Errorf _ _) = False"

text \<open>\<^verbatim>\<open>fmt.Sprintf\<close> with the two verbs the sources use; \<^verbatim>\<open>%q\<close> puts quotes around a
  string that needs no escaping.\<close>

fun sprintf :: "string \<Rightarrow> string list \<Rightarrow> string" where
  "sprintf [] as = []"
| "sprintf [c] as = [c]"
| "sprintf (c # d # fs) as =
     (if c = CHR ''%'' then
        (case as of
           [] \<Rightarrow> c # d # sprintf fs []
         | a # as' \<Rightarrow>
             (if d = CHR ''q'' then CHR 0x22 # a @ [CHR 0x22] else a) @ sprintf fs as')
      else c # sprintf (d # fs) as)"

fun error_text :: "go_error \<Rightarrow> string" where
  "error_text (ApiError _ msg) = msg"
| "error_text (Errorf f as) = sprintf f as"

datatype 'a outcome = OK 'a | Err go_error | Panic

fun obind :: "'a outcome \<Rightarrow> ('a \<Rightarrow> 'b outcome) \<Rightarrow> 'b outcome" where
  "obind (OK a) f = f a"
| "obind (Err e) f = Err e"
| "obind Panic f = Panic"

fun ocatch :: "'a outcome \<Rightarrow> (go_error \<Rightarrow> 'a outcome) \<Rightarrow> 'a outcome" where
  "ocatch (OK a) h = OK a"
| "ocatch (Err e) h = h e"
| "ocatch Panic h = Panic"

text \<open>\<^verbatim>\<open>x, _ := f()\<close>: the error is dropped, a panic is not.\<close>

fun otry :: "'a outcome \<Rightarrow> 'a option outcome" where
  "otry (OK a) = OK (Some a)"
| "otry (Err e) = OK None"
| "otry Panic = Panic"

fun omap :: "('a \<Rightarrow> 'b outcome) \<Rightarrow> 'a list \<Rightarrow> 'b list outcome" where
  "omap f [] = OK []"
| "omap f (x # xs) = obind (f x) (\<lambda>y. obind (omap f xs) (\<lambda>ys. OK (y # ys)))"

lemma obind_OK_iff: "obind m f = OK b \<longleftrightarrow> (\<exists>a. m = OK a \<and> f a = OK b)"
  by (cases m) auto

lemma obind_Err_iff: "obind m f = Err e \<longleftrightarrow> m = Err e \<or> (\<exists>a. m = OK a \<and> f a = Err e)"
  by (cases m) auto

lemma obind_Panic_iff: "obind m f = Panic \<longleftrightarrow> m = Panic \<or> (\<exists>a. m = OK a \<and> f a = Panic)"
  by (cases m) auto

lemma obind_assoc: "obind (obind m f) g = obind m (\<lambda>x. obind (f x) g)"
  by (cases m) auto

lemma obind_split:
  "P (obind m f) \<longleftrightarrow> (\<forall>a. m = OK a \<longrightarrow> P (f a)) \<and> (\<forall>e. m = Err e \<longrightarrow> P (Err e)) \<and> (m = Panic \<longrightarrow> P Panic)"
  by (cases m) auto

lemma omap_all_OK:
  "(\<And>x. x \<in> set xs \<Longrightarrow> f x = OK (g x)) \<Longrightarrow> omap f xs = OK (map g xs)"
  by (induction xs) auto

lemma omap_not_Err: "(\<And>x e. x \<in> set xs \<Longrightarrow> f x \<noteq> Err e) \<Longrightarrow> omap f xs \<noteq> Err e"
proof (induction xs)
  case (Cons x xs)
  then show ?case by (cases "f x"; cases "omap f xs") auto
qed simp

lemma omap_images:
  assumes "\<And>x. x \<in> set xs \<Longrightarrow> \<exists>y. f x = OK y \<and> P x y"
  shows "\<exists>ys. omap f xs = OK ys \<and> list_all2 P xs ys"
  using assms by (induction xs) fastforce+

lemma omap_Panic:
  "x \<in> set xs \<Longrightarrow> f x = Panic \<Longrightarrow> (\<And>y e. y \<in> set xs \<Longrightarrow> f y \<noteq> Err e) \<Longrightarrow> omap f xs = Panic"
proof (induction xs)
  case (Cons y ys)
  then show ?case by (cases "f y") (auto simp: obind_Panic_iff)
qed simp

subsection \<open>Programs: state passing with outcomes\<close>

type_synonym ('s, 'a) prog = "'s \<Rightarrow> 'a outcome \<times> 's"

definition ret :: "'a \<Rightarrow> ('s, 'a) prog" where
  "ret a s = (OK a, s)"

definition fail :: "go_error \<Rightarrow> ('s, 'a) prog" where
  "fail e s = (Err e, s)"

definition panic :: "('s, 'a) prog" where
  "panic s = (Panic, s)"

definition bind :: "('s, 'a) prog \<Rightarrow> ('a \<Rightarrow> ('s, 'b) prog) \<Rightarrow> ('s, 'b) prog" where
  "bind m f s = (case m s of
     (OK a, s') \<Rightarrow> f a s' | (Err e, s') \<Rightarrow> (Err e, s') | (Panic, s') \<Rightarrow> (Panic, s'))"

definition catch :: "('s, 'a) prog \<Rightarrow> (go_error \<Rightarrow> ('s, 'a) prog) \<Rightarrow> ('s, 'a) prog" where
  "catch m h s = (case m s of
     (OK a, s') \<Rightarrow> (OK a, s') | (Err e, s') \<Rightarrow> h e s' | (Panic, s') \<Rightarrow> (Panic, s'))"

text \<open>A computation that only reads the state; the result of a pure one.\<close>

definition reads :: "('s \<Rightarrow> 'a outcome) \<Rightarrow> ('s, 'a) prog" where
  "reads f s = (f s, s)"

definition lift :: "'a outcome \<Rightarrow> ('s, 'a) prog" where
  "lift r s = (r, s)"

definition modify :: "('s \<Rightarrow> 's) \<Rightarrow> ('s, unit) prog" where
  "modify f s = (OK (), f s)"

text \<open>\<^verbatim>\<open>fmt.Errorf(f, args..., err.Error())\<close> around the error of a call.\<close>

definition wrapf :: "string \<Rightarrow> string list \<Rightarrow> ('s, 'a) prog \<Rightarrow> ('s, 'a) prog" where
  "wrapf f as m = catch m (\<lambda>e. fail (Errorf f (as @ [error_text e])))"

text \<open>The same with the inner error left out of the new one.\<close>

definition replacef :: "string \<Rightarrow> string list \<Rightarrow> ('s, 'a) prog \<Rightarrow> ('s, 'a) prog" where
  "replacef f as m = catch m (\<lambda>e. fail (Errorf f as))"

text \<open>\<^verbatim>\<open>err := f()\<close> where the error is inspected and the function goes on.\<close>

definition attempt :: "('s, 'a) prog \<Rightarrow> ('s, go_error + 'a) prog" where
  "attempt m s = (case m s of
     (OK a, s') \<Rightarrow> (OK (Inr a), s') | (Err e, s') \<Rightarrow> (OK (Inl e), s') | (Panic, s') \<Rightarrow> (Panic, s'))"

fun for_each :: "'x list \<Rightarrow> ('x \<Rightarrow> ('s, unit) prog) \<Rightarrow> ('s, unit) prog" where
  "for_each [] f = ret ()"
| "for_each (x # xs) f = bind (f x) (\<lambda>_. for_each xs f)"

lemmas [go_defs] = ret_def fail_def panic_def bind_def catch_def reads_def lift_def modify_def
  wrapf_def replacef_def attempt_def

lemma bind_ret [simp]: "bind (ret a) f = f a"
  by (simp add: go_defs fun_eq_iff)

lemma bind_lift [simp]:
  "bind (lift (OK a)) f = f a"
  "bind (lift (Err e)) f = fail e"
  "bind (lift Panic) f = panic"
  by (simp_all add: go_defs fun_eq_iff)

lemma bind_fail [simp]: "bind (fail e) f = fail e" "bind panic f = panic"
  by (simp_all add: go_defs fun_eq_iff)

lemma bind_reads: "bind (reads f) g s = bind (lift (f s)) g s"
  by (simp add: go_defs)

lemma bind_step:
  "m s = (OK a, s') \<Longrightarrow> bind m f s = f a s'"
  "m s = (Err e, s') \<Longrightarrow> bind m f s = (Err e, s')"
  "m s = (Panic, s') \<Longrightarrow> bind m f s = (Panic, s')"
  by (simp_all add: bind_def)

lemma bind_OK_iff: "bind m f s = (OK b, s'') \<longleftrightarrow> (\<exists>a s'. m s = (OK a, s') \<and> f a s' = (OK b, s''))"
  by (auto simp: bind_def split: prod.splits outcome.splits)

lemma catch_step:
  "m s = (OK a, s') \<Longrightarrow> catch m h s = (OK a, s')"
  "m s = (Err e, s') \<Longrightarrow> catch m h s = h e s'"
  "m s = (Panic, s') \<Longrightarrow> catch m h s = (Panic, s')"
  by (simp_all add: catch_def)

lemma wrapf_OK_iff: "wrapf f as m s = (OK a, s') \<longleftrightarrow> m s = (OK a, s')"
  by (auto simp: wrapf_def catch_def fail_def split: prod.splits outcome.splits)

lemma replacef_OK_iff: "replacef f as m s = (OK a, s') \<longleftrightarrow> m s = (OK a, s')"
  by (auto simp: replacef_def catch_def fail_def split: prod.splits outcome.splits)

text \<open>A loop keeps an invariant that its body keeps, whatever the outcome.\<close>

lemma for_each_invariant:
  assumes "\<And>x s. x \<in> set xs \<Longrightarrow> I s \<Longrightarrow> I (snd (f x s))" and "I s"
  shows "I (snd (for_each xs f s))"
  using assms
proof (induction xs arbitrary: s)
  case Nil
  then show ?case by (simp add: ret_def)
next
  case (Cons x xs)
  have "I (snd (f x s))" using Cons.prems by simp
  then show ?case
    using Cons.IH Cons.prems(1)
    by (auto simp: bind_def split: prod.splits outcome.splits)
qed

subsection \<open>Frames\<close>

text \<open>
  \<open>keeps R Q m\<close>: from every state, whatever the outcome, the state \<open>m\<close> ends in is related to
  the first one by \<open>R\<close>, and a value it returns satisfies \<open>Q\<close>. For a preorder \<open>R\<close> this is
  compositional; the rules are proved once in the locale and collected per interpretation.
\<close>

definition keeps :: "('s \<Rightarrow> 's \<Rightarrow> bool) \<Rightarrow> ('a \<Rightarrow> bool) \<Rightarrow> ('s, 'a) prog \<Rightarrow> bool" where
  "keeps R Q m \<longleftrightarrow> (\<forall>s. R s (snd (m s)) \<and> (\<forall>a. fst (m s) = OK a \<longrightarrow> Q a))"

lemma keepsD: "keeps R Q m \<Longrightarrow> R s (snd (m s))" "keeps R Q m \<Longrightarrow> m s = (OK a, s') \<Longrightarrow> Q a"
  by (auto simp: keeps_def) (metis fst_conv)

lemma keeps_weaken: "keeps R Q m \<Longrightarrow> (\<And>a. Q a \<Longrightarrow> Q' a) \<Longrightarrow> keeps R Q' m"
  by (auto simp: keeps_def)

lemma keeps_True: "keeps R Q m \<Longrightarrow> keeps R (\<lambda>_. True) m"
  by (auto simp: keeps_def)

locale frame =
  fixes R :: "'s \<Rightarrow> 's \<Rightarrow> bool"
  assumes R_refl: "R s s"
    and R_trans: "R s t \<Longrightarrow> R t u \<Longrightarrow> R s u"
begin

lemma keeps_ret: "Q a \<Longrightarrow> keeps R Q (ret a)"
  by (simp add: keeps_def ret_def R_refl)

lemma keeps_fail: "keeps R Q (fail e)" "keeps R Q panic"
  by (simp_all add: keeps_def fail_def panic_def R_refl)

lemma keeps_reads: "keeps R (\<lambda>_. True) (reads f)"
  by (simp add: keeps_def reads_def R_refl)

lemma keeps_reads_value: "(\<And>s a. f s = OK a \<Longrightarrow> Q a) \<Longrightarrow> keeps R Q (reads f)"
  by (auto simp: keeps_def reads_def R_refl)

lemma keeps_lift: "(\<And>a. r = OK a \<Longrightarrow> Q a) \<Longrightarrow> keeps R Q (lift r)"
  by (auto simp: keeps_def lift_def R_refl)

lemma keeps_modify: "(\<And>s. R s (f s)) \<Longrightarrow> Q () \<Longrightarrow> keeps R Q (modify f)"
  by (auto simp: keeps_def modify_def)

lemma keeps_bind:
  assumes "keeps R Q m" "\<And>a. Q a \<Longrightarrow> keeps R Q' (f a)"
  shows "keeps R Q' (bind m f)"
  unfolding keeps_def
proof (intro allI)
  fix s
  show "R s (snd (bind m f s)) \<and> (\<forall>b. fst (bind m f s) = OK b \<longrightarrow> Q' b)"
  proof (cases "m s")
    case (Pair r s')
    have "R s s'" using keepsD(1) [OF assms(1), of s] Pair by simp
    show ?thesis
    proof (cases r)
      case (OK a)
      have "Q a" by (rule keepsD(2) [OF assms(1)]) (use Pair OK in simp)
      then have k: "keeps R Q' (f a)" by (rule assms(2))
      have eq: "bind m f s = f a s'" using Pair OK by (simp add: bind_step)
      have "R s (snd (f a s'))" by (rule R_trans [OF \<open>R s s'\<close> keepsD(1) [OF k]])
      then show ?thesis using k by (simp add: eq keeps_def)
    qed (use \<open>R s s'\<close> Pair in \<open>simp_all add: bind_step\<close>)
  qed
qed

lemma keeps_catch:
  assumes "keeps R Q m" "\<And>e. keeps R Q (h e)"
  shows "keeps R Q (catch m h)"
  unfolding keeps_def
proof (intro allI)
  fix s
  show "R s (snd (catch m h s)) \<and> (\<forall>b. fst (catch m h s) = OK b \<longrightarrow> Q b)"
  proof (cases "m s")
    case (Pair r s')
    have "R s s'" using keepsD(1) [OF assms(1), of s] Pair by simp
    show ?thesis
    proof (cases r)
      case (OK a)
      have "Q a" by (rule keepsD(2) [OF assms(1)]) (use Pair OK in simp)
      then show ?thesis using Pair OK \<open>R s s'\<close> by (simp add: catch_step)
    next
      case (Err e)
      have eq: "catch m h s = h e s'" using Pair Err by (simp add: catch_step)
      have "R s (snd (h e s'))" by (rule R_trans [OF \<open>R s s'\<close> keepsD(1) [OF assms(2)]])
      then show ?thesis using assms(2) [of e] by (simp add: eq keeps_def)
    next
      case Panic
      then show ?thesis using Pair \<open>R s s'\<close> by (simp add: catch_step)
    qed
  qed
qed

lemma keeps_wrapf: "keeps R Q m \<Longrightarrow> keeps R Q (wrapf f as m)"
  unfolding wrapf_def by (intro keeps_catch keeps_fail)

lemma keeps_replacef: "keeps R Q m \<Longrightarrow> keeps R Q (replacef f as m)"
  unfolding replacef_def by (intro keeps_catch keeps_fail)

lemma keeps_attempt: "keeps R Q m \<Longrightarrow> keeps R (\<lambda>r. case r of Inl _ \<Rightarrow> True | Inr a \<Rightarrow> Q a) (attempt m)"
  unfolding keeps_def
proof (intro allI)
  fix s
  assume k: "\<forall>s. R s (snd (m s)) \<and> (\<forall>a. fst (m s) = OK a \<longrightarrow> Q a)"
  obtain r s' where ms: "m s = (r, s')" by (cases "m s")
  with k have "R s s'" "\<And>a. r = OK a \<Longrightarrow> Q a" by (metis snd_conv, metis fst_conv)
  then show "R s (snd (attempt m s)) \<and>
      (\<forall>a. fst (attempt m s) = OK a \<longrightarrow> (case a of Inl _ \<Rightarrow> True | Inr a \<Rightarrow> Q a))"
    by (cases r) (auto simp: attempt_def ms)
qed

lemma keeps_if: "(c \<Longrightarrow> keeps R Q m) \<Longrightarrow> (\<not> c \<Longrightarrow> keeps R Q n) \<Longrightarrow> keeps R Q (if c then m else n)"
  by simp

lemma keeps_option:
  "(\<And>x. y = Some x \<Longrightarrow> keeps R Q (f x)) \<Longrightarrow> (y = None \<Longrightarrow> keeps R Q n) \<Longrightarrow>
   keeps R Q (case y of None \<Rightarrow> n | Some x \<Rightarrow> f x)"
  by (cases y) auto

lemma keeps_sum:
  "(\<And>x. y = Inr x \<Longrightarrow> keeps R Q (g x)) \<Longrightarrow> (\<And>e. y = Inl e \<Longrightarrow> keeps R Q (f e)) \<Longrightarrow>
   keeps R Q (case y of Inl e \<Rightarrow> f e | Inr x \<Rightarrow> g x)"
  by (cases y) auto

lemma keeps_prod: "(\<And>a b. p = (a, b) \<Longrightarrow> keeps R Q (f a b)) \<Longrightarrow> keeps R Q (case p of (a, b) \<Rightarrow> f a b)"
  by (cases p) auto

lemma keeps_for_each:
  assumes "\<And>x. x \<in> set xs \<Longrightarrow> keeps R (\<lambda>_. True) (f x)"
  shows "keeps R (\<lambda>_. True) (for_each xs f)"
  using assms by (induction xs) (auto intro: keeps_ret keeps_bind)

lemmas keeps_rules = keeps_fail keeps_reads keeps_modify keeps_bind keeps_catch keeps_wrapf keeps_replacef
  keeps_attempt keeps_if keeps_option keeps_sum keeps_prod keeps_for_each

end

end
