(* ===== verification/GoLib.thy ===== *)
theory GoLib
  imports Prelude
begin

section \<open>The Go library functions the sources call\<close>

text \<open>
  Go maps, 64-bit integers, and the parts of \<^verbatim>\<open>strings\<close> and \<^verbatim>\<open>strconv\<close> that the
  operator uses, with the facts about them that the components need: lookups after writes,
  the round trips of \<^verbatim>\<open>Itoa\<close>/\<^verbatim>\<open>Atoi\<close> and of \<^verbatim>\<open>Split\<close> on joined paths.
\<close>

subsection \<open>Maps\<close>

text \<open>A nil map is \<open>None\<close>; the list of a non-nil map is in the order \<^verbatim>\<open>range\<close> visits it,
  which Go leaves open.\<close>

type_synonym ('k, 'v) gomap = "('k \<times> 'v) list option"
type_synonym strmap = "(string, string) gomap"

definition mentries :: "('k, 'v) gomap \<Rightarrow> ('k \<times> 'v) list" where
  "mentries m = (case m of None \<Rightarrow> [] | Some xs \<Rightarrow> xs)"

definition mget :: "('k, 'v) gomap \<Rightarrow> 'k \<Rightarrow> 'v option" where
  "mget m k = map_of (mentries m) k"

definition mgetd :: "'v \<Rightarrow> ('k, 'v) gomap \<Rightarrow> 'k \<Rightarrow> 'v" where
  "mgetd d m k = (case mget m k of None \<Rightarrow> d | Some v \<Rightarrow> v)"

text \<open>\<^verbatim>\<open>m[k]\<close> on a map of strings: the zero value is the empty string.\<close>

abbreviation mstr :: "strmap \<Rightarrow> string \<Rightarrow> string" where
  "mstr \<equiv> mgetd []"

text \<open>\<^verbatim>\<open>m[k] = v\<close> panics on a nil map; \<^verbatim>\<open>delete(m, k)\<close> does not.\<close>

definition mput :: "'k \<Rightarrow> 'v \<Rightarrow> ('k, 'v) gomap \<Rightarrow> ('k, 'v) gomap outcome" where
  "mput k v m = (case m of None \<Rightarrow> Panic | Some xs \<Rightarrow> OK (Some (AList.update k v xs)))"

definition mdelete :: "'k \<Rightarrow> ('k, 'v) gomap \<Rightarrow> ('k, 'v) gomap" where
  "mdelete k m = map_option (AList.delete k) m"

text \<open>\<^verbatim>\<open>for k, v := range src { dst[k] = v }\<close>\<close>

definition put_all :: "('k \<times> 'v) list \<Rightarrow> ('k \<times> 'v) list \<Rightarrow> ('k \<times> 'v) list" where
  "put_all src dst = fold (\<lambda>(k, v). AList.update k v) src dst"

definition mput_all :: "('k \<times> 'v) list \<Rightarrow> ('k, 'v) gomap \<Rightarrow> ('k, 'v) gomap outcome" where
  "mput_all src m = (case m of
     None \<Rightarrow> (if src = [] then OK None else Panic)
   | Some xs \<Rightarrow> OK (Some (put_all src xs)))"

abbreviation wf_map :: "('k, 'v) gomap \<Rightarrow> bool" where
  "wf_map m \<equiv> distinct (map fst (mentries m))"

lemma mentries_simps [simp]: "mentries None = []" "mentries (Some xs) = xs"
  by (simp_all add: mentries_def)

lemma mget_simps [simp]: "mget None k = None" "mget (Some xs) k = map_of xs k"
  by (simp_all add: mget_def)

lemma map_of_update [simp]: "map_of (AList.update k v xs) k' = (if k' = k then Some v else map_of xs k')"
  by (simp add: update_conv')

lemma map_of_delete [simp]: "map_of (AList.delete k xs) k' = (if k' = k then None else map_of xs k')"
  by (simp add: delete_conv')

lemma put_all_simps [simp]:
  "put_all [] dst = dst"
  "put_all ((k, v) # src) dst = put_all src (AList.update k v dst)"
  by (simp_all add: put_all_def)

lemma put_all_append: "put_all (a @ b) dst = put_all b (put_all a dst)"
  by (simp add: put_all_def)

lemma map_of_put_all_notin:
  "k \<notin> fst ` set src \<Longrightarrow> map_of (put_all src dst) k = map_of dst k"
  by (induction src arbitrary: dst) auto

lemma map_of_put_all:
  "distinct (map fst src) \<Longrightarrow>
   map_of (put_all src dst) k = (case map_of src k of None \<Rightarrow> map_of dst k | Some v \<Rightarrow> Some v)"
proof (induction src arbitrary: dst)
  case (Cons p src)
  obtain k' v' where p: "p = (k', v')" by (cases p)
  have "map_of (put_all src (AList.update k' v' dst)) k =
      (case map_of src k of None \<Rightarrow> map_of (AList.update k' v' dst) k | Some v \<Rightarrow> Some v)"
    using Cons by simp
  moreover have "map_of src k' = None"
    using Cons.prems p by (simp add: map_of_eq_None_iff)
  ultimately show ?case using p by (auto split: option.splits)
qed simp

lemma distinct_put_all: "distinct (map fst dst) \<Longrightarrow> distinct (map fst (put_all src dst))"
  by (induction src arbitrary: dst) (auto simp: distinct_update)

lemma keys_put_all: "fst ` set (put_all src dst) = fst ` set dst \<union> fst ` set src"
proof (induction src arbitrary: dst)
  case (Cons p src)
  then show ?case by (cases p) (simp add: dom_update)
qed simp

lemma wf_map_update [simp]: "distinct (map fst xs) \<Longrightarrow> distinct (map fst (AList.update k v xs))"
  by (rule distinct_update)

lemma mget_SomeD: "mget m k = Some v \<Longrightarrow> (k, v) \<in> set (mentries m)"
  by (auto simp: mget_def dest: map_of_SomeD)

lemma mget_entry: "wf_map m \<Longrightarrow> (k, v) \<in> set (mentries m) \<Longrightarrow> mget m k = Some v"
  by (simp add: mget_def)

subsection \<open>64-bit integers\<close>

definition i64 :: "int \<Rightarrow> int" where
  "i64 x = (x + 2 ^ 63) mod 2 ^ 64 - 2 ^ 63"

definition in_i64 :: "int \<Rightarrow> bool" where
  "in_i64 x \<longleftrightarrow> - (2 ^ 63) \<le> x \<and> x < 2 ^ 63"

lemma i64_id [simp]: "in_i64 x \<Longrightarrow> i64 x = x"
  by (simp add: i64_def in_i64_def)

lemma in_i64_i64 [simp]: "in_i64 (i64 x)"
  using pos_mod_bound [of "2 ^ 64" "x + 2 ^ 63"] by (simp add: i64_def in_i64_def)

lemma i64_add_left [simp]: "i64 (i64 a + b) = i64 (a + b)"
proof -
  have "((a + 2 ^ 63) mod 2 ^ 64 - 2 ^ 63 + b + 2 ^ 63) mod 2 ^ 64 = (a + b + 2 ^ 63) mod (2 ^ 64 :: int)"
    using mod_add_left_eq [of "a + 2 ^ 63" "2 ^ 64" b] by (simp add: algebra_simps)
  then show ?thesis by (simp add: i64_def)
qed

lemma i64_add_right [simp]: "i64 (a + i64 b) = i64 (a + b)"
  using i64_add_left [of b a] by (simp add: add.commute)

lemma i64_minus: "i64 (- i64 a) = i64 (- a)"
proof -
  have "i64 (- i64 a) = i64 (- i64 a + (a - a))" by simp
  also have "\<dots> = (2 ^ 63 - i64 a) mod 2 ^ 64 - 2 ^ 63" by (simp add: i64_def)
  also have "(2 ^ 63 - i64 a) mod 2 ^ 64 = (2 ^ 63 - a) mod (2 ^ 64 :: int)"
  proof -
    have "(2 ^ 63 - i64 a) - (2 ^ 63 - a) = a + 2 ^ 63 - (a + 2 ^ 63) mod 2 ^ 64"
      by (simp add: i64_def)
    also have "2 ^ 64 dvd \<dots>" by (rule dvd_minus_mod)
    finally show ?thesis by (simp add: mod_eq_dvd_iff)
  qed
  also have "\<dots> - 2 ^ 63 = i64 (- a)" by (simp add: i64_def add.commute)
  finally show ?thesis .
qed

lemma i64_diff_right [simp]: "i64 (a - i64 b) = i64 (a - b)"
  using i64_add_right [of a "- i64 b"] i64_add_right [of a "- b"]
  by (simp add: i64_minus)

lemma i64_diff_left [simp]: "i64 (i64 a - b) = i64 (a - b)"
  using i64_add_left [of a "- b"] by simp

subsection \<open>strings\<close>

fun Split :: "char \<Rightarrow> string \<Rightarrow> string list" where
  "Split c [] = [[]]"
| "Split c (x # xs) =
     (if x = c then [] # Split c xs
      else (case Split c xs of [] \<Rightarrow> [[x]] | p # ps \<Rightarrow> (x # p) # ps))"

fun Join :: "char \<Rightarrow> string list \<Rightarrow> string" where
  "Join c [] = []"
| "Join c [p] = p"
| "Join c (p # q # ps) = p @ c # Join c (q # ps)"

fun HasPrefix :: "string \<Rightarrow> string \<Rightarrow> bool" where
  "HasPrefix s [] = True"
| "HasPrefix [] (p # ps) = False"
| "HasPrefix (c # s) (p # ps) = (c = p \<and> HasPrefix s ps)"

fun Contains :: "string \<Rightarrow> string \<Rightarrow> bool" where
  "Contains [] sub = (sub = [])"
| "Contains (c # s) sub = (HasPrefix (c # s) sub \<or> Contains s sub)"

lemma Split_not_Nil [simp]: "Split c s \<noteq> []"
  by (induction s) (auto split: list.splits)

lemma Split_no_sep: "c \<notin> set s \<Longrightarrow> Split c s = [s]"
  by (induction s) auto

lemma Split_append_sep: "Split c (s @ c # t) = Split c s @ Split c t"
proof (induction s)
  case (Cons x s)
  then show ?case by (cases "Split c s") auto
qed simp

lemma Split_Join:
  "ps \<noteq> [] \<Longrightarrow> \<forall>p \<in> set ps. c \<notin> set p \<Longrightarrow> Split c (Join c ps) = ps"
proof (induction c ps rule: Join.induct)
  case (3 c p q ps)
  then have "Split c (p @ c # Join c (q # ps)) = [p] @ (q # ps)"
    by (simp add: Split_append_sep Split_no_sep)
  then show ?case by simp
qed (simp_all add: Split_no_sep)

lemma Join_Split: "Join c (Split c s) = s"
proof (induction s)
  case (Cons x s)
  obtain p ps where ps: "Split c s = p # ps" by (cases "Split c s") auto
  then show ?case using Cons by (cases ps) auto
qed simp

lemma Split_parts_no_sep: "p \<in> set (Split c s) \<Longrightarrow> c \<notin> set p"
proof (induction s arbitrary: p)
  case (Cons x s)
  obtain q qs where q: "Split c s = q # qs" by (cases "Split c s") auto
  then show ?case using Cons by (auto split: if_splits)
qed simp

lemma HasPrefix_iff: "HasPrefix s p \<longleftrightarrow> (\<exists>t. s = p @ t)"
  by (induction s p rule: HasPrefix.induct) auto

lemma Contains_iff: "Contains s sub \<longleftrightarrow> (\<exists>a b. s = a @ sub @ b)"
proof (induction s)
  case (Cons c s)
  note IH = Cons.IH
  show ?case
  proof
    assume "Contains (c # s) sub"
    then consider "HasPrefix (c # s) sub" | "Contains s sub" by auto
    then show "\<exists>a b. c # s = a @ sub @ b"
    proof cases
      case 1
      then show ?thesis by (auto simp: HasPrefix_iff) (metis append_Nil)
    next
      case 2
      then obtain a b where "s = a @ sub @ b" using Cons by auto
      then show ?thesis by (metis append_Cons)
    qed
  next
    assume "\<exists>a b. c # s = a @ sub @ b"
    then obtain a b where ab: "c # s = a @ sub @ b" by blast
    show "Contains (c # s) sub"
    proof (cases a)
      case Nil
      with ab have "HasPrefix (c # s) sub" unfolding HasPrefix_iff by auto
      then show ?thesis by simp
    next
      case (Cons x a')
      with ab have "s = a' @ sub @ b" by simp
      then have "Contains s sub" using IH by blast
      then show ?thesis by simp
    qed
  qed
qed simp

subsection \<open>strconv\<close>

definition is_digit :: "char \<Rightarrow> bool" where
  "is_digit c \<longleftrightarrow> (48 :: nat) \<le> of_char c \<and> of_char c \<le> (57 :: nat)"

definition digit_val :: "char \<Rightarrow> int" where
  "digit_val c = int (of_char c) - 48"

definition digits_val :: "string \<Rightarrow> int" where
  "digits_val s = foldl (\<lambda>n c. 10 * n + digit_val c) 0 s"

definition atoi_syntax :: "string \<Rightarrow> go_error" where
  "atoi_syntax s = Errorf ''strconv.Atoi: parsing %q: invalid syntax'' [s]"

definition atoi_range :: "string \<Rightarrow> go_error" where
  "atoi_range s = Errorf ''strconv.Atoi: parsing %q: value out of range'' [s]"

text \<open>\<^verbatim>\<open>strconv.Atoi\<close> returns a value together with the error: 0 on a syntax error, the
  nearest 64-bit integer on a range error.\<close>

definition Atoi :: "string \<Rightarrow> int \<times> go_error option" where
  "Atoi s =
     (let neg = (s \<noteq> [] \<and> hd s = CHR ''-'');
          ds = (if s \<noteq> [] \<and> (hd s = CHR ''-'' \<or> hd s = CHR ''+'') then tl s else s);
          n = (if neg then - digits_val ds else digits_val ds)
      in if ds = [] \<or> \<not> list_all is_digit ds then (0, Some (atoi_syntax s))
         else if n \<ge> 2 ^ 63 then (2 ^ 63 - 1, Some (atoi_range s))
         else if n < - (2 ^ 63) then (- (2 ^ 63), Some (atoi_range s))
         else (n, None))"

fun nat_digits :: "nat \<Rightarrow> string" where
  "nat_digits n =
     (if n < 10 then [char_of (48 + n)] else nat_digits (n div 10) @ [char_of (48 + n mod 10)])"

declare nat_digits.simps [simp del]

definition Itoa :: "int \<Rightarrow> string" where
  "Itoa n = (if n < 0 then CHR ''-'' # nat_digits (nat (- n)) else nat_digits (nat n))"

definition FormatBool :: "bool \<Rightarrow> string" where
  "FormatBool b = (if b then ''true'' else ''false'')"

definition ParseBool :: "string \<Rightarrow> bool outcome" where
  "ParseBool s =
     (if s \<in> {''1'', ''t'', ''T'', ''TRUE'', ''true'', ''True''} then OK True
      else if s \<in> {''0'', ''f'', ''F'', ''FALSE'', ''false'', ''False''} then OK False
      else Err (Errorf ''strconv.ParseBool: parsing %q: invalid syntax'' [s]))"

lemma ParseBool_FormatBool [simp]: "ParseBool (FormatBool b) = OK b"
  by (simp add: ParseBool_def FormatBool_def)

lemma digit_char:
  assumes "d < 10"
  shows "is_digit (char_of (48 + d :: nat))" "digit_val (char_of (48 + d :: nat)) = int d"
proof -
  have oc: "of_char (char_of (48 + d :: nat)) = (48 + d :: nat)"
    using assms by (simp add: of_char_of)
  then show "is_digit (char_of (48 + d :: nat))"
    using assms by (simp add: is_digit_def)
  show "digit_val (char_of (48 + d :: nat)) = int d"
    using oc by (simp add: digit_val_def)
qed

lemma nat_digits_digits: "list_all is_digit (nat_digits n) \<and> digits_val (nat_digits n) = int n \<and> nat_digits n \<noteq> []"
proof (induction n rule: nat_digits.induct)
  case (1 n)
  show ?case
  proof (cases "n < 10")
    case True
    then show ?thesis
      by (subst (1 2 3) nat_digits.simps) (simp add: digit_char digits_val_def)
  next
    case False
    have "n mod 10 < 10" by simp
    moreover have "10 * int (n div 10) + int (n mod 10) = int n"
      by (metis mult.commute div_mult_mod_eq of_nat_add of_nat_mult of_nat_numeral)
    ultimately show ?thesis
      using False 1 by (subst (1 2 3) nat_digits.simps) (simp add: digit_char digits_val_def)
  qed
qed

lemma nat_digits_hd: "is_digit (hd (nat_digits n))"
  using nat_digits_digits [of n] by (cases "nat_digits n") auto

lemma not_digit_sign: "\<not> is_digit (CHR ''-'')" "\<not> is_digit (CHR ''+'')" "\<not> is_digit (CHR ''/'')"
  by (simp_all add: is_digit_def)

lemma Atoi_Itoa: "in_i64 n \<Longrightarrow> Atoi (Itoa n) = (n, None)"
proof (cases "n < 0")
  case True
  moreover assume "in_i64 n"
  ultimately show ?thesis
    using nat_digits_digits [of "nat (- n)"] by (simp add: Atoi_def Itoa_def in_i64_def)
next
  case False
  moreover assume "in_i64 n"
  moreover have "hd (nat_digits (nat n)) \<noteq> CHR ''-''" "hd (nat_digits (nat n)) \<noteq> CHR ''+''"
    using nat_digits_hd [of "nat n"] not_digit_sign by metis+
  ultimately show ?thesis
    using nat_digits_digits [of "nat n"] by (simp add: Atoi_def Itoa_def in_i64_def)
qed

lemma in_i64_Atoi: "in_i64 (fst (Atoi s))"
  by (auto simp: Atoi_def in_i64_def Let_def)

lemma Itoa_inject: "in_i64 m \<Longrightarrow> in_i64 n \<Longrightarrow> Itoa m = Itoa n \<Longrightarrow> m = n"
  using Atoi_Itoa by (metis prod.inject)

lemma Itoa_not_Nil [simp]: "Itoa n \<noteq> []"
  using nat_digits_digits by (simp add: Itoa_def)

end
