(* ===== verification/Api.thy ===== *)
theory Api
  imports GoLib
begin

section \<open>The API group: constants, objects, and the cluster as a parameter\<close>

text \<open>
  The constants and resource types of \<^verbatim>\<open>api/v1\<close>, the Kubernetes and OpenShift types the
  operator reads and writes (with the fields it uses), and the environment: everything the
  operator calls that is not its own code. The environment is a record of functions over an
  abstract world \<open>'w\<close> and an abstract type \<open>'q\<close> of quantities
  (\<^verbatim>\<open>resource.Quantity\<close>); every definition that reaches the cluster takes it as an argument.
\<close>

subsection \<open>Constants of api/v1/types.go\<close>

definition MetaGroup :: string where [key_defs]: "MetaGroup = ''dana.hns.io/''"
definition HNSNamespace :: string where [key_defs]: "HNSNamespace = ''hns-system''"
definition HNSServiceAccount :: string where [key_defs]: "HNSServiceAccount = ''hns-controller-manager''"

definition DefaultAnnotations :: "string list" where [key_defs]:
  "DefaultAnnotations = [''scheduler.alpha.kubernetes.io/defaultTolerations'', ''openshift.io/node-selector'']"
definition DefaultLabels :: "string list" where [key_defs]: "DefaultLabels = [''environment'']"

type_synonym phase = string
definition Missing :: phase where [key_defs]: "Missing = ''Missing''"
definition Created :: phase where [key_defs]: "Created = ''Created''"
definition NonePhase :: phase where [key_defs]: "NonePhase = ''''"
definition Migrated :: phase where [key_defs]: "Migrated = ''Migrated''"
definition Complete :: phase where [key_defs]: "Complete = ''Complete''"
definition InProgress :: phase where [key_defs]: "InProgress = ''InProgress''"
definition ErrorPhase :: phase where [key_defs]: "ErrorPhase = ''Error''"

definition Root :: string where [key_defs]: "Root = ''root''"
definition NoRole :: string where [key_defs]: "NoRole = ''none''"
definition Leaf :: string where [key_defs]: "Leaf = ''leaf''"
definition TrueStr :: string where [key_defs]: "TrueStr = ''True''"
definition FalseStr :: string where [key_defs]: "FalseStr = ''False''"

definition NsFinalizer :: string where [key_defs]: "NsFinalizer = MetaGroup @ ''delete-sns''"
definition RbFinalizer :: string where [key_defs]: "RbFinalizer = MetaGroup @ ''delete-rb''"

definition SelfOffset :: int where [key_defs]: "SelfOffset = 0"
definition ParentOffset :: int where [key_defs]: "ParentOffset = -1"
definition ChildOffset :: int where [key_defs]: "ChildOffset = 1"

definition HnsKey :: string where [key_defs]: "HnsKey = MetaGroup @ ''subnamespace''"
definition ParentKey :: string where [key_defs]: "ParentKey = MetaGroup @ ''parent''"
definition ResourcePoolKey :: string where [key_defs]: "ResourcePoolKey = MetaGroup @ ''resourcepool''"

definition RoleKey :: string where [key_defs]: "RoleKey = MetaGroup @ ''role''"
definition DepthKey :: string where [key_defs]: "DepthKey = MetaGroup @ ''depth''"
definition CrqSelectorKey :: string where [key_defs]: "CrqSelectorKey = MetaGroup @ ''crq-selector''"
definition RootCrqSelectorKey :: string where [key_defs]: "RootCrqSelectorKey = CrqSelectorKey @ ''-0''"
definition SnsPointerKey :: string where [key_defs]: "SnsPointerKey = MetaGroup @ ''sns-pointer''"
definition RqDepthKey :: string where [key_defs]: "RqDepthKey = MetaGroup @ ''rq-depth''"
definition IsRqKey :: string where [key_defs]: "IsRqKey = MetaGroup @ ''is-rq''"
definition IsSecondaryRootKey :: string where [key_defs]: "IsSecondaryRootKey = MetaGroup @ ''is-secondary-root''"
definition IsUpperRpKey :: string where [key_defs]: "IsUpperRpKey = MetaGroup @ ''is-upper-rp''"
definition UpperRpKey :: string where [key_defs]: "UpperRpKey = MetaGroup @ ''upper-rp''"
definition CrqPointerKey :: string where [key_defs]: "CrqPointerKey = MetaGroup @ ''crq-pointer''"
definition DisplayNameKey :: string where [key_defs]: "DisplayNameKey = MetaGroup @ ''display-name''"
definition DescriptionKey :: string where [key_defs]: "DescriptionKey = MetaGroup @ ''description''"
definition OpenShiftDisplayNameKey :: string where [key_defs]: "OpenShiftDisplayNameKey = ''openshift.io/display-name''"

definition MaxRetries :: nat where [key_defs]: "MaxRetries = 600"
definition SleepTimeout :: nat where [key_defs]: "SleepTimeout = 500"

abbreviation meta_keys :: "string list" where
  "meta_keys \<equiv> [HnsKey, ParentKey, ResourcePoolKey, RoleKey, DepthKey, CrqSelectorKey,
     RootCrqSelectorKey, SnsPointerKey, RqDepthKey, IsRqKey, IsSecondaryRootKey, IsUpperRpKey,
     UpperRpKey, CrqPointerKey, DisplayNameKey, DescriptionKey, OpenShiftDisplayNameKey]"

lemma meta_keys_distinct: "distinct meta_keys"
  by (simp add: key_defs)

lemma meta_keys_distinct_rev: "distinct (rev meta_keys)"
  by (simp only: distinct_rev meta_keys_distinct)

lemmas meta_key_neq [simp] =
  meta_keys_distinct [simplified] meta_keys_distinct_rev [simplified]

lemma bool_strings_neq [simp]: "TrueStr \<noteq> FalseStr" "FalseStr \<noteq> TrueStr"
  by (simp_all add: key_defs)

lemma phases_distinct: "distinct [Missing, Created, NonePhase, Migrated, Complete, InProgress, ErrorPhase]"
  by (simp add: key_defs)

lemma phases_distinct_rev: "distinct [ErrorPhase, InProgress, Complete, Migrated, NonePhase, Created, Missing]"
  by (simp add: key_defs)

lemmas phase_neq [simp] = phases_distinct [simplified] phases_distinct_rev [simplified]

subsection \<open>Objects\<close>

text \<open>
  \<^verbatim>\<open>metav1.ObjectMeta\<close>; every kind extends it, so a function on \<^verbatim>\<open>client.Object\<close> is a
  function on \<open>'a object_meta_scheme\<close>. \<open>meta_version\<close> is the resource version, which only
  the API server reads.
\<close>

record object_meta =
  meta_name :: string
  meta_namespace :: string
  meta_labels :: strmap
  meta_annotations :: strmap
  meta_finalizers :: "string list"
  meta_deleting :: bool
  meta_owners :: "string list"
  meta_version :: nat

type_synonym namespace = object_meta
type_synonym 'q resource_list = "(string, 'q) gomap"

definition empty_meta :: object_meta where
  "empty_meta = \<lparr>meta_name = '''', meta_namespace = '''', meta_labels = None,
     meta_annotations = None, meta_finalizers = [], meta_deleting = False, meta_owners = [],
     meta_version = 0\<rparr>"

text \<open>\<^verbatim>\<open>Subnamespace\<close>: \<open>sns_hard\<close> is \<^verbatim>\<open>Spec.ResourceQuotaSpec.Hard\<close>, the only part of a
  \<^verbatim>\<open>ResourceQuotaSpec\<close> that the operator reads or sets.\<close>

record 'q subnamespace = object_meta +
  sns_hard :: "'q resource_list"
  sns_namespaceRef :: string
  sns_phase :: phase
  sns_namespaces :: "(string \<times> 'q resource_list) list"
  sns_allocated :: "'q resource_list"
  sns_free :: "'q resource_list"

record 'q updatequota = object_meta +
  upq_hard :: "'q resource_list"
  upq_dest :: string
  upq_source :: string
  upq_phase :: phase
  upq_reason :: string

record migration_hierarchy = object_meta +
  mh_current :: string
  mh_to :: string
  mh_phase :: phase
  mh_reason :: string

record hns_config = object_meta +
  hc_permittedGroups :: "string list option"
  hc_observedResources :: "string list"
  hc_minimum :: strmap
  hc_defaultRequest :: strmap
  hc_defaultLimit :: strmap
  hc_maximum :: strmap
  hc_minimumPVC :: strmap

record 'q resource_quota = object_meta +
  rq_hard :: "'q resource_list"
  rq_used :: "'q resource_list"

record 'q cluster_resource_quota = object_meta +
  crq_hard :: "'q resource_list"
  crq_used :: "'q resource_list"
  crq_selector :: strmap
  crq_namespaces :: "string list"

record 'q limit_range_item =
  lri_type :: string
  lri_min :: "'q resource_list"
  lri_max :: "'q resource_list"
  lri_default :: "'q resource_list"
  lri_defaultRequest :: "'q resource_list"

record 'q limit_range = object_meta +
  lr_limits :: "'q limit_range_item list"

record subject =
  subj_kind :: string
  subj_apiGroup :: string
  subj_name :: string
  subj_namespace :: string

record role_ref =
  ref_apiGroup :: string
  ref_kind :: string
  ref_name :: string

record role_binding = object_meta +
  rb_subjects :: "subject list"
  rb_roleRef :: role_ref

record policy_rule =
  pr_verbs :: "string list"
  pr_apiGroups :: "string list"
  pr_resources :: "string list"
  pr_resourceNames :: "string list"

record cluster_role = object_meta +
  cr_rules :: "policy_rule list"

record cluster_role_binding = object_meta +
  crb_subjects :: "subject list"
  crb_roleRef :: role_ref

record user_group = object_meta +
  ug_users :: "string list"

definition empty_sns :: "'q subnamespace" where
  "empty_sns = object_meta.extend empty_meta
     \<lparr>sns_hard = None, sns_namespaceRef = '''', sns_phase = NonePhase, sns_namespaces = [],
      sns_allocated = None, sns_free = None\<rparr>"

definition empty_rq :: "'q resource_quota" where
  "empty_rq = object_meta.extend empty_meta \<lparr>rq_hard = None, rq_used = None\<rparr>"

definition empty_crq :: "'q cluster_resource_quota" where
  "empty_crq = object_meta.extend empty_meta
     \<lparr>crq_hard = None, crq_used = None, crq_selector = None, crq_namespaces = []\<rparr>"

definition empty_upq :: "'q updatequota" where
  "empty_upq = object_meta.extend empty_meta
     \<lparr>upq_hard = None, upq_dest = '''', upq_source = '''', upq_phase = NonePhase, upq_reason = ''''\<rparr>"

definition empty_mh :: migration_hierarchy where
  "empty_mh = object_meta.extend empty_meta
     \<lparr>mh_current = '''', mh_to = '''', mh_phase = NonePhase, mh_reason = ''''\<rparr>"

definition empty_roleRef :: role_ref where
  "empty_roleRef = \<lparr>ref_apiGroup = '''', ref_kind = '''', ref_name = ''''\<rparr>"

definition empty_rb :: role_binding where
  "empty_rb = object_meta.extend empty_meta \<lparr>rb_subjects = [], rb_roleRef = empty_roleRef\<rparr>"

definition empty_crb :: cluster_role_binding where
  "empty_crb = object_meta.extend empty_meta \<lparr>crb_subjects = [], crb_roleRef = empty_roleRef\<rparr>"

lemmas empty_object_defs = empty_meta_def empty_sns_def empty_rq_def empty_crq_def empty_upq_def
  empty_mh_def empty_rb_def empty_crb_def object_meta.defs

subsection \<open>The environment\<close>

text \<open>A \<^verbatim>\<open>types.NamespacedName\<close>, and the options of \<^verbatim>\<open>client.List\<close> in use.\<close>

record objkey =
  key_namespace :: string
  key_name :: string

definition nskey :: "string \<Rightarrow> objkey" where
  "nskey n = \<lparr>key_namespace = '''', key_name = n\<rparr>"

definition nnkey :: "string \<Rightarrow> string \<Rightarrow> objkey" where
  "nnkey ns n = \<lparr>key_namespace = ns, key_name = n\<rparr>"

datatype list_option =
    ListAll
  | InNamespace string
  | MatchingLabel string string
  | InNamespaceWithField string string string

text \<open>
  The calls of \<^verbatim>\<open>client.Client\<close> for one kind of object. Reads do not change the world;
  a write may fail at any time, and a create or update hands back the object as the API server
  stored it.
\<close>

record ('w, 'o) kind_api =
  k_get :: "objkey \<Rightarrow> 'w \<Rightarrow> go_error + 'o"
  k_list :: "list_option \<Rightarrow> 'w \<Rightarrow> go_error + 'o list"
  k_create :: "'o \<Rightarrow> 'w \<Rightarrow> (go_error + 'o) \<times> 'w"
  k_update :: "'o \<Rightarrow> 'w \<Rightarrow> (go_error + 'o) \<times> 'w"
  k_updateStatus :: "'o \<Rightarrow> 'w \<Rightarrow> (go_error + 'o) \<times> 'w"
  k_delete :: "'o \<Rightarrow> 'w \<Rightarrow> go_error option \<times> 'w"

text \<open>\<^verbatim>\<open>resource.Quantity\<close>: the methods the operator calls. \<open>q_zero\<close> is the zero value of
  the struct, what a lookup of an absent resource gives.\<close>

record 'q quantity_ops =
  q_zero :: 'q
  q_add :: "'q \<Rightarrow> 'q \<Rightarrow> 'q"
  q_sub :: "'q \<Rightarrow> 'q \<Rightarrow> 'q"
  q_value :: "'q \<Rightarrow> int"
  q_cmp :: "'q \<Rightarrow> 'q \<Rightarrow> int"
  q_sign :: "'q \<Rightarrow> int"
  q_set :: "int \<Rightarrow> 'q \<Rightarrow> 'q"
  q_format :: "'q \<Rightarrow> string"
  q_newDecimalSI :: "int \<Rightarrow> 'q"
  q_newBinarySI :: "int \<Rightarrow> 'q"
  q_parse :: "string \<Rightarrow> 'q option"

text \<open>
  The environment: the API of each kind, the quantities, the access review made in the name of a
  user (\<open>Inr (denied, allowed)\<close>), \<^verbatim>\<open>ctrl.SetControllerReference\<close>, the finalizer helpers of
  \<^verbatim>\<open>controllerutil\<close>, \<^verbatim>\<open>retry.RetryOnConflict\<close>, what happens in the cluster while the operator sleeps, how many update attempts fit in the two seconds of
  \<^verbatim>\<open>EnsureUpdateObject\<close> before its context expires, and how deep a goroutine's stack goes.
\<close>

record ('w, 'q) env =
  qty :: "'q quantity_ops"
  api_ns :: "('w, namespace) kind_api"
  api_sns :: "('w, 'q subnamespace) kind_api"
  api_rq :: "('w, 'q resource_quota) kind_api"
  api_crq :: "('w, 'q cluster_resource_quota) kind_api"
  api_lr :: "('w, 'q limit_range) kind_api"
  api_upq :: "('w, 'q updatequota) kind_api"
  api_mh :: "('w, migration_hierarchy) kind_api"
  api_rb :: "('w, role_binding) kind_api"
  api_cr :: "('w, cluster_role) kind_api"
  api_crb :: "('w, cluster_role_binding) kind_api"
  api_hc :: "('w, hns_config) kind_api"
  api_ug :: "('w, user_group) kind_api"
  access_review :: "string \<Rightarrow> string \<Rightarrow> string \<Rightarrow> string \<Rightarrow> 'w \<Rightarrow> go_error + bool \<times> bool"
  setControllerReference :: "namespace \<Rightarrow> 'q subnamespace \<Rightarrow> go_error + 'q subnamespace"
  containsFinalizer :: "string \<Rightarrow> string list \<Rightarrow> bool"
  addFinalizer :: "string \<Rightarrow> string list \<Rightarrow> string list"
  removeFinalizer :: "string \<Rightarrow> string list \<Rightarrow> string list"
  retryOnConflict :: "('w \<Rightarrow> go_error option \<times> 'w) \<Rightarrow> 'w \<Rightarrow> go_error option \<times> 'w"
  sleep :: "nat \<Rightarrow> 'w \<Rightarrow> 'w"
  deadline_attempts :: nat
  stack_limit :: nat

text \<open>
  The state a controller acts on: the world, the in-memory \<^verbatim>\<open>NamespaceDB\<close>, the events sent
  so far on the two channels, and the metrics set so far.
\<close>

record ('w, 'q) hns =
  world :: 'w
  crqForest :: "(string \<times> string list) list"
  snsEvents :: "objkey list"
  nsEvents :: "string list"
  gauges :: "(string \<times> string \<times> string \<times> string \<times> 'q) list"

end
