(* ===== verification/ObjectContext.thy ===== *)
theory ObjectContext
  imports Api
begin

section \<open>objectcontext: objects bound to the API client\<close>

text \<open>
  \<^verbatim>\<open>internal/objectcontext\<close>. An \<^verbatim>\<open>ObjectContext\<close> pairs an object with whether it was
  found in the cluster. Methods that change the context return it; \<^verbatim>\<open>UpdateObject\<close> and
  \<^verbatim>\<open>update\<close> return it together with the error, since callers go on using a context whose
  update failed. The client itself is the \<open>kind_api\<close> argument.
\<close>

record 'o object_context =
  oc_object :: 'o
  oc_present :: bool

subsection \<open>Reading\<close>

definition New :: "('w, 'o) kind_api \<Rightarrow> 'w \<Rightarrow> objkey \<Rightarrow> 'o \<Rightarrow> 'o object_context outcome" where
  "New k w req obj =
     (case k_get k req w of
        Inl err \<Rightarrow> (if IsNotFound err then OK \<lparr>oc_object = obj, oc_present = False\<rparr> else Err err)
      | Inr obj' \<Rightarrow> OK \<lparr>oc_object = obj', oc_present = True\<rparr>)"

definition NewList :: "('w, 'o) kind_api \<Rightarrow> 'w \<Rightarrow> list_option \<Rightarrow> 'o list outcome" where
  "NewList k w req = (case k_list k req w of Inl err \<Rightarrow> Err err | Inr objs \<Rightarrow> OK objs)"

abbreviation oc_name :: "'a object_meta_scheme object_context \<Rightarrow> string" where
  "oc_name r \<equiv> meta_name (oc_object r)"

abbreviation oc_namespace :: "'a object_meta_scheme object_context \<Rightarrow> string" where
  "oc_namespace r \<equiv> meta_namespace (oc_object r)"

definition IsPresent :: "'o object_context \<Rightarrow> bool" where
  "IsPresent r = oc_present r"

subsection \<open>Creating and deleting\<close>

definition CreateObject ::
  "('w, 'o) kind_api \<Rightarrow> 'o object_context \<Rightarrow> (('w, 'q) hns, 'o object_context) prog" where
  "CreateObject k r s =
     (case k_create k (oc_object r) (world s) of
        (Inl err, w') \<Rightarrow>
          (if IsAlreadyExists err then (OK (r\<lparr>oc_present := True\<rparr>), s\<lparr>world := w'\<rparr>)
           else (Err err, s\<lparr>world := w'\<rparr>))
      | (Inr obj, w') \<Rightarrow> (OK (r\<lparr>oc_object := obj, oc_present := True\<rparr>), s\<lparr>world := w'\<rparr>))"

definition DeleteObject ::
  "('w, 'o) kind_api \<Rightarrow> 'o object_context \<Rightarrow> (('w, 'q) hns, 'o object_context) prog" where
  "DeleteObject k r s =
     (case k_delete k (oc_object r) (world s) of
        (Some err, w') \<Rightarrow>
          (if IsNotFound err then (OK (r\<lparr>oc_present := False\<rparr>), s\<lparr>world := w'\<rparr>)
           else (Err err, s\<lparr>world := w'\<rparr>))
      | (None, w') \<Rightarrow> (OK (r\<lparr>oc_present := False\<rparr>), s\<lparr>world := w'\<rparr>))"

definition EnsureCreate ::
  "('w, 'o) kind_api \<Rightarrow> 'o object_context \<Rightarrow> (('w, 'q) hns, 'o object_context) prog" where
  "EnsureCreate k r = (if \<not> IsPresent r then CreateObject k r else ret r)"

definition EnsureDelete ::
  "('w, 'o) kind_api \<Rightarrow> 'o object_context \<Rightarrow> (('w, 'q) hns, 'o object_context) prog" where
  "EnsureDelete k r = (if IsPresent r then DeleteObject k r else ret r)"

subsection \<open>Updating\<close>

text \<open>\<^verbatim>\<open>UpdateObject\<close>: the closure changes the object in place (and may panic); the update is
  sent only for a present object, and a conflict counts as success.\<close>

definition UpdateObject ::
  "('w, 'o) kind_api \<Rightarrow> ('o \<Rightarrow> 'o outcome) \<Rightarrow> 'o object_context \<Rightarrow>
   (('w, 'q) hns, 'o object_context \<times> go_error option) prog" where
  "UpdateObject k upd r = bind (lift (upd (oc_object r))) (\<lambda>obj s.
     let r = r\<lparr>oc_object := obj\<rparr> in
     if oc_present r then
       (case k_update k obj (world s) of
          (Inl err, w') \<Rightarrow>
            (OK (r, if IsConflict err then None else Some err), s\<lparr>world := w'\<rparr>)
        | (Inr obj', w') \<Rightarrow> (OK (r\<lparr>oc_object := obj'\<rparr>, None), s\<lparr>world := w'\<rparr>))
     else (OK (r, None), s))"

text \<open>\<^verbatim>\<open>if err := r.UpdateObject(...); err != nil { return err }\<close>\<close>

definition check_err :: "'a \<times> go_error option \<Rightarrow> ('s, 'a) prog" where
  "check_err p = (case snd p of None \<Rightarrow> ret (fst p) | Some e \<Rightarrow> fail e)"

definition UpdateObjectE ::
  "('w, 'o) kind_api \<Rightarrow> ('o \<Rightarrow> 'o outcome) \<Rightarrow> 'o object_context \<Rightarrow>
   (('w, 'q) hns, 'o object_context) prog" where
  "UpdateObjectE k upd r = bind (UpdateObject k upd r) check_err"

definition DeadlineExceeded :: go_error where
  "DeadlineExceeded = ApiError ReasonOther ''context deadline exceeded''"

text \<open>\<^verbatim>\<open>update\<close>: one attempt; with an expired context the call fails without reaching the
  API server.\<close>

definition update_attempt ::
  "('w, 'o) kind_api \<Rightarrow> bool \<Rightarrow> ('o \<Rightarrow> 'o outcome) \<Rightarrow> bool \<Rightarrow> 'o object_context \<Rightarrow>
   (('w, 'q) hns, 'o object_context \<times> go_error option) prog" where
  "update_attempt k expired upd isStatusUpdate r s =
     (if oc_present r then
        (case upd (oc_object r) of
           Panic \<Rightarrow> (Panic, s)
         | Err err \<Rightarrow> (OK (r, Some err), s)
         | OK obj \<Rightarrow>
             (let r = r\<lparr>oc_object := obj\<rparr> in
              if expired then (OK (r, Some DeadlineExceeded), s)
              else (case (if isStatusUpdate then k_updateStatus k else k_update k) obj (world s) of
                      (Inl err, w') \<Rightarrow> (OK (r, Some err), s\<lparr>world := w'\<rparr>)
                    | (Inr obj', w') \<Rightarrow> (OK (r\<lparr>oc_object := obj'\<rparr>, None), s\<lparr>world := w'\<rparr>))))
      else (OK (r, None), s))"

definition refresh ::
  "('w, 'a object_meta_scheme) kind_api \<Rightarrow> 'a object_meta_scheme object_context \<Rightarrow>
   (('w, 'q) hns, 'a object_meta_scheme object_context \<times> go_error option) prog" where
  "refresh k r s =
     (case k_get k (nnkey (oc_namespace r) (oc_name r)) (world s) of
        Inl err \<Rightarrow> (OK (r, Some err), s)
      | Inr obj \<Rightarrow> (OK (r\<lparr>oc_object := obj\<rparr>, None), s))"

text \<open>\<^verbatim>\<open>forceUpdate\<close>: attempt until success or an error that is not a conflict; \<open>n\<close> attempts
  fit before the context of \<^verbatim>\<open>EnsureUpdateObject\<close> expires.\<close>

fun forceUpdate ::
  "('w, 'a object_meta_scheme) kind_api \<Rightarrow> nat \<Rightarrow>
   ('a object_meta_scheme \<Rightarrow> 'a object_meta_scheme outcome) \<Rightarrow> bool \<Rightarrow>
   'a object_meta_scheme object_context \<Rightarrow>
   (('w, 'q) hns, 'a object_meta_scheme object_context) prog" where
  "forceUpdate k 0 upd st r = bind (update_attempt k True upd st r) check_err"
| "forceUpdate k (Suc n) upd st r =
     bind (update_attempt k False upd st r) (\<lambda>(r, err).
       case err of
         None \<Rightarrow> ret r
       | Some err \<Rightarrow>
           if \<not> IsConflict err then fail err
           else bind (refresh k r) (\<lambda>(r, rerr).
             case rerr of
               Some e \<Rightarrow> if IsNotFound e then ret r else forceUpdate k n upd st r
             | None \<Rightarrow> forceUpdate k n upd st r))"

definition EnsureUpdateObject ::
  "('w, 'q) env \<Rightarrow> ('w, 'a object_meta_scheme) kind_api \<Rightarrow>
   ('a object_meta_scheme \<Rightarrow> 'a object_meta_scheme outcome) \<Rightarrow> bool \<Rightarrow>
   'a object_meta_scheme object_context \<Rightarrow>
   (('w, 'q) hns, 'a object_meta_scheme object_context) prog" where
  "EnsureUpdateObject E k upd st r = forceUpdate k (deadline_attempts E) upd st r"

subsection \<open>Labels and annotations\<close>

definition AppendAnnotations ::
  "('w, 'a object_meta_scheme) kind_api \<Rightarrow> strmap \<Rightarrow>
   'a object_meta_scheme object_context \<Rightarrow>
   (('w, 'q) hns, 'a object_meta_scheme object_context) prog" where
  "AppendAnnotations k toAppend r =
     (let newAnnotations = (case meta_annotations (oc_object r) of
                              None \<Rightarrow> toAppend | Some xs \<Rightarrow> Some (put_all (mentries toAppend) xs));
          r = r\<lparr>oc_object := (oc_object r)\<lparr>meta_annotations := newAnnotations\<rparr>\<rparr>
      in UpdateObjectE k OK r)"

definition DeleteAnnotations ::
  "('w, 'a object_meta_scheme) kind_api \<Rightarrow> string list \<Rightarrow>
   'a object_meta_scheme object_context \<Rightarrow>
   (('w, 'q) hns, 'a object_meta_scheme object_context) prog" where
  "DeleteAnnotations k toDelete r =
     (let ann = fold mdelete toDelete (meta_annotations (oc_object r));
          r = r\<lparr>oc_object := (oc_object r)\<lparr>meta_annotations := ann\<rparr>\<rparr>
      in UpdateObjectE k OK r)"

definition AppendLabels ::
  "('w, 'a object_meta_scheme) kind_api \<Rightarrow> strmap \<Rightarrow>
   'a object_meta_scheme object_context \<Rightarrow>
   (('w, 'q) hns, 'a object_meta_scheme object_context) prog" where
  "AppendLabels k toAppend r =
     bind (lift (mput_all (mentries toAppend) (meta_labels (oc_object r)))) (\<lambda>newLabels.
       UpdateObjectE k OK (r\<lparr>oc_object := (oc_object r)\<lparr>meta_labels := newLabels\<rparr>\<rparr>))"

subsection \<open>The laws of the API server\<close>

text \<open>
  What the proofs assume of a kind's API, for an abstraction \<open>view\<close> of the world: reads return
  what is stored, a successful write changes the written key only, an update needs the stored
  resource version and only meets a conflict when that differs, the object handed back differs from the one sent in its version only, a
  deleted object is gone or marked, and a failed call changes nothing. \<open>leaves\<close> says that the
  writes of one kind do not touch the view of another.
\<close>

definition obj_key :: "'a object_meta_scheme \<Rightarrow> objkey" where
  "obj_key obj = nnkey (meta_namespace obj) (meta_name obj)"

definition stored :: "'a object_meta_scheme \<Rightarrow> 'a object_meta_scheme \<Rightarrow> bool" where
  "stored sent obj \<longleftrightarrow> obj\<lparr>meta_version := meta_version sent\<rparr> = sent"

definition lawful_write ::
  "('w \<Rightarrow> objkey \<Rightarrow> 'a object_meta_scheme option) \<Rightarrow>
   ('a object_meta_scheme \<Rightarrow> 'w \<Rightarrow> (go_error + 'a object_meta_scheme) \<times> 'w) \<Rightarrow> bool" where
  "lawful_write view wr \<longleftrightarrow>
     (\<forall>obj w obj' w'. wr obj w = (Inr obj', w') \<longrightarrow>
        stored obj obj' \<and> view w' = (view w)(obj_key obj \<mapsto> obj') \<and>
        (\<exists>cur. view w (obj_key obj) = Some cur \<and> meta_version cur = meta_version obj)) \<and>
     (\<forall>obj w e w'. wr obj w = (Inl e, w') \<longrightarrow> view w' = view w \<and>
        (IsConflict e \<longrightarrow> (\<exists>cur. view w (obj_key obj) = Some cur \<and> meta_version cur \<noteq> meta_version obj)))"

definition lawful ::
  "('w, 'a object_meta_scheme) kind_api \<Rightarrow> ('w \<Rightarrow> objkey \<Rightarrow> 'a object_meta_scheme option) \<Rightarrow> bool" where
  "lawful k view \<longleftrightarrow>
     (\<forall>key w obj. k_get k key w = Inr obj \<longrightarrow> view w key = Some obj) \<and>
     (\<forall>key w e. k_get k key w = Inl e \<and> IsNotFound e \<longrightarrow> view w key = None) \<and>
     (\<forall>key w obj. view w key = Some obj \<longrightarrow> obj_key obj = key) \<and>
     (\<forall>obj w obj' w'. k_create k obj w = (Inr obj', w') \<longrightarrow>
        stored obj obj' \<and> view w (obj_key obj) = None \<and> view w' = (view w)(obj_key obj \<mapsto> obj')) \<and>
     (\<forall>obj w e w'. k_create k obj w = (Inl e, w') \<longrightarrow>
        view w' = view w \<and> (IsAlreadyExists e \<longrightarrow> view w (obj_key obj) \<noteq> None)) \<and>
     lawful_write view (k_update k) \<and> lawful_write view (k_updateStatus k) \<and>
     (\<forall>obj w w'. k_delete k obj w = (None, w') \<longrightarrow>
        view w' = (view w)(obj_key obj := None) \<or>
        (\<exists>cur. view w (obj_key obj) = Some cur \<and>
               (\<exists>v. view w' = (view w)(obj_key obj \<mapsto> cur\<lparr>meta_deleting := True, meta_version := v\<rparr>)))) \<and>
     (\<forall>obj w e w'. k_delete k obj w = (Some e, w') \<longrightarrow> view w' = view w)"

definition leaves :: "('w, 'o) kind_api \<Rightarrow> ('w \<Rightarrow> 'v) \<Rightarrow> bool" where
  "leaves k view \<longleftrightarrow>
     (\<forall>obj w. view (snd (k_create k obj w)) = view w \<and> view (snd (k_update k obj w)) = view w \<and>
              view (snd (k_updateStatus k obj w)) = view w \<and> view (snd (k_delete k obj w)) = view w)"

text \<open>
  What Kubernetes does beyond \<open>lawful\<close>: an update that takes the last finalizer from an object that is
  being deleted completes the deletion, and a create or an update that fails, other than by a conflict or because
  the object exists, may have taken effect. \<open>finishes\<close> allows both; it says nothing of deletions.
\<close>

definition accepted ::
  "('w \<Rightarrow> objkey \<Rightarrow> 'a object_meta_scheme option) \<Rightarrow> 'a object_meta_scheme \<Rightarrow> 'w \<Rightarrow> 'a object_meta_scheme \<Rightarrow> 'w \<Rightarrow> bool" where
  "accepted view obj w obj' w' \<longleftrightarrow> stored obj obj' \<and>
     (\<exists>cur. view w (obj_key obj) = Some cur \<and> meta_version cur = meta_version obj \<and>
        (view w' = (view w)(obj_key obj \<mapsto> obj') \<or>
         meta_deleting cur \<and> meta_finalizers cur \<noteq> [] \<and> meta_finalizers obj = [] \<and> view w' = (view w)(obj_key obj := None)))"

definition finishing_write ::
  "('w \<Rightarrow> objkey \<Rightarrow> 'a object_meta_scheme option) \<Rightarrow>
   ('a object_meta_scheme \<Rightarrow> 'w \<Rightarrow> (go_error + 'a object_meta_scheme) \<times> 'w) \<Rightarrow> bool" where
  "finishing_write view wr \<longleftrightarrow>
     (\<forall>obj w obj' w'. wr obj w = (Inr obj', w') \<longrightarrow> accepted view obj w obj' w') \<and>
     (\<forall>obj w e w'. wr obj w = (Inl e, w') \<longrightarrow>
        view w' = view w \<or> \<not> IsConflict e \<and> (\<exists>obj'. accepted view obj w obj' w')) \<and>
     (\<forall>obj w e w'. wr obj w = (Inl e, w') \<and> IsConflict e \<longrightarrow>
        (\<exists>cur. view w (obj_key obj) = Some cur \<and> meta_version cur \<noteq> meta_version obj))"

definition finishing_create ::
  "('w \<Rightarrow> objkey \<Rightarrow> 'a object_meta_scheme option) \<Rightarrow>
   ('a object_meta_scheme \<Rightarrow> 'w \<Rightarrow> (go_error + 'a object_meta_scheme) \<times> 'w) \<Rightarrow> bool" where
  "finishing_create view cr \<longleftrightarrow>
     (\<forall>obj w obj' w'. cr obj w = (Inr obj', w') \<longrightarrow>
        stored obj obj' \<and> view w (obj_key obj) = None \<and> view w' = (view w)(obj_key obj \<mapsto> obj')) \<and>
     (\<forall>obj w e w'. cr obj w = (Inl e, w') \<longrightarrow>
        (if IsAlreadyExists e then view w' = view w \<and> view w (obj_key obj) \<noteq> None
         else view w' = view w \<or>
           view w (obj_key obj) = None \<and> (\<exists>obj'. stored obj obj' \<and> view w' = (view w)(obj_key obj \<mapsto> obj'))))"

definition readable ::
  "('w, 'a object_meta_scheme) kind_api \<Rightarrow> ('w \<Rightarrow> objkey \<Rightarrow> 'a object_meta_scheme option) \<Rightarrow> bool" where
  "readable k view \<longleftrightarrow>
     (\<forall>key w obj. k_get k key w = Inr obj \<longrightarrow> view w key = Some obj) \<and>
     (\<forall>key w e. k_get k key w = Inl e \<and> IsNotFound e \<longrightarrow> view w key = None) \<and>
     (\<forall>key w obj. view w key = Some obj \<longrightarrow> obj_key obj = key)"

definition finishes ::
  "('w, 'a object_meta_scheme) kind_api \<Rightarrow> ('w \<Rightarrow> objkey \<Rightarrow> 'a object_meta_scheme option) \<Rightarrow> bool" where
  "finishes k view \<longleftrightarrow> readable k view \<and> finishing_create view (k_create k) \<and> finishing_write view (k_update k)"

lemma lawful_finishes:
  assumes "lawful k view"
  shows "readable k view" "finishes k view"
proof -
  have "lawful_write view (k_update k)" using assms by (simp add: lawful_def)
  then have "finishing_write view (k_update k)"
    unfolding lawful_write_def finishing_write_def accepted_def by metis
  moreover have "finishing_create view (k_create k)"
    using assms by (simp add: finishing_create_def lawful_def)
  moreover show "readable k view" using assms by (simp add: lawful_def readable_def)
  ultimately show "finishes k view" by (simp add: finishes_def)
qed

lemma readable_getD: "readable k view \<Longrightarrow> k_get k key w = Inr obj \<Longrightarrow> view w key = Some obj \<and> obj_key obj = key"
  unfolding readable_def by blast

lemma readable_NotFoundD: "readable k view \<Longrightarrow> k_get k key w = Inl e \<Longrightarrow> IsNotFound e \<Longrightarrow> view w key = None"
  unfolding readable_def by blast

lemma finishesD:
  assumes "finishes k view"
  shows "readable k view" "finishing_create view (k_create k)" "finishing_write view (k_update k)"
  using assms by (simp_all add: finishes_def)

lemma finishing_writeD:
  assumes "finishing_write view wr"
  shows "wr obj w = (Inr obj', w') \<Longrightarrow> accepted view obj w obj' w'"
    "wr obj w = (Inl e, w') \<Longrightarrow> view w' = view w \<or> \<not> IsConflict e \<and> (\<exists>obj'. accepted view obj w obj' w')"
    "wr obj w = (Inl e, w') \<Longrightarrow> IsConflict e \<Longrightarrow> \<exists>cur. view w (obj_key obj) = Some cur \<and> meta_version cur \<noteq> meta_version obj"
  using assms unfolding finishing_write_def by blast+

lemma stored_key: "stored a b \<Longrightarrow> obj_key b = obj_key a"
proof -
  assume "stored a b"
  then have "obj_key (b\<lparr>meta_version := meta_version a\<rparr>) = obj_key a" by (simp only: stored_def)
  then show ?thesis by (simp add: obj_key_def)
qed

lemma lawful_getD:
  assumes "lawful k view" "k_get k key w = Inr obj"
  shows "view w key = Some obj \<and> obj_key obj = key"
proof -
  have "view w key = Some obj" using assms unfolding lawful_def by simp
  moreover have "view w key = Some obj \<longrightarrow> obj_key obj = key" using assms(1) unfolding lawful_def by simp
  ultimately show ?thesis by simp
qed

lemma lawful_NotFoundD: "lawful k view \<Longrightarrow> k_get k key w = Inl e \<Longrightarrow> IsNotFound e \<Longrightarrow> view w key = None"
  unfolding lawful_def by simp

lemma lawful_writeD:
  assumes "lawful k view"
  shows "lawful_write view (k_update k)" "lawful_write view (k_updateStatus k)"
    "lawful_write view (if st then k_updateStatus k else k_update k)"
  using assms unfolding lawful_def by simp_all

lemma lawful_write_OKD:
  assumes "lawful_write view wr" "wr obj w = (Inr obj', w')"
  shows "stored obj obj'" "view w' = (view w)(obj_key obj \<mapsto> obj')"
    "\<exists>cur. view w (obj_key obj) = Some cur \<and> meta_version cur = meta_version obj"
  using assms unfolding lawful_write_def by blast+

lemma lawful_write_ConflictD:
  assumes "lawful_write view wr" "wr obj w = (Inl e, w')" "IsConflict e"
  shows "\<exists>cur. view w (obj_key obj) = Some cur \<and> meta_version cur \<noteq> meta_version obj"
  using assms unfolding lawful_write_def by blast

lemma lawful_write_ErrD: "lawful_write view wr \<Longrightarrow> wr obj w = (Inl e, w') \<Longrightarrow> view w' = view w"
  unfolding lawful_write_def by blast

lemma New_cases:
  assumes "New k w key obj = OK r"
  obtains (found) "k_get k key w = Inr (oc_object r)" "oc_present r"
    | (absent) e where "k_get k key w = Inl e" "IsNotFound e" "oc_object r = obj" "\<not> oc_present r"
  using assms by (auto simp: New_def split: sum.splits if_splits)

lemma New_readable:
  "readable k view \<Longrightarrow> New k w key obj = OK r \<Longrightarrow> oc_present r \<Longrightarrow>
   view w key = Some (oc_object r) \<and> obj_key (oc_object r) = key"
  by (erule New_cases) (auto dest: readable_getD)

lemma New_present:
  "lawful k view \<Longrightarrow> New k w key obj = OK r \<Longrightarrow> oc_present r \<Longrightarrow>
   view w key = Some (oc_object r) \<and> obj_key (oc_object r) = key"
  by (erule New_cases) (auto dest: lawful_getD)

subsection \<open>Updates\<close>

text \<open>An update that meets a conflict is reported as done although nothing was stored.\<close>

lemma UpdateObject_swallows_conflict:
  fixes s :: "('w, 'q) hns"
  assumes "lawful k view" "oc_present r" "upd (oc_object r) = OK obj"
    and "k_update k obj (world s) = (Inl err, w')" "IsConflict err"
  shows "\<exists>r'. UpdateObjectE k upd r s = (OK r', s\<lparr>world := w'\<rparr>) \<and> view w' = view (world s)"
  using assms lawful_write_ErrD [OF lawful_writeD(1) [OF assms(1)] assms(4)]
  by (auto simp: UpdateObjectE_def UpdateObject_def check_err_def bind_def ret_def Let_def)

text \<open>One attempt of \<^verbatim>\<open>forceUpdate\<close> by a closure that keeps the identity of the object.\<close>

definition keeps_identity :: "('a object_meta_scheme \<Rightarrow> 'a object_meta_scheme outcome) \<Rightarrow> bool" where
  "keeps_identity upd \<longleftrightarrow>
     (\<forall>obj obj'. upd obj = OK obj' \<longrightarrow> obj_key obj' = obj_key obj \<and> meta_version obj' = meta_version obj)"

lemma keeps_identityD:
  "keeps_identity upd \<Longrightarrow> upd obj = OK obj' \<Longrightarrow> obj_key obj' = obj_key obj \<and> meta_version obj' = meta_version obj"
  by (simp add: keeps_identity_def)

text \<open>The context of an update is current, or stale: the stored object has another version.\<close>

definition current_or_stale :: "'a object_meta_scheme \<Rightarrow> 'a object_meta_scheme object_context \<Rightarrow> bool" where
  "current_or_stale cur r \<longleftrightarrow>
     oc_present r \<and> obj_key (oc_object r) = obj_key cur \<and>
     (oc_object r = cur \<or> meta_version (oc_object r) \<noteq> meta_version cur)"

lemma update_attempt_cases:
  fixes s :: "('w, 'q) hns"
  assumes "lawful k view" "keeps_identity upd" "current_or_stale cur r"
    and "view (world s) (obj_key cur) = Some cur"
    and "update_attempt k False upd st r s = (OK (r', err), s')"
  obtains (success) obj where "err = None" "upd cur = OK obj" "stored obj (oc_object r')"
      "view (world s') = (view (world s))(obj_key cur \<mapsto> oc_object r')"
    | (refused) e where "err = Some e" "current_or_stale cur r' \<or> \<not> IsConflict e" "view (world s') = view (world s)"
      "obj_key (oc_object r') = obj_key cur"
proof (cases "upd (oc_object r)")
  case (OK obj)
  let ?wr = "if st then k_updateStatus k else k_update k"
  note law = lawful_writeD(3) [OF assms(1), of st]
  note idn = keeps_identityD [OF assms(2) OK]
  have cr: "oc_present r" "obj_key (oc_object r) = obj_key cur"
    using assms(3) by (simp_all add: current_or_stale_def)
  obtain a w' where aw: "?wr obj (world s) = (a, w')" by (cases "?wr obj (world s)")
  show ?thesis
  proof (cases a)
    case (Inl e)
    with assms(5) aw cr OK have r': "r' = r\<lparr>oc_object := obj\<rparr>" "err = Some e" "s' = s\<lparr>world := w'\<rparr>"
      by (auto simp: update_attempt_def Let_def)
    moreover have "current_or_stale cur r' \<or> \<not> IsConflict e"
      using lawful_write_ConflictD [OF law, of obj "world s" e w'] aw Inl idn cr assms(4) r'
      by (auto simp: current_or_stale_def)
    ultimately show ?thesis
      using refused [of e] lawful_write_ErrD [OF law, of obj "world s" e w'] aw Inl idn cr by simp
  next
    case (Inr obj')
    note wrote = lawful_write_OKD [OF law, of obj "world s" obj' w']
    have "oc_object r = cur"
      using wrote(3) aw Inr idn assms(3,4) by (auto simp: current_or_stale_def)
    moreover from assms(5) aw cr OK Inr have "r' = r\<lparr>oc_object := obj'\<rparr>" "err = None" "s' = s\<lparr>world := w'\<rparr>"
      by (auto simp: update_attempt_def Let_def)
    ultimately show ?thesis
      using success [of obj] wrote(1,2) aw Inr idn cr OK by simp
  qed
next
  case (Err e)
  then show ?thesis
    using refused [of e] assms(3,5) by (auto simp: update_attempt_def current_or_stale_def)
next
  case Panic
  then show ?thesis using assms(3,5) by (auto simp: update_attempt_def current_or_stale_def)
qed

text \<open>The refresh between two attempts makes the context current, or leaves it as it was.\<close>

lemma refresh_OK: "\<exists>r' err. refresh k r s = (OK (r', err), s)"
  by (cases "k_get k (nnkey (oc_namespace r) (oc_name r)) (world s)") (auto simp: refresh_def)

lemma refresh_cases:
  fixes s :: "('w, 'q) hns"
  assumes "lawful k view" "current_or_stale cur r" "view (world s) (obj_key cur) = Some cur"
    and "refresh k r s = (OK (r', err), s')"
  shows "current_or_stale cur r' \<and> (\<forall>e. err = Some e \<longrightarrow> \<not> IsNotFound e)"
proof -
  have key: "nnkey (oc_namespace r) (oc_name r) = obj_key cur"
    using assms(2) by (simp add: current_or_stale_def obj_key_def)
  show ?thesis
  proof (cases "k_get k (obj_key cur) (world s)")
    case (Inl e)
    moreover have "\<not> IsNotFound e" using lawful_NotFoundD [OF assms(1) Inl] assms(3) by auto
    ultimately show ?thesis using assms(2,4) by (auto simp: refresh_def key)
  next
    case (Inr obj)
    have "Some obj = Some cur"
      by (rule trans [OF sym [OF conjunct1 [OF lawful_getD [OF assms(1) Inr]]] assms(3)])
    with Inr assms(4) have "r' = r\<lparr>oc_object := cur\<rparr>" "err = None" by (auto simp: refresh_def key)
    then show ?thesis using assms(2) by (simp add: current_or_stale_def)
  qed
qed

lemma forceUpdate_once:
  fixes s :: "('w, 'q) hns"
  assumes law: "lawful k view" and idn: "keeps_identity upd"
  shows "current_or_stale cur r \<Longrightarrow> view (world s) (obj_key cur) = Some cur \<Longrightarrow>
    forceUpdate k n upd st r s = (OK r', s') \<Longrightarrow>
    \<exists>obj. upd cur = OK obj \<and> stored obj (oc_object r') \<and>
      view (world s') = (view (world s))(obj_key cur \<mapsto> oc_object r')"
proof (induction n arbitrary: r s)
  case 0
  then show ?case
    by (auto simp: update_attempt_def bind_def check_err_def fail_def Let_def current_or_stale_def
        split: outcome.splits)
next
  case (Suc n)
  from Suc.prems(3) obtain r1 err s1 where
    att: "update_attempt k False upd st r s = (OK (r1, err), s1)"
    unfolding forceUpdate.simps bind_OK_iff by fastforce
  from law idn Suc.prems(1,2) att show ?case
  proof (cases rule: update_attempt_cases)
    case (success obj)
    then show ?thesis using Suc.prems(3) att by (auto simp: bind_def ret_def)
  next
    case (refused e)
    then have conf: "IsConflict e" using Suc.prems(3) att by (auto simp: bind_def fail_def split: if_splits)
    with refused have cs: "current_or_stale cur r1" "view (world s1) (obj_key cur) = Some cur"
      using Suc.prems(2) by simp_all
    obtain r2 err2 where ref: "refresh k r1 s1 = (OK (r2, err2), s1)" using refresh_OK by blast
    note fresh = refresh_cases [OF law cs ref]
    then have "forceUpdate k n upd st r2 s1 = (OK r', s')"
      using Suc.prems(3) att ref refused(1) conf by (auto simp: bind_def split: option.splits if_splits)
    from Suc.IH [OF _ cs(2) this] fresh refused(3) show ?thesis by simp
  qed
qed

text \<open>C22: an update that retries on conflicts applies its change exactly once, to the object that
  is stored, even from a context that is out of date: when it reports success, the stored object
  is the change applied to the object that was stored before.\<close>

theorem EnsureUpdateObject_once:
  fixes s :: "('w, 'q) hns"
  assumes "lawful k view" "keeps_identity upd" "current_or_stale cur r"
    and "view (world s) (obj_key cur) = Some cur"
    and "EnsureUpdateObject E k upd st r s = (OK r', s')"
  shows "\<exists>obj. upd cur = OK obj \<and> stored obj (oc_object r') \<and>
    view (world s') = (view (world s))(obj_key cur \<mapsto> oc_object r')"
  using forceUpdate_once [OF assms(1-4)] assms(5) by (simp add: EnsureUpdateObject_def)

text \<open>An API server that answers: writes with the stored version succeed, others meet a conflict, and what
  is stored can be read.\<close>

definition responsive ::
  "('w, 'a object_meta_scheme) kind_api \<Rightarrow> ('w \<Rightarrow> objkey \<Rightarrow> 'a object_meta_scheme option) \<Rightarrow> bool" where
  "responsive k view \<longleftrightarrow>
     (\<forall>wr \<in> {k_update k, k_updateStatus k}. \<forall>obj w cur. view w (obj_key obj) = Some cur \<longrightarrow>
        (\<exists>a w'. wr obj w = (a, w') \<and>
           (if meta_version cur = meta_version obj then \<exists>obj'. a = Inr obj' else \<exists>e. a = Inl e \<and> IsConflict e))) \<and>
     (\<forall>key w obj. view w key = Some obj \<longrightarrow> k_get k key w = Inr obj)"

lemma responsive_attempt:
  fixes s :: "('w, 'q) hns"
  assumes "responsive k view" "keeps_identity upd" "oc_present r" "upd (oc_object r) = OK obj"
    and "view (world s) (obj_key (oc_object r)) = Some cur"
  shows "\<exists>r' err s'. update_attempt k False upd st r s = (OK (r', err), s') \<and>
     (if meta_version cur = meta_version (oc_object r) then err = None
      else (\<exists>e. err = Some e \<and> IsConflict e) \<and> r' = r\<lparr>oc_object := obj\<rparr>)"
proof -
  let ?wr = "if st then k_updateStatus k else k_update k"
  have idn: "obj_key obj = obj_key (oc_object r)" "meta_version obj = meta_version (oc_object r)"
    using keeps_identityD [OF assms(2,4)] by simp_all
  have "?wr \<in> {k_update k, k_updateStatus k}" by simp
  moreover have "view (world s) (obj_key obj) = Some cur" using assms(5) idn(1) by simp
  ultimately obtain a w' where aw: "?wr obj (world s) = (a, w')"
    "if meta_version cur = meta_version obj then \<exists>obj'. a = Inr obj' else \<exists>e. a = Inl e \<and> IsConflict e"
    using assms(1) unfolding responsive_def by blast
  show ?thesis
    using aw assms(3,4) idn(2)
    by (cases "meta_version cur = meta_version (oc_object r)") (auto simp: update_attempt_def Let_def)
qed

text \<open>C23: against an API server that answers, two attempts are enough: the update returns without an error,
  also from a context that is out of date.\<close>

theorem EnsureUpdateObject_succeeds:
  fixes s :: "('w, 'q) hns"
  assumes "lawful k view" "responsive k view" "keeps_identity upd" "current_or_stale cur r"
    and "view (world s) (obj_key cur) = Some cur" "upd cur = OK obj" "upd (oc_object r) = OK obj1"
    and "2 \<le> deadline_attempts E"
  shows "\<exists>r' s'. EnsureUpdateObject E k upd st r s = (OK r', s')"
proof -
  obtain n where n: "deadline_attempts E = Suc (Suc n)"
    using assms(8) by (cases "deadline_attempts E"; cases "deadline_attempts E - 1") auto
  have r: "oc_present r" "obj_key (oc_object r) = obj_key cur" using assms(4) by (simp_all add: current_or_stale_def)
  have fresh: "\<exists>r' s'. forceUpdate k (Suc m) upd st r s = (OK r', s')"
    if "oc_present r" "oc_object r = cur" "view (world s) (obj_key cur) = Some cur" for r m and s :: "('w, 'q) hns"
    using responsive_attempt [OF assms(2,3) that(1), of obj s cur st] that assms(6) by (auto simp: bind_def ret_def)
  obtain r1 err s1 where att: "update_attempt k False upd st r s = (OK (r1, err), s1)"
    "if meta_version cur = meta_version (oc_object r) then err = None
     else (\<exists>e. err = Some e \<and> IsConflict e) \<and> r1 = r\<lparr>oc_object := obj1\<rparr>"
    using responsive_attempt [OF assms(2,3) r(1) assms(7), of s cur st] assms(5) r(2) by auto
  show ?thesis
  proof (cases "meta_version cur = meta_version (oc_object r)")
    case True
    then show ?thesis using att by (simp add: EnsureUpdateObject_def n bind_step ret_def)
  next
    case False
    then obtain e where e: "err = Some e" "IsConflict e" "r1 = r\<lparr>oc_object := obj1\<rparr>" using att(2) by auto
    have view1: "view (world s1) (obj_key cur) = Some cur"
      using assms(1,3-5) att(1) by (cases rule: update_attempt_cases) (use e(1) assms(5) in simp_all)
    have "obj_key obj1 = obj_key cur" using keeps_identityD [OF assms(3,7)] r(2) by simp
    then have "refresh k r1 s1 = (OK (r\<lparr>oc_object := cur\<rparr>, None), s1)"
      using e(3) view1 assms(2) by (simp add: refresh_def responsive_def obj_key_def)
    then have "forceUpdate k (Suc (Suc n)) upd st r s = forceUpdate k (Suc n) upd st (r\<lparr>oc_object := cur\<rparr>) s1"
      using att(1) e by (simp add: bind_step del: forceUpdate.simps) (simp add: bind_step)
    then show ?thesis
      using fresh [of "r\<lparr>oc_object := cur\<rparr>" s1 n] r(1) view1 by (simp add: EnsureUpdateObject_def n del: forceUpdate.simps)
  qed
qed

end
