(* ===== verification/MemCluster.thy ===== *)
theory MemCluster
  imports ObjectContext
begin

section \<open>A cluster in memory\<close>

text \<open>
  A concrete environment: every kind of object is a list, an update needs the current resource
  version and stores the object under the next one, and quantities are amounts in thousandths with
  their format. It instantiates the parameter of the model, so that the definitions can be run,
  and shows that the laws assumed of the environment can hold together.
\<close>

record mem =
  mem_ns :: "namespace list"
  mem_sns :: "(int \<times> string) subnamespace list"
  mem_rq :: "(int \<times> string) resource_quota list"
  mem_crq :: "(int \<times> string) cluster_resource_quota list"
  mem_lr :: "(int \<times> string) limit_range list"
  mem_upq :: "(int \<times> string) updatequota list"
  mem_mh :: "migration_hierarchy list"
  mem_rb :: "role_binding list"
  mem_cr :: "cluster_role list"
  mem_crb :: "cluster_role_binding list"
  mem_hc :: "hns_config list"
  mem_ug :: "user_group list"

definition empty_mem :: mem where
  "empty_mem = \<lparr>mem_ns = [], mem_sns = [], mem_rq = [], mem_crq = [], mem_lr = [], mem_upq = [], mem_mh = [],
     mem_rb = [], mem_cr = [], mem_crb = [], mem_hc = [], mem_ug = []\<rparr>"

definition not_found :: go_error where "not_found = ApiError ReasonNotFound ''not found''"
definition already_exists :: go_error where "already_exists = ApiError ReasonAlreadyExists ''already exists''"
definition conflict :: go_error where "conflict = ApiError ReasonConflict ''the object has been modified''"

fun mem_match :: "list_option \<Rightarrow> 'a object_meta_scheme \<Rightarrow> bool" where
  "mem_match ListAll obj = True"
| "mem_match (InNamespace ns) obj = (ns = '''' \<or> meta_namespace obj = ns)"
| "mem_match (MatchingLabel k v) obj = (mget (meta_labels obj) k = Some v)"
| "mem_match (InNamespaceWithField ns f v) obj = (meta_namespace obj = ns)"

definition mem_find :: "objkey \<Rightarrow> 'a object_meta_scheme list \<Rightarrow> 'a object_meta_scheme option" where
  "mem_find key objs = find (\<lambda>obj. obj_key obj = key) objs"

definition mem_write ::
  "('w \<Rightarrow> 'a object_meta_scheme list) \<Rightarrow> (('a object_meta_scheme list \<Rightarrow> 'a object_meta_scheme list) \<Rightarrow> 'w \<Rightarrow> 'w) \<Rightarrow>
   'a object_meta_scheme \<Rightarrow> 'w \<Rightarrow> (go_error + 'a object_meta_scheme) \<times> 'w" where
  "mem_write sel upd obj w =
     (case mem_find (obj_key obj) (sel w) of
        None \<Rightarrow> (Inl not_found, w)
      | Some cur \<Rightarrow>
          if meta_version cur = meta_version obj then
            let obj' = obj\<lparr>meta_version := Suc (meta_version obj)\<rparr>
            in (Inr obj', upd (map (\<lambda>o'. if obj_key o' = obj_key obj then obj' else o')) w)
          else (Inl conflict, w))"

definition mem_api ::
  "('w \<Rightarrow> 'a object_meta_scheme list) \<Rightarrow> (('a object_meta_scheme list \<Rightarrow> 'a object_meta_scheme list) \<Rightarrow> 'w \<Rightarrow> 'w) \<Rightarrow>
   ('w, 'a object_meta_scheme) kind_api" where
  "mem_api sel upd =
     \<lparr>k_get = (\<lambda>key w. case mem_find key (sel w) of None \<Rightarrow> Inl not_found | Some obj \<Rightarrow> Inr obj),
      k_list = (\<lambda>opt w. Inr (filter (mem_match opt) (sel w))),
      k_create = (\<lambda>obj w. case mem_find (obj_key obj) (sel w) of
                     None \<Rightarrow> (Inr obj, upd (\<lambda>objs. objs @ [obj]) w)
                   | Some _ \<Rightarrow> (Inl already_exists, w)),
      k_update = mem_write sel upd, k_updateStatus = mem_write sel upd,
      k_delete = (\<lambda>obj w. case mem_find (obj_key obj) (sel w) of
                     None \<Rightarrow> (Some not_found, w)
                   | Some _ \<Rightarrow> (None, upd (filter (\<lambda>o'. obj_key o' \<noteq> obj_key obj)) w))\<rparr>"

lemma mem_api_simps:
  "k_get (mem_api sel upd) key w = (case mem_find key (sel w) of None \<Rightarrow> Inl not_found | Some obj \<Rightarrow> Inr obj)"
  "k_list (mem_api sel upd) opt w = Inr (filter (mem_match opt) (sel w))"
  "k_create (mem_api sel upd) obj w = (case mem_find (obj_key obj) (sel w) of
     None \<Rightarrow> (Inr obj, upd (\<lambda>objs. objs @ [obj]) w) | Some _ \<Rightarrow> (Inl already_exists, w))"
  "k_update (mem_api sel upd) = mem_write sel upd"
  "k_updateStatus (mem_api sel upd) = mem_write sel upd"
  "k_delete (mem_api sel upd) obj w = (case mem_find (obj_key obj) (sel w) of
     None \<Rightarrow> (Some not_found, w) | Some _ \<Rightarrow> (None, upd (filter (\<lambda>o'. obj_key o' \<noteq> obj_key obj)) w))"
  by (simp_all add: mem_api_def)

text \<open>Quantities: \<^verbatim>\<open>Value\<close> rounds away from zero.\<close>

definition mem_value :: "int \<times> string \<Rightarrow> int" where
  "mem_value q = (if fst q \<ge> 0 then (fst q + 999) div 1000 else - ((999 - fst q) div 1000))"

definition mem_qty :: "(int \<times> string) quantity_ops" where
  "mem_qty =
     \<lparr>q_zero = (0, ''''), q_add = (\<lambda>a b. (fst a + fst b, if snd a = '''' then snd b else snd a)),
      q_sub = (\<lambda>a b. (fst a - fst b, if snd a = '''' then snd b else snd a)),
      q_value = mem_value, q_cmp = (\<lambda>a b. sgn (fst a - fst b)), q_sign = (\<lambda>a. sgn (fst a)),
      q_set = (\<lambda>n q. (1000 * n, snd q)), q_format = snd,
      q_newDecimalSI = (\<lambda>n. (1000 * n, ''DecimalSI'')), q_newBinarySI = (\<lambda>n. (1000 * n, ''BinarySI'')),
      q_parse = (\<lambda>s. case Atoi s of (n, None) \<Rightarrow> Some (1000 * n, ''DecimalSI'') | _ \<Rightarrow> None)\<rparr>"

definition mem_env :: "(mem, int \<times> string) env" where
  "mem_env =
     \<lparr>qty = mem_qty,
      api_ns = mem_api mem_ns mem_ns_update, api_sns = mem_api mem_sns mem_sns_update,
      api_rq = mem_api mem_rq mem_rq_update, api_crq = mem_api mem_crq mem_crq_update,
      api_lr = mem_api mem_lr mem_lr_update, api_upq = mem_api mem_upq mem_upq_update,
      api_mh = mem_api mem_mh mem_mh_update, api_rb = mem_api mem_rb mem_rb_update,
      api_cr = mem_api mem_cr mem_cr_update, api_crb = mem_api mem_crb mem_crb_update,
      api_hc = mem_api mem_hc mem_hc_update, api_ug = mem_api mem_ug mem_ug_update,
      access_review = (\<lambda>user ns verb resource w. Inr (False, True)),
      setControllerReference = (\<lambda>ns sns. Inr (sns\<lparr>meta_owners := [meta_name ns]\<rparr>)),
      containsFinalizer = (\<lambda>f fs. f \<in> set fs), addFinalizer = (\<lambda>f fs. if f \<in> set fs then fs else fs @ [f]),
      removeFinalizer = removeAll, retryOnConflict = (\<lambda>f w. f w), sleep = (\<lambda>ms w. w),
      deadline_attempts = 10, stack_limit = 100\<rparr>"

definition mem_state :: "mem \<Rightarrow> (string \<times> string list) list \<Rightarrow> (mem, int \<times> string) hns" where
  "mem_state w ndb = \<lparr>world = w, crqForest = ndb, snsEvents = [], nsEvents = [], gauges = []\<rparr>"

text \<open>Small objects.\<close>

definition mk_ns :: "string \<Rightarrow> string \<Rightarrow> string \<Rightarrow> string \<Rightarrow> namespace" where
  "mk_ns nm parent path depth =
     empty_meta\<lparr>meta_name := nm, meta_labels := Some [(ParentKey, parent), (HnsKey, ''true'')],
       meta_annotations := Some [(DisplayNameKey, path), (DepthKey, depth), (RootCrqSelectorKey, ''root'')]\<rparr>"

definition mk_root :: "string \<Rightarrow> namespace" where
  "mk_root rqDepth =
     empty_meta\<lparr>meta_name := ''root'', meta_labels := Some [(HnsKey, ''true'')],
       meta_annotations := Some [(RoleKey, Root), (DisplayNameKey, ''root''), (DepthKey, ''0''),
         (RootCrqSelectorKey, ''root''), (RqDepthKey, rqDepth)]\<rparr>"

definition mk_sns :: "string \<Rightarrow> string \<Rightarrow> phase \<Rightarrow> (string \<times> int) list \<Rightarrow> (int \<times> string) subnamespace" where
  "mk_sns ns nm phase hard =
     empty_sns\<lparr>meta_name := nm, meta_namespace := ns, meta_labels := Some [(ResourcePoolKey, ''false'')],
       meta_annotations := Some [], sns_phase := phase,
       sns_hard := Some (map (\<lambda>(r, n). (r, (1000 * n, ''DecimalSI''))) hard)\<rparr>"

definition ctx :: "'o \<Rightarrow> 'o object_context" where
  "ctx obj = \<lparr>oc_object = obj, oc_present = True\<rparr>"

definition mk_rq :: "string \<Rightarrow> (string \<times> int) list \<Rightarrow> (int \<times> string) resource_quota" where
  "mk_rq nm hard = empty_rq\<lparr>meta_name := nm, meta_namespace := nm,
     rq_hard := Some (map (\<lambda>(r, n). (r, (1000 * n, ''DecimalSI''))) hard), rq_used := Some []\<rparr>"

definition mk_crq :: "string \<Rightarrow> (string \<times> int) list \<Rightarrow> (int \<times> string) cluster_resource_quota" where
  "mk_crq nm hard = empty_crq\<lparr>meta_name := nm,
     crq_hard := Some (map (\<lambda>(r, n). (r, (1000 * n, ''DecimalSI''))) hard), crq_used := Some [],
     crq_namespaces := [nm]\<rparr>"

definition mk_config :: hns_config where
  "mk_config = object_meta.extend (empty_meta\<lparr>meta_name := ''hns-config'', meta_namespace := HNSNamespace\<rparr>)
     \<lparr>hc_permittedGroups = None, hc_observedResources = [''cpu''],
      hc_minimum = Some [(''cpu'', ''1''), (''memory'', ''1'')],
      hc_defaultRequest = Some [(''cpu'', ''1''), (''memory'', ''1'')],
      hc_defaultLimit = Some [(''cpu'', ''1''), (''memory'', ''1'')],
      hc_maximum = Some [(''cpu'', ''9'')], hc_minimumPVC = Some [(''storage'', ''1'')]\<rparr>"

text \<open>A tree: \<open>root\<close> over \<open>a\<close> (the last level with a ResourceQuota) over \<open>b\<close> and
  \<open>d\<close>, and \<open>b\<close> over \<open>c\<close>.\<close>

definition sample :: mem where
  "sample = empty_mem
     \<lparr>mem_ns := [mk_root ''1'', mk_ns ''a'' ''root'' ''root/a'' ''1'', mk_ns ''b'' ''a'' ''root/a/b'' ''2'',
                 mk_ns ''c'' ''b'' ''root/a/b/c'' ''3'', mk_ns ''d'' ''a'' ''root/a/d'' ''2''],
      mem_sns := [mk_sns ''root'' ''a'' Created [(''cpu'', 10)], mk_sns ''a'' ''b'' Created [(''cpu'', 5)],
                  mk_sns ''b'' ''c'' Created [(''cpu'', 2)], mk_sns ''a'' ''d'' Created [(''cpu'', 3)]],
      mem_rq := [mk_rq ''root'' [(''cpu'', 20)], mk_rq ''a'' [(''cpu'', 10)]],
      mem_crq := [mk_crq ''b'' [(''cpu'', 5)], mk_crq ''c'' [(''cpu'', 2)], mk_crq ''d'' [(''cpu'', 3)]],
      mem_hc := [mk_config]\<rparr>"

definition sample_forest :: "(string \<times> string list) list" where
  "sample_forest = [(''b'', [''c'']), (''d'', [])]"

subsection \<open>The cluster in memory obeys the laws\<close>

lemma mem_find_simps [simp]:
  "mem_find key [] = None"
  "mem_find key (obj # objs) = (if obj_key obj = key then Some obj else mem_find key objs)"
  by (simp_all add: mem_find_def)

lemma mem_find_key: "mem_find key objs = Some obj \<Longrightarrow> obj_key obj = key"
  by (induction objs) (auto split: if_splits)

lemma mem_find_append: "mem_find key (xs @ ys) = (case mem_find key xs of None \<Rightarrow> mem_find key ys | r \<Rightarrow> r)"
  by (induction xs) auto

lemma mem_find_replace:
  "obj_key obj' = k \<Longrightarrow> mem_find key (map (\<lambda>o'. if obj_key o' = k then obj' else o') objs) =
     (if key = k \<and> mem_find key objs \<noteq> None then Some obj' else mem_find key objs)"
  by (induction objs) auto

lemma mem_find_remove:
  "mem_find key (filter (\<lambda>o'. obj_key o' \<noteq> k) objs) = (if key = k then None else mem_find key objs)"
  by (induction objs) auto

lemma obj_key_version [simp]: "obj_key (obj\<lparr>meta_version := v\<rparr>) = obj_key obj"
  by (simp add: obj_key_def)

lemma mem_write_lawful:
  assumes "\<And>f w. sel (upd f w) = f (sel w)"
  shows "lawful_write (\<lambda>w key. mem_find key (sel w)) (mem_write sel upd)"
  unfolding lawful_write_def mem_write_def
  by (auto simp: assms stored_def Let_def fun_eq_iff mem_find_replace conflict_def not_found_def split: option.splits if_splits)

lemma mem_api_lawful:
  assumes "\<And>f w. sel (upd f w) = f (sel w)"
  shows "lawful (mem_api sel upd) (\<lambda>w key. mem_find key (sel w))"
proof -
  have "lawful_write (\<lambda>w key. mem_find key (sel w)) (mem_write sel upd)"
    by (rule mem_write_lawful) (rule assms)
  then show ?thesis
    unfolding lawful_def mem_api_simps
    by (auto simp: assms stored_def fun_eq_iff mem_find_append mem_find_remove not_found_def already_exists_def
        dest: mem_find_key split: option.splits)
qed

abbreviation mem_view :: "(mem \<Rightarrow> 'a object_meta_scheme list) \<Rightarrow> mem \<Rightarrow> objkey \<Rightarrow> 'a object_meta_scheme option" where
  "mem_view sel \<equiv> \<lambda>w key. mem_find key (sel w)"

lemma mem_env_lawful:
  "lawful (api_ns mem_env) (mem_view mem_ns)" "lawful (api_sns mem_env) (mem_view mem_sns)"
  "lawful (api_rq mem_env) (mem_view mem_rq)" "lawful (api_crq mem_env) (mem_view mem_crq)"
  "lawful (api_upq mem_env) (mem_view mem_upq)" "lawful (api_mh mem_env) (mem_view mem_mh)"
  "lawful (api_rb mem_env) (mem_view mem_rb)"
  unfolding mem_env_def by (simp_all add: mem_api_lawful)

lemma mem_api_leaves: "(\<And>f w. v (upd f w) = v w) \<Longrightarrow> leaves (mem_api sel upd) v"
  by (auto simp: leaves_def mem_api_simps mem_write_def Let_def split: option.splits)

lemma mem_env_leaves:
  "leaves (api_ns mem_env) (mem_view mem_sns)" "leaves (api_rq mem_env) (mem_view mem_sns)"
  "leaves (api_crq mem_env) (mem_view mem_sns)" "leaves (api_lr mem_env) (mem_view mem_sns)"
  unfolding mem_env_def by (simp_all add: mem_api_leaves)

text \<open>The two update routines at work: a conflict that is swallowed, and a stale context whose
  update reaches the stored object.\<close>

definition raise_version :: "nat \<Rightarrow> 'a object_meta_scheme \<Rightarrow> 'a object_meta_scheme" where
  "raise_version n obj = obj\<lparr>meta_version := n\<rparr>"

definition hide :: "'a object_meta_scheme \<Rightarrow> 'a object_meta_scheme outcome" where
  "hide obj = OK (obj\<lparr>meta_labels := None\<rparr>)"

lemma hide_keeps_identity: "keeps_identity hide"
  by (auto simp: keeps_identity_def hide_def obj_key_def)

definition stale_d :: "(int \<times> string) subnamespace object_context" where
  "stale_d = ctx (raise_version 7 (mk_sns ''a'' ''d'' Created [(''cpu'', 9)]))"

lemma stale_d_evaluates:
  "k_update (api_sns mem_env) (oc_object stale_d) sample = (Inl conflict, sample)" "IsConflict conflict"
  "mem_view mem_sns sample (nnkey ''a'' ''d'') = Some (mk_sns ''a'' ''d'' Created [(''cpu'', 3)])"
  by code_simp+

lemma stale_d_updated:
  "EnsureUpdateObject mem_env (api_sns mem_env) hide False stale_d (mem_state sample []) =
     (OK (ctx (raise_version 1 (mk_sns ''a'' ''d'' Created [(''cpu'', 3)])\<lparr>meta_labels := None\<rparr>)),
      snd (EnsureUpdateObject mem_env (api_sns mem_env) hide False stale_d (mem_state sample [])))"
  by code_simp

lemma UpdateObject_swallows_conflict_instance:
  "\<exists>r' w'. UpdateObjectE (api_sns mem_env) OK stale_d (mem_state sample []) = (OK r', mem_state w' []) \<and>
     mem_view mem_sns w' = mem_view mem_sns sample"
  using UpdateObject_swallows_conflict [OF mem_env_lawful(2), of stale_d OK "oc_object stale_d"
      "mem_state sample []" conflict sample] stale_d_evaluates(1,2)
  by (fastforce simp: stale_d_def ctx_def mem_state_def)

theorem EnsureUpdateObject_once_witness:
  "\<exists>obj. hide (mk_sns ''a'' ''d'' Created [(''cpu'', 3)]) = OK obj \<and>
     mem_view mem_sns (world (snd (EnsureUpdateObject mem_env (api_sns mem_env) hide False stale_d (mem_state sample []))))
       (nnkey ''a'' ''d'') = Some (raise_version 1 obj)"
proof -
  let ?d = "mk_sns ''a'' ''d'' Created [(''cpu'', 3)]"
  have cs: "current_or_stale ?d stale_d" by code_simp
  have key: "obj_key ?d = nnkey ''a'' ''d''" by code_simp
  have now: "mem_view mem_sns (world (mem_state sample [])) (obj_key ?d) = Some ?d"
    by (simp only: key mem_state_def hns.simps stale_d_evaluates)
  show ?thesis
    using EnsureUpdateObject_once [OF mem_env_lawful(2) hide_keeps_identity cs now stale_d_updated]
    by (auto simp: fun_eq_iff [of "mem_view mem_sns _"] obj_key_def nnkey_def ctx_def hide_def raise_version_def mk_sns_def
        empty_object_defs)
qed

lemma mem_api_responsive: "responsive (mem_api sel upd) (\<lambda>w key. mem_find key (sel w))"
  by (auto simp: responsive_def mem_api_simps mem_write_def Let_def conflict_def)

theorem EnsureUpdateObject_succeeds_witness:
  "\<exists>r' s'. EnsureUpdateObject mem_env (api_sns mem_env) hide False stale_d (mem_state sample []) = (OK r', s')"
proof -
  let ?d = "mk_sns ''a'' ''d'' Created [(''cpu'', 3)]"
  have resp: "responsive (api_sns mem_env) (mem_view mem_sns)" by (simp add: mem_env_def mem_api_responsive)
  have cs: "current_or_stale ?d stale_d" by code_simp
  have key: "obj_key ?d = nnkey ''a'' ''d''" by code_simp
  have now: "mem_view mem_sns (world (mem_state sample [])) (obj_key ?d) = Some ?d"
    by (simp only: key mem_state_def hns.simps stale_d_evaluates)
  have "hide ?d = OK (?d\<lparr>meta_labels := None\<rparr>)" "hide (oc_object stale_d) = OK ((oc_object stale_d)\<lparr>meta_labels := None\<rparr>)"
    by (simp_all add: hide_def)
  then show ?thesis
    by (rule EnsureUpdateObject_succeeds [OF mem_env_lawful(2) resp hide_keeps_identity cs now])
      (simp add: mem_env_def)
qed

end
