(* ===== verification/NsUtils.thy ===== *)
theory NsUtils
  imports MemCluster
begin

section \<open>nsutils: labels, annotations and the place of a namespace in the hierarchy\<close>

text \<open>
  \<^verbatim>\<open>internal/namespace/nsutils\<close>. A namespace carries its place in the hierarchy in its
  annotations: the display name (the path from the root, joined by slashes), its depth and one
  \<^verbatim>\<open>crq-selector\<close> per level. The labels and annotations of a child are computed from those of
  its parent.
\<close>

definition IsChildless :: "('w, 'q) env \<Rightarrow> 'w \<Rightarrow> 'a object_meta_scheme object_context \<Rightarrow> bool" where
  "IsChildless E w ns =
     (case NewList (api_sns E) w (InNamespace (oc_name ns)) of
        OK snsList \<Rightarrow> snsList = [] | _ \<Rightarrow> False)"

definition IsRoot :: "'a object_meta_scheme \<Rightarrow> bool" where
  "IsRoot ns \<longleftrightarrow> mstr (meta_annotations ns) RoleKey = Root"

definition DisplayName :: "namespace \<Rightarrow> string" where
  "DisplayName ns = mstr (meta_annotations ns) DisplayNameKey"

definition Parent :: "'a object_meta_scheme \<Rightarrow> string" where
  "Parent ns = mstr (meta_labels ns) ParentKey"

definition IsSecondaryRoot :: "'a object_meta_scheme \<Rightarrow> bool" where
  "IsSecondaryRoot ns \<longleftrightarrow> mstr (meta_annotations ns) IsSecondaryRootKey = TrueStr"

definition DisplayNameSlice :: "'a object_meta_scheme object_context \<Rightarrow> string list" where
  "DisplayNameSlice ns = Split (CHR ''/'') (mstr (meta_annotations (oc_object ns)) DisplayNameKey)"

text \<open>\<^verbatim>\<open>defaultLabels\<close>, \<^verbatim>\<open>defaultAnnotations\<close> and \<^verbatim>\<open>crqSelectors\<close> copy the entries of the
  parent that pass a test on the key.\<close>

definition defaultLabels :: "'a object_meta_scheme object_context \<Rightarrow> (string \<times> string) list \<Rightarrow> (string \<times> string) list" where
  "defaultLabels ns labels =
     put_all (filter (\<lambda>(k, v). k \<in> set DefaultLabels) (mentries (meta_labels (oc_object ns)))) labels"

definition defaultAnnotations :: "'a object_meta_scheme object_context \<Rightarrow> (string \<times> string) list \<Rightarrow> (string \<times> string) list" where
  "defaultAnnotations ns annotations =
     put_all (filter (\<lambda>(k, v). k \<in> set DefaultAnnotations) (mentries (meta_annotations (oc_object ns)))) annotations"

definition crqSelectors :: "'a object_meta_scheme object_context \<Rightarrow> (string \<times> string) list" where
  "crqSelectors ns =
     put_all (filter (\<lambda>(k, v). Contains k CrqSelectorKey) (mentries (meta_annotations (oc_object ns)))) []"

definition Depth :: "'a object_meta_scheme \<Rightarrow> int" where
  "Depth ns = (case Atoi (mstr (meta_annotations ns) DepthKey) of
                 (n, None) \<Rightarrow> n | (n, Some err) \<Rightarrow> 0)"

definition LabelsBasedOnParent :: "namespace object_context \<Rightarrow> string \<Rightarrow> (string \<times> string) list" where
  "LabelsBasedOnParent parentNS nsName =
     (let labels = defaultLabels parentNS [];
          labels = AList.update ParentKey (oc_name parentNS) labels;
          labels = AList.update HnsKey ''true'' labels;
          labels = put_all (map (\<lambda>ns. (ns, ''true'')) (DisplayNameSlice parentNS)) labels
      in AList.update nsName ''true'' labels)"

definition AnnotationsBasedOnParent :: "namespace object_context \<Rightarrow> string \<Rightarrow> (string \<times> string) list" where
  "AnnotationsBasedOnParent parentNS nsName =
     (let childNamespaceDepth = Itoa (i64 (Depth (oc_object parentNS) + 1));
          parentDisplayName = DisplayName (oc_object parentNS);
          annotations = crqSelectors parentNS;
          annotations = defaultAnnotations parentNS annotations;
          annotations = AList.update DepthKey childNamespaceDepth annotations;
          annotations = AList.update DisplayNameKey (parentDisplayName @ ''/'' @ nsName) annotations;
          annotations = AList.update OpenShiftDisplayNameKey (parentDisplayName @ ''/'' @ nsName) annotations;
          annotations = AList.update SnsPointerKey nsName annotations
      in AList.update (CrqSelectorKey @ ''-'' @ childNamespaceDepth) nsName annotations)"

text \<open>\<^verbatim>\<open>SNSFromNamespace\<close>: \<open>None\<close> is the nil context returned for the root namespace.\<close>

definition SNSFromNamespace ::
  "('w, 'q) env \<Rightarrow> 'w \<Rightarrow> namespace object_context \<Rightarrow> 'q subnamespace object_context option outcome" where
  "SNSFromNamespace E w ns =
     (if IsRoot (oc_object ns) then OK None
      else obind (New (api_sns E) w (nnkey (Parent (oc_object ns)) (oc_name ns)) empty_sns)
                 (\<lambda>sns. OK (Some sns)))"

definition ComposeNamespace :: "string \<Rightarrow> (string \<times> string) list \<Rightarrow> (string \<times> string) list \<Rightarrow> namespace" where
  "ComposeNamespace nm labels annotations =
     empty_meta\<lparr>meta_name := nm, meta_labels := Some labels, meta_annotations := Some annotations\<rparr>"

subsection \<open>Keys of the selectors\<close>

abbreviation selector_key :: "int \<Rightarrow> string" where
  "selector_key d \<equiv> CrqSelectorKey @ CHR ''-'' # Itoa d"

lemma Contains_prefix: "Contains (p @ s) p"
  by (simp add: Contains_iff) (metis append_Nil)

lemma selector_key_contains [simp]: "Contains (selector_key d) CrqSelectorKey"
  by (rule Contains_prefix)

lemma meta_keys_not_selectors:
  "\<not> Contains DepthKey CrqSelectorKey" "\<not> Contains DisplayNameKey CrqSelectorKey"
  "\<not> Contains OpenShiftDisplayNameKey CrqSelectorKey" "\<not> Contains SnsPointerKey CrqSelectorKey"
  by (simp_all add: key_defs)

lemma default_annotations_not_selectors:
  "k \<in> set DefaultAnnotations \<Longrightarrow> \<not> Contains k CrqSelectorKey"
  by (auto simp: key_defs)

lemma selector_key_neq [simp]:
  "selector_key d \<noteq> DepthKey" "selector_key d \<noteq> DisplayNameKey"
  "selector_key d \<noteq> OpenShiftDisplayNameKey" "selector_key d \<noteq> SnsPointerKey"
  "DepthKey \<noteq> selector_key d" "DisplayNameKey \<noteq> selector_key d"
  "OpenShiftDisplayNameKey \<noteq> selector_key d" "SnsPointerKey \<noteq> selector_key d"
  using meta_keys_not_selectors selector_key_contains by metis+

lemma selector_key_inject:
  "in_i64 d \<Longrightarrow> in_i64 d' \<Longrightarrow> selector_key d = selector_key d' \<longleftrightarrow> d = d'"
  using Itoa_inject by auto

lemma root_selector_key: "selector_key 0 = RootCrqSelectorKey"
proof -
  have "Itoa 0 = ''0''" by code_simp
  then show ?thesis by (simp add: RootCrqSelectorKey_def)
qed

subsection \<open>What a child inherits\<close>

lemma map_of_filter_key:
  "map_of (filter (\<lambda>(k, v). P k) xs) k = (if P k then map_of xs k else None)"
  by (induction xs) auto

lemma map_of_put_all_filter:
  "distinct (map fst xs) \<Longrightarrow>
   map_of (put_all (filter (\<lambda>(k, v). P k) xs) dst) k =
     (if P k then (case map_of xs k of None \<Rightarrow> map_of dst k | Some v \<Rightarrow> Some v) else map_of dst k)"
  by (subst map_of_put_all)
     (auto simp: map_of_filter_key distinct_map_filter split: option.splits)

lemma mstr_Some: "mstr (Some m) k = (case map_of m k of None \<Rightarrow> '''' | Some v \<Rightarrow> v)"
  by (simp add: mgetd_def)

lemma map_of_AnnotationsBasedOnParent:
  assumes "wf_map (meta_annotations (oc_object parentNS))"
  shows "map_of (AnnotationsBasedOnParent parentNS nsName) k =
    (let d = i64 (Depth (oc_object parentNS) + 1); path = DisplayName (oc_object parentNS) @ ''/'' @ nsName in
     if k = selector_key d then Some nsName
     else if k = SnsPointerKey then Some nsName
     else if k = OpenShiftDisplayNameKey \<or> k = DisplayNameKey then Some path
     else if k = DepthKey then Some (Itoa d)
     else if k \<in> set DefaultAnnotations \<or> Contains k CrqSelectorKey
          then mget (meta_annotations (oc_object parentNS)) k
     else None)"
  using assms
  by (auto simp: AnnotationsBasedOnParent_def Let_def defaultAnnotations_def crqSelectors_def
      map_of_put_all_filter mget_def mentries_def split: option.splits)

lemma DisplayNameSlice_no_slash: "n \<in> set (DisplayNameSlice ns) \<Longrightarrow> CHR ''/'' \<notin> set n"
  unfolding DisplayNameSlice_def by (rule Split_parts_no_sep)

lemma slash_in_keys [simp]: "CHR ''/'' \<in> set ParentKey" "CHR ''/'' \<in> set HnsKey" "CHR ''/'' \<in> set ResourcePoolKey"
  by (simp_all add: key_defs)

lemma map_of_trues:
  "map_of (put_all (map (\<lambda>n. (n, ''true'')) ns) dst) k = (if k \<in> set ns then Some ''true'' else map_of dst k)"
  by (induction ns arbitrary: dst) auto

text \<open>The path of a child is the path of its parent followed by its own name, when the name has
  no slash; and the depth of a child is one more than that of its parent.\<close>

lemma child_path:
  assumes "wf_map (meta_annotations (oc_object parentNS))" "CHR ''/'' \<notin> set nsName"
    "in_i64 (Depth (oc_object parentNS) + 1)"
  shows "DisplayNameSlice \<lparr>oc_object = ComposeNamespace nsName labels (AnnotationsBasedOnParent parentNS nsName),
                           oc_present = present\<rparr> = DisplayNameSlice parentNS @ [nsName] \<and>
     Depth (ComposeNamespace nsName labels (AnnotationsBasedOnParent parentNS nsName)) = Depth (oc_object parentNS) + 1"
proof
  let ?ann = "AnnotationsBasedOnParent parentNS nsName"
  have "mstr (Some ?ann) DisplayNameKey = DisplayName (oc_object parentNS) @ ''/'' @ nsName"
    using map_of_AnnotationsBasedOnParent [OF assms(1), of nsName DisplayNameKey]
    by (auto simp: mstr_Some Let_def)
  then show "DisplayNameSlice \<lparr>oc_object = ComposeNamespace nsName labels ?ann, oc_present = present\<rparr> =
      DisplayNameSlice parentNS @ [nsName]"
    using assms(2) by (simp add: DisplayNameSlice_def ComposeNamespace_def empty_meta_def DisplayName_def
        Split_append_sep Split_no_sep)
  have "mstr (Some ?ann) DepthKey = Itoa (Depth (oc_object parentNS) + 1)"
    using map_of_AnnotationsBasedOnParent [OF assms(1), of nsName DepthKey] assms(3)
    by (auto simp: mstr_Some Let_def)
  then show "Depth (ComposeNamespace nsName labels ?ann) = Depth (oc_object parentNS) + 1"
    using assms(3) by (simp add: Depth_def ComposeNamespace_def empty_meta_def Atoi_Itoa)
qed

text \<open>A child carries the quota selectors of all its ancestors and one of its own at its depth, so
  the ClusterResourceQuotas of its ancestors select it.\<close>

lemma child_selectors:
  assumes "wf_map (meta_annotations (oc_object parentNS))"
    "in_i64 (Depth (oc_object parentNS) + 1)" "in_i64 d"
  shows "mget (Some (AnnotationsBasedOnParent parentNS nsName)) (selector_key d) =
    (if d = Depth (oc_object parentNS) + 1 then Some nsName
     else mget (meta_annotations (oc_object parentNS)) (selector_key d))"
  using map_of_AnnotationsBasedOnParent [OF assms(1), of nsName "selector_key d"] assms(2,3)
    selector_key_inject [of d "Depth (oc_object parentNS) + 1"]
  by (auto simp: Let_def)

text \<open>The labels of a child name its parent and mark every namespace on its path.\<close>

lemma child_labels:
  assumes "CHR ''/'' \<notin> set nsName"
  shows "Parent (ComposeNamespace nsName (LabelsBasedOnParent parentNS nsName) ann) = oc_name parentNS \<and>
    (\<forall>n \<in> set (DisplayNameSlice parentNS) \<union> {nsName}.
       mget (Some (LabelsBasedOnParent parentNS nsName)) n = Some ''true'')"
proof -
  have "ParentKey \<noteq> nsName" using assms slash_in_keys(1) by metis
  moreover have "ParentKey \<notin> set (DisplayNameSlice parentNS)"
    using DisplayNameSlice_no_slash slash_in_keys(1) by blast
  ultimately show ?thesis
    by (auto simp: Parent_def ComposeNamespace_def empty_meta_def LabelsBasedOnParent_def Let_def mstr_Some map_of_trues)
qed

subsection \<open>Instances\<close>

abbreviation parent_a :: "namespace object_context" where
  "parent_a \<equiv> ctx (mk_ns ''a'' ''root'' ''root/a'' ''1'')"

lemma parent_a_facts:
  "wf_map (meta_annotations (oc_object parent_a))" "Depth (oc_object parent_a) = 1"
  "DisplayNameSlice parent_a = [''root'', ''a'']" "oc_name parent_a = ''a''"
  by code_simp+

lemma child_path_instance:
  "DisplayNameSlice \<lparr>oc_object = ComposeNamespace ''b'' [] (AnnotationsBasedOnParent parent_a ''b''), oc_present = True\<rparr> =
     [''root'', ''a'', ''b''] \<and>
   Depth (ComposeNamespace ''b'' [] (AnnotationsBasedOnParent parent_a ''b'')) = 2"
  using child_path [of parent_a "''b''" "[]" True] by (simp add: parent_a_facts in_i64_def)

lemma child_selectors_instance:
  "mget (Some (AnnotationsBasedOnParent parent_a ''b'')) (selector_key 2) = Some ''b'' \<and>
   mget (Some (AnnotationsBasedOnParent parent_a ''b'')) (selector_key 0) = Some ''root''"
proof -
  have "mget (meta_annotations (oc_object parent_a)) (selector_key 0) = Some ''root''" by code_simp
  then show ?thesis
    using child_selectors [of parent_a 2 "''b''"] child_selectors [of parent_a 0 "''b''"]
    by (simp add: parent_a_facts in_i64_def)
qed

lemma child_labels_instance:
  "Parent (ComposeNamespace ''b'' (LabelsBasedOnParent parent_a ''b'') []) = ''a'' \<and>
   mget (Some (LabelsBasedOnParent parent_a ''b'')) ''root'' = Some ''true''"
  using child_labels [of "''b''" parent_a "[]"] by (simp add: parent_a_facts)

end
