(* ===== verification/SnsUtils.thy ===== *)
theory SnsUtils
  imports NsUtils
begin

section \<open>snsutils: ancestors and descendants\<close>

text \<open>\<^verbatim>\<open>internal/subnamespace/snsutils\<close>.\<close>

definition GetNamespaceSNSPointerAnnotation :: "'a object_meta_scheme \<Rightarrow> string" where
  "GetNamespaceSNSPointerAnnotation ns = mstr (meta_annotations ns) SnsPointerKey"

text \<open>\<^verbatim>\<open>GetAncestor\<close>: two nested loops over the indices, both downwards.\<close>

fun ancestor_inner :: "string \<Rightarrow> nat \<Rightarrow> string list \<Rightarrow> nat \<Rightarrow> (string \<times> bool) option" where
  "ancestor_inner x i dest 0 = None"
| "ancestor_inner x i dest (Suc j) =
     (if x = dest ! j then Some (x, i = 0 \<and> j = 0) else ancestor_inner x i dest j)"

fun ancestor_outer :: "string list \<Rightarrow> string list \<Rightarrow> nat \<Rightarrow> (string \<times> bool) option" where
  "ancestor_outer source dest 0 = None"
| "ancestor_outer source dest (Suc i) =
     (case ancestor_inner (source ! i) i dest (length dest) of
        Some r \<Rightarrow> Some r
      | None \<Rightarrow> ancestor_outer source dest i)"

definition GetAncestor :: "string list \<Rightarrow> string list \<Rightarrow> (string \<times> bool) outcome" where
  "GetAncestor source dest =
     (case ancestor_outer source dest (length source) of
        Some r \<Rightarrow> OK r
      | None \<Rightarrow> Err (Errorf ''failed to find ancestor namespace'' []))"

definition DoesSNSNamespaceExist ::
  "('w, 'q) env \<Rightarrow> 'w \<Rightarrow> 'q subnamespace object_context \<Rightarrow> bool outcome" where
  "DoesSNSNamespaceExist E w sns =
     obind (New (api_ns E) w (nskey (oc_name sns)) empty_meta) (\<lambda>snsNS.
       OK (IsPresent snsNS \<and> sns_phase (oc_object sns) \<noteq> Migrated))"

text \<open>\<^verbatim>\<open>client.Get\<close> used directly: every error is returned.\<close>

definition Get :: "('w, 'o) kind_api \<Rightarrow> 'w \<Rightarrow> objkey \<Rightarrow> 'o outcome" where
  "Get k w req = (case k_get k req w of Inl e \<Rightarrow> Err e | Inr obj \<Rightarrow> OK obj)"

definition GetRqDepthFromSNS ::
  "('w, 'q) env \<Rightarrow> 'w \<Rightarrow> 'q subnamespace object_context \<Rightarrow> string outcome" where
  "GetRqDepthFromSNS E w sns =
     obind (Get (api_ns E) w (nskey (oc_namespace sns))) (\<lambda>parentNS.
     obind (Get (api_ns E) w (nskey (mstr (meta_annotations parentNS) RootCrqSelectorKey))) (\<lambda>rootNS.
     OK (mstr (meta_annotations rootNS) RqDepthKey)))"

text \<open>
  \<^verbatim>\<open>GetAllChildren\<close>, on a namespace and on a subnamespace (the two cases of its type test).
  The recursion follows the listed children; \<open>n\<close> is the depth of stack left, and running out
  of it is the crash of the process. A failed list gives no children, a failed lookup a nil
  object and hence no descendants below it.
\<close>

fun GetAllChildren_ns ::
  "('w, 'q) env \<Rightarrow> 'w \<Rightarrow> nat \<Rightarrow> namespace object_context option \<Rightarrow> namespace object_context list outcome" where
  "GetAllChildren_ns E w 0 obj = Panic"
| "GetAllChildren_ns E w (Suc n) obj =
     (case obj of
        None \<Rightarrow> OK []
      | Some obj \<Rightarrow>
          (case NewList (api_sns E) w (InNamespace (oc_name obj)) of
             OK items \<Rightarrow>
               obind (omap (\<lambda>it. obind (otry (New (api_ns E) w (nskey (meta_name it)) empty_meta))
                                    (GetAllChildren_ns E w n)) items)
                     (\<lambda>ds. OK (obj # concat ds))
           | _ \<Rightarrow> OK []))"

fun GetAllChildren_sns ::
  "('w, 'q) env \<Rightarrow> 'w \<Rightarrow> nat \<Rightarrow> 'q subnamespace object_context option \<Rightarrow>
   'q subnamespace object_context list outcome" where
  "GetAllChildren_sns E w 0 obj = Panic"
| "GetAllChildren_sns E w (Suc n) obj =
     (case obj of
        None \<Rightarrow> OK []
      | Some obj \<Rightarrow>
          (case NewList (api_sns E) w (InNamespace (oc_name obj)) of
             OK items \<Rightarrow>
               obind (omap (\<lambda>it. obind (otry (New (api_sns E) w
                                             (nnkey (meta_namespace it) (meta_name it)) empty_sns))
                                    (GetAllChildren_sns E w n)) items)
                     (\<lambda>ds. OK (obj # concat ds))
           | _ \<Rightarrow> OK []))"

subsection \<open>The common ancestor\<close>

lemma ancestor_inner_None: "ancestor_inner x i dest n = None \<longleftrightarrow> (\<forall>j < n. dest ! j \<noteq> x)"
  by (induction n) (auto simp: less_Suc_eq)

lemma ancestor_inner_last:
  assumes "j < n" "dest ! j = x" "\<And>k. j < k \<Longrightarrow> k < n \<Longrightarrow> dest ! k \<noteq> x"
  shows "ancestor_inner x i dest n = Some (x, i = 0 \<and> j = 0)"
  using assms
proof (induction n)
  case (Suc n)
  show ?case
  proof (cases "j = n")
    case True
    then show ?thesis using Suc.prems by simp
  next
    case False
    then have "dest ! n \<noteq> x" "j < n" using Suc.prems by simp_all
    moreover have "ancestor_inner x i dest n = Some (x, i = 0 \<and> j = 0)"
      by (rule Suc.IH) (use Suc.prems \<open>j < n\<close> in auto)
    ultimately show ?thesis by auto
  qed
qed simp

lemma ancestor_inner_notin: "ancestor_inner x i dest (length dest) = None \<longleftrightarrow> x \<notin> set dest"
  using all_set_conv_all_nth [of dest "\<lambda>y. y \<noteq> x"] by (auto simp: ancestor_inner_None)

lemma ancestor_outer_None:
  "ancestor_outer source dest n = None \<longleftrightarrow> (\<forall>i < n. source ! i \<notin> set dest)"
proof (induction n)
  case (Suc n)
  then show ?case
    using ancestor_inner_notin [of "source ! n" n dest]
    by (cases "ancestor_inner (source ! n) n dest (length dest)") (auto simp: less_Suc_eq)
qed simp

lemma ancestor_outer_last:
  assumes "i < n" "n \<le> length source" "\<And>k. i < k \<Longrightarrow> k < n \<Longrightarrow> source ! k \<notin> set dest"
    and "ancestor_inner (source ! i) i dest (length dest) = Some r"
  shows "ancestor_outer source dest n = Some r"
  using assms(1-3)
proof (induction n)
  case (Suc n)
  show ?case
  proof (cases "i = n")
    case True
    then show ?thesis using assms(4) by simp
  next
    case False
    then have "source ! n \<notin> set dest" using Suc.prems by simp
    then have "ancestor_inner (source ! n) n dest (length dest) = None"
      by (simp add: ancestor_inner_notin)
    then show ?thesis using Suc False by simp
  qed
qed simp

text \<open>C24: for two paths of one tree, the ancestor found is the last namespace the paths share, and
  the flag says whether it is the first of both, the root.\<close>

theorem GetAncestor_lowest_common:
  assumes "distinct (p @ a # s)" "distinct (p @ a # d)" "set s \<inter> set d = {}"
  shows "GetAncestor (p @ a # s) (p @ a # d) = OK (a, p = [])"
proof -
  let ?source = "p @ a # s" and ?dest = "p @ a # d"
  have s: "?source ! k \<notin> set ?dest" if "length p < k" "k < length ?source" for k
  proof -
    have "?source ! k = s ! (k - Suc (length p))" using that by (simp add: nth_append)
    then have "?source ! k \<in> set s" using that by simp
    then show ?thesis using assms by auto
  qed
  have "?dest ! k \<noteq> a" if "length p < k" "k < length ?dest" for k
    using nth_eq_iff_index_eq [OF assms(2), of k "length p"] that by (simp add: nth_append)
  then have "ancestor_inner a (length p) ?dest (length ?dest) = Some (a, length p = 0 \<and> length p = 0)"
    by (intro ancestor_inner_last) (auto simp: nth_append)
  then have "ancestor_outer ?source ?dest (length ?source) = Some (a, p = [])"
    by (intro ancestor_outer_last [of "length p"]) (use s in \<open>auto simp: nth_append\<close>)
  then show ?thesis by (simp add: GetAncestor_def)
qed

text \<open>The search for an ancestor fails exactly when the two paths share no name.\<close>

lemma GetAncestor_fails_iff:
  "(\<exists>e. GetAncestor source dest = Err e) \<longleftrightarrow> set source \<inter> set dest = {}"
proof -
  have "(\<exists>e. GetAncestor source dest = Err e) \<longleftrightarrow> ancestor_outer source dest (length source) = None"
    by (auto simp: GetAncestor_def split: option.splits)
  also have "\<dots> \<longleftrightarrow> set source \<inter> set dest = {}"
    using all_set_conv_all_nth [of source "\<lambda>x. x \<notin> set dest"] by (auto simp: ancestor_outer_None)
  finally show ?thesis .
qed

subsection \<open>Descendants\<close>

definition child_of :: "('w, 'q) env \<Rightarrow> 'w \<Rightarrow> string \<Rightarrow> string \<Rightarrow> bool" where
  "child_of E w p c \<longleftrightarrow>
     (\<exists>items. NewList (api_sns E) w (InNamespace p) = OK items \<and> c \<in> set (map meta_name items))"

lemma GetAllChildren_ns_not_Err: "GetAllChildren_ns E w n obj \<noteq> Err e"
proof (induction n arbitrary: obj e)
  case (Suc n)
  have "obind (otry m) (GetAllChildren_ns E w n) \<noteq> Err e" for m :: "namespace object_context outcome" and e
    using Suc.IH by (cases m) simp_all
  then have "omap (\<lambda>it. obind (otry (New (api_ns E) w (nskey (meta_name it)) empty_meta)) (GetAllChildren_ns E w n)) items \<noteq> Err e"
    for items :: "'b subnamespace list" and e
    by (intro omap_not_Err)
  then show ?case by (simp add: obind_Err_iff split: option.splits outcome.splits)
qed simp

text \<open>C25: on a tree whose subnamespaces all have their namespace, \<^verbatim>\<open>GetAllChildren\<close> returns, for
  any stack deeper than the tree, the namespace and exactly its descendants.\<close>

theorem GetAllChildren_descendants:
  fixes E :: "('w, 'q) env"
  assumes lists: "\<And>p. \<exists>items. NewList (api_sns E) w (InNamespace p) = OK items"
    and found: "\<And>p c. child_of E w p c \<Longrightarrow> \<exists>r. New (api_ns E) w (nskey c) empty_meta = OK r \<and> oc_name r = c"
    and height: "\<And>p c. child_of E w p c \<Longrightarrow> h c < h p"
    and "h (oc_name obj) < n"
  shows "\<exists>rs. GetAllChildren_ns E w n (Some obj) = OK rs \<and>
           set (map oc_name rs) = {c. (child_of E w)\<^sup>*\<^sup>* (oc_name obj) c}"
  using assms(4)
proof (induction n arbitrary: obj)
  case (Suc n)
  obtain items where items: "NewList (api_sns E) w (InNamespace (oc_name obj)) = OK items"
    using lists by blast
  let ?f = "\<lambda>it :: 'q subnamespace. obind (otry (New (api_ns E) w (nskey (meta_name it)) empty_meta)) (GetAllChildren_ns E w n)"
  have "\<exists>rs. ?f it = OK rs \<and> set (map oc_name rs) = {c. (child_of E w)\<^sup>*\<^sup>* (meta_name it) c}" if it: "it \<in> set items" for it
  proof -
    have child: "child_of E w (oc_name obj) (meta_name it)"
      using items it by (auto simp: child_of_def)
    then obtain r where r: "New (api_ns E) w (nskey (meta_name it)) empty_meta = OK r" "oc_name r = meta_name it"
      using found by blast
    have "h (oc_name r) < n" using height [OF child] Suc.prems r(2) by simp
    then show ?thesis using Suc.IH [of r] r by auto
  qed
  then obtain ds where ds: "omap ?f items = OK ds"
    "list_all2 (\<lambda>it rs. set (map oc_name rs) = {c. (child_of E w)\<^sup>*\<^sup>* (meta_name it) c}) items ds"
    using omap_images [of items ?f "\<lambda>it rs. set (map oc_name rs) = {c. (child_of E w)\<^sup>*\<^sup>* (meta_name it) c}"] by blast
  have "set (map oc_name (concat ds)) = (\<Union>it \<in> set items. {c. (child_of E w)\<^sup>*\<^sup>* (meta_name it) c})"
    using ds(2) by (induction rule: list_all2_induct) auto
  also have "\<dots> = {c. \<exists>b. child_of E w (oc_name obj) b \<and> (child_of E w)\<^sup>*\<^sup>* b c}"
    using items by (auto simp: child_of_def)
  finally have "set (map oc_name (obj # concat ds)) = {c. (child_of E w)\<^sup>*\<^sup>* (oc_name obj) c}"
    by (auto intro: converse_rtranclp_into_rtranclp elim: converse_rtranclpE)
  then show ?case using items ds(1) by auto
qed simp

text \<open>C40: a subnamespace whose namespace does not exist makes the recursion list every subnamespace
  of the cluster again, so that no stack is deep enough.\<close>

theorem GetAllChildren_absent_namespace:
  fixes E :: "('w, 'q) env"
  assumes "NewList (api_sns E) w (InNamespace '''') = OK items" "it \<in> set items"
    and "New (api_ns E) w (nskey (meta_name it)) empty_meta = OK absent" "oc_name absent = ''''"
    and "oc_name obj = ''''"
  shows "GetAllChildren_ns E w n (Some obj) = Panic"
  using assms(5)
proof (induction n arbitrary: obj)
  case (Suc n)
  let ?f = "\<lambda>it :: 'q subnamespace. obind (otry (New (api_ns E) w (nskey (meta_name it)) empty_meta)) (GetAllChildren_ns E w n)"
  have "?f it = Panic" using Suc.IH [OF assms(4)] assms(3) by simp
  moreover have "?f y \<noteq> Err e" for y e
    by (cases "New (api_ns E) w (nskey (meta_name y)) empty_meta") (simp_all add: GetAllChildren_ns_not_Err)
  ultimately have "omap ?f items = Panic" by (intro omap_Panic [OF assms(2)])
  then show ?case using assms(1) Suc.prems by simp
qed simp

subsection \<open>Instances\<close>

theorem GetAncestor_lowest_common_witness:
  "GetAncestor [''root'', ''a'', ''b'', ''c''] [''root'', ''a'', ''d''] = OK (''a'', False)"
  using GetAncestor_lowest_common [of "[''root'']" "''a''" "[''b'', ''c'']" "[''d'']"] by simp

lemma sample_lists:
  "NewList (api_sns mem_env) sample (InNamespace p) =
     OK (filter (mem_match (InNamespace p)) (mem_sns sample))"
  by (simp add: NewList_def mem_env_def mem_api_simps)

lemma sample_pairs:
  "set (map (\<lambda>s. (meta_namespace s, meta_name s)) (mem_sns sample)) =
     {(''root'', ''a''), (''a'', ''b''), (''b'', ''c''), (''a'', ''d'')}"
  by code_simp

lemma sample_children:
  "child_of mem_env sample p c \<longleftrightarrow>
     (\<exists>ns. (ns, c) \<in> {(''root'', ''a''), (''a'', ''b''), (''b'', ''c''), (''a'', ''d'')} \<and> (p = '''' \<or> ns = p))"
  unfolding sample_pairs [symmetric] child_of_def by (force simp: sample_lists)

theorem GetAllChildren_descendants_witness:
  "\<exists>rs. GetAllChildren_ns mem_env sample 4 (Some (ctx (mk_ns ''b'' ''a'' ''root/a/b'' ''2''))) = OK rs \<and>
     set (map oc_name rs) = {c. (child_of mem_env sample)\<^sup>*\<^sup>* ''b'' c}"
proof -
  let ?h = "\<lambda>n :: string. if n = '''' then 4 else if n = ''root'' then 3 else if n = ''a'' then 2 else if n = ''b'' then 1 else 0 :: nat"
  have "\<exists>r. New (api_ns mem_env) sample (nskey c) empty_meta = OK r \<and> oc_name r = c" if "child_of mem_env sample p c" for p c
  proof -
    have "c \<in> {''a'', ''b'', ''c'', ''d''}" using that by (auto simp: sample_children)
    moreover have "list_all (\<lambda>c. case New (api_ns mem_env) sample (nskey c) empty_meta of OK r \<Rightarrow> oc_name r = c | _ \<Rightarrow> False)
        [''a'', ''b'', ''c'', ''d'']" by code_simp
    ultimately show ?thesis by (auto split: outcome.splits)
  qed
  moreover have "oc_name (ctx (mk_ns ''b'' ''a'' ''root/a/b'' ''2'')) = ''b''" by code_simp
  moreover have "?h c < ?h p" if "child_of mem_env sample p c" for p c
    using that by (auto simp: sample_children)
  ultimately show ?thesis
    using GetAllChildren_descendants [of mem_env sample ?h "ctx (mk_ns ''b'' ''a'' ''root/a/b'' ''2'')" 4]
      sample_lists by auto
qed

theorem GetAllChildren_absent_namespace_witness:
  "GetAllChildren_ns mem_env (sample\<lparr>mem_ns := []\<rparr>) 1000 (Some (ctx empty_meta)) = Panic"
  by (rule GetAllChildren_absent_namespace
      [where items = "mem_sns sample" and it = "mk_sns ''root'' ''a'' Created [(''cpu'', 10)]"
         and absent = "\<lparr>oc_object = empty_meta, oc_present = False\<rparr>"])
     (code_simp)+

end
