(* ===== verification/ResourcePool.thy ===== *)
theory ResourcePool
  imports SnsUtils
begin

section \<open>resourcepool: which subnamespaces share a quota\<close>

text \<open>\<^verbatim>\<open>internal/subnamespace/resourcepool\<close>. A ResourcePool is marked by a label; the topmost one
  of a branch (the upper ResourcePool) holds the quota of the whole pool.\<close>

definition SNSLabel :: "'a object_meta_scheme \<Rightarrow> string" where
  "SNSLabel sns = (case mget (meta_labels sns) ResourcePoolKey of None \<Rightarrow> '''' | Some val \<Rightarrow> val)"

definition IsSNSResourcePool :: "'a object_meta_scheme \<Rightarrow> bool outcome" where
  "IsSNSResourcePool sns =
     (if SNSLabel sns = '''' then OK False else ParseBool (SNSLabel sns))"

definition IsNSResourcePool :: "('w, 'q) env \<Rightarrow> 'w \<Rightarrow> namespace object_context \<Rightarrow> bool outcome" where
  "IsNSResourcePool E w ns =
     (case SNSFromNamespace E w ns of
        Panic \<Rightarrow> Panic
      | Err err \<Rightarrow> OK False
      | OK None \<Rightarrow> OK False
      | OK (Some sns) \<Rightarrow> IsSNSResourcePool (oc_object sns))"

definition SNSIsUpperAnnotation :: "'a object_meta_scheme \<Rightarrow> string" where
  "SNSIsUpperAnnotation sns =
     (case mget (meta_annotations sns) IsUpperRpKey of None \<Rightarrow> '''' | Some val \<Rightarrow> val)"

definition IsSNSUpperFromAnnotation :: "'a object_meta_scheme \<Rightarrow> bool outcome" where
  "IsSNSUpperFromAnnotation sns =
     (if SNSIsUpperAnnotation sns = '''' then OK False else ParseBool (SNSIsUpperAnnotation sns))"

definition IsChildUpper :: "'a object_meta_scheme \<Rightarrow> 'b object_meta_scheme \<Rightarrow> bool outcome" where
  "IsChildUpper parentSNS childSNS =
     obind (IsSNSResourcePool parentSNS) (\<lambda>isParentSNSResourcePool.
     obind (IsSNSResourcePool childSNS) (\<lambda>isChildSNSResourcePool.
     obind (IsSNSUpperFromAnnotation childSNS) (\<lambda>isChildSNSUpperResourcePool.
     OK (\<not> isParentSNSResourcePool \<and> isChildSNSResourcePool \<and> \<not> isChildSNSUpperResourcePool))))"

definition IsSNSUpper ::
  "('w, 'q) env \<Rightarrow> 'w \<Rightarrow> 'q subnamespace object_context \<Rightarrow> bool outcome" where
  "IsSNSUpper E w sns =
     (let parentName = oc_namespace sns in
     obind (New (api_ns E) w (nskey parentName) empty_meta) (\<lambda>parentNS.
     obind (New (api_sns E) w (nnkey (Parent (oc_object parentNS)) parentName) empty_sns) (\<lambda>parentSNS.
     obind (IsSNSResourcePool (oc_object sns)) (\<lambda>isSNSResourcePool.
     obind (IsSNSResourcePool (oc_object parentSNS)) (\<lambda>isParentResourcePool.
     OK (isSNSResourcePool \<and> (IsRoot (oc_object parentNS) \<or> \<not> isParentResourcePool)))))))"

definition IsNSUpperResourcePool ::
  "('w, 'q) env \<Rightarrow> 'w \<Rightarrow> namespace object_context \<Rightarrow> bool outcome" where
  "IsNSUpperResourcePool E w ns =
     obind (New (api_sns E) w (nnkey (Parent (oc_object ns)) (oc_name ns)) empty_sns) (IsSNSUpper E w)"

text \<open>\<^verbatim>\<open>object.SetLabels(map[string]string{...})\<close> replaces the whole label map.\<close>

definition set_pool_label :: "bool \<Rightarrow> 'q subnamespace \<Rightarrow> 'q subnamespace outcome" where
  "set_pool_label b obj = OK (obj\<lparr>meta_labels := Some [(ResourcePoolKey, FormatBool b)]\<rparr>)"

definition SetSNSResourcePoolLabel ::
  "('w, 'q) env \<Rightarrow> namespace object_context \<Rightarrow> 'q subnamespace object_context \<Rightarrow>
   (('w, 'q) hns, 'q subnamespace object_context) prog" where
  "SetSNSResourcePoolLabel E snsParentNS snsObject =
     bind (reads (\<lambda>s. IsNSResourcePool E (world s) snsParentNS)) (\<lambda>isResourcePool.
       UpdateObjectE (api_sns E) (set_pool_label isResourcePool) snsObject)"

end
