(* ===== verification/Common.thy ===== *)
theory Common
  imports ResourcePool
begin

section \<open>common: helpers, configuration and shared validators\<close>

text \<open>\<^verbatim>\<open>internal/common\<close>: searching string slices, the \<^verbatim>\<open>HNSConfig\<close> object, and the
  validators that the UpdateQuota and MigrationHierarchy webhooks share. An admission response
  keeps the format and the arguments of its message.\<close>

datatype response =
    Allowed string
  | Denied string "string list"
  | Errored nat go_error

fun is_allowed :: "response \<Rightarrow> bool" where
  "is_allowed (Allowed _) = True"
| "is_allowed _ = False"

definition BadRequest :: nat where "BadRequest = 400"
definition InternalServerError :: nat where "InternalServerError = 500"

text \<open>\<^verbatim>\<open>if response := f(); !response.Allowed { return response }\<close> and
  \<^verbatim>\<open>if err != nil { return admission.Errored(code, err) }\<close>\<close>

definition guard :: "response outcome \<Rightarrow> response outcome \<Rightarrow> response outcome" where
  "guard m rest = obind m (\<lambda>r. if is_allowed r then rest else OK r)"

definition or_errored :: "nat \<Rightarrow> 'a outcome \<Rightarrow> ('a \<Rightarrow> response outcome) \<Rightarrow> response outcome" where
  "or_errored code m f = (case m of OK a \<Rightarrow> f a | Err e \<Rightarrow> OK (Errored code e) | Panic \<Rightarrow> Panic)"

definition or_denied :: "'a outcome \<Rightarrow> ('a \<Rightarrow> response outcome) \<Rightarrow> response outcome" where
  "or_denied m f = (case m of OK a \<Rightarrow> f a | Err e \<Rightarrow> OK (Denied (error_text e) []) | Panic \<Rightarrow> Panic)"

definition allows :: "response outcome \<Rightarrow> bool" where
  "allows r \<longleftrightarrow> (\<exists>m. r = OK (Allowed m))"

lemma is_allowed_iff: "is_allowed r \<longleftrightarrow> (\<exists>m. r = Allowed m)"
  by (cases r) auto

lemma allows_simps [simp]:
  "allows (OK (Allowed m))" "\<not> allows (OK (Denied f as))" "\<not> allows (OK (Errored c e))"
  "\<not> allows (Err e)" "\<not> allows Panic"
  by (auto simp: allows_def)

lemma allows_guard [simp]: "allows (guard m rest) \<longleftrightarrow> allows m \<and> allows rest"
  by (cases m) (auto simp: guard_def allows_def is_allowed_iff)

lemma allows_or_errored [simp]: "allows (or_errored c m f) \<longleftrightarrow> (\<exists>a. m = OK a \<and> allows (f a))"
  by (cases m) (auto simp: or_errored_def)

lemma allows_or_denied [simp]: "allows (or_denied m f) \<longleftrightarrow> (\<exists>a. m = OK a \<and> allows (f a))"
  by (cases m) (auto simp: or_denied_def)

lemma allows_if: "allows (if c then OK (Denied f as) else r) \<longleftrightarrow> \<not> c \<and> allows r"
  by simp

lemma allows_obind: "allows (obind m f) \<longleftrightarrow> (\<exists>a. m = OK a \<and> allows (f a))"
  by (cases m) auto

text \<open>A loop that answers at the first element it objects to.\<close>

lemma allows_find:
  "allows (case find P xs of Some x \<Rightarrow> OK (Denied f (as x)) | None \<Rightarrow> rest) \<longleftrightarrow> (\<forall>x \<in> set xs. \<not> P x) \<and> allows rest"
  by (induction xs) auto

lemma allows_find_pair:
  "allows (case find P xs of Some (x, y) \<Rightarrow> OK (Denied f (as x y)) | None \<Rightarrow> rest) \<longleftrightarrow>
     (\<forall>x \<in> set xs. \<not> P x) \<and> allows rest"
  by (induction xs) auto

subsection \<open>common.go\<close>

definition DeletionTimeStampExists :: "'a object_meta_scheme \<Rightarrow> bool" where
  "DeletionTimeStampExists obj = meta_deleting obj"

fun index_from :: "nat \<Rightarrow> string \<Rightarrow> string list \<Rightarrow> nat option" where
  "index_from i element [] = None"
| "index_from i element (value # rest) =
     (if element = value then Some i else index_from (Suc i) element rest)"

definition IndexOf :: "string \<Rightarrow> string list \<Rightarrow> nat outcome" where
  "IndexOf element a =
     (case index_from 0 element a of
        Some i \<Rightarrow> OK i
      | None \<Rightarrow> Err (Errorf ''failed to find element %q in slice'' [element]))"

fun ContainsString :: "string list \<Rightarrow> string \<Rightarrow> bool" where
  "ContainsString [] s = False"
| "ContainsString (a # slice) s = (a = s \<or> ContainsString slice s)"

definition ShouldReconcile :: "phase \<Rightarrow> bool" where
  "ShouldReconcile phase \<longleftrightarrow> phase \<noteq> Complete \<and> phase \<noteq> ErrorPhase"

lemma ContainsString_iff [simp]: "ContainsString a s \<longleftrightarrow> s \<in> set a"
  by (induction a) auto

lemma index_from_Some:
  "index_from i x a = Some j \<longleftrightarrow>
     (\<exists>n. j = i + n \<and> n < length a \<and> a ! n = x \<and> (\<forall>m < n. a ! m \<noteq> x))"
proof (induction a arbitrary: i)
  case (Cons y a)
  show ?case
  proof (cases "x = y")
    case True
    then show ?thesis by (auto intro!: exI [of _ 0]) (metis gr0I nth_Cons_0)
  next
    case False
    then have "index_from i x (y # a) = Some j \<longleftrightarrow>
        (\<exists>n. j = Suc i + n \<and> n < length a \<and> a ! n = x \<and> (\<forall>m < n. a ! m \<noteq> x))"
      using Cons by simp
    also have "\<dots> \<longleftrightarrow> (\<exists>n. j = i + n \<and> n < length (y # a) \<and> (y # a) ! n = x \<and> (\<forall>m < n. (y # a) ! m \<noteq> x))"
      (is "?L \<longleftrightarrow> ?R")
    proof
      assume ?L
      then obtain n where n: "j = Suc i + n" "n < length a" "a ! n = x" "\<forall>m < n. a ! m \<noteq> x" by blast
      have "\<forall>m < Suc n. (y # a) ! m \<noteq> x"
        using n(4) False by (auto simp: less_Suc_eq_0_disj)
      with n show ?R by (intro exI [of _ "Suc n"]) simp
    next
      assume ?R
      then obtain n where n: "j = i + n" "n < length (y # a)" "(y # a) ! n = x" "\<forall>m < n. (y # a) ! m \<noteq> x"
        by blast
      with False obtain n' where "n = Suc n'" by (cases n) auto
      with n show ?L by (intro exI [of _ n']) auto
    qed
    finally show ?thesis .
  qed
qed simp

lemma index_from_None: "index_from i x a = None \<longleftrightarrow> x \<notin> set a"
  by (induction a arbitrary: i) auto

lemma IndexOf_OK_iff:
  "IndexOf x a = OK i \<longleftrightarrow> i < length a \<and> a ! i = x \<and> (\<forall>m < i. a ! m \<noteq> x)"
proof -
  have "IndexOf x a = OK i \<longleftrightarrow> index_from 0 x a = Some i"
    by (auto simp: IndexOf_def split: option.splits)
  also have "\<dots> \<longleftrightarrow> i < length a \<and> a ! i = x \<and> (\<forall>m < i. a ! m \<noteq> x)"
    by (simp add: index_from_Some)
  finally show ?thesis .
qed

lemma IndexOf_Err: "x \<notin> set a \<Longrightarrow> IndexOf x a = Err (Errorf ''failed to find element %q in slice'' [x])"
  using index_from_None [of 0 x a] by (simp add: IndexOf_def)

lemma IndexOf_total: "x \<in> set a \<Longrightarrow> \<exists>i. IndexOf x a = OK i"
  using index_from_None [of 0 x a] by (auto simp: IndexOf_def split: option.splits)

lemma IndexOf_nth: "distinct a \<Longrightarrow> i < length a \<Longrightarrow> IndexOf (a ! i) a = OK i"
  by (auto simp: IndexOf_OK_iff nth_eq_iff_index_eq)

subsection \<open>hnsconfig.go\<close>

definition hnsConfigKey :: objkey where
  "hnsConfigKey = nnkey HNSNamespace ''hns-config''"

definition GetHNSConfigData :: "('w, 'q) env \<Rightarrow> 'w \<Rightarrow> hns_config outcome" where
  "GetHNSConfigData E w = Get (api_hc E) w hnsConfigKey"

definition GetObservedResources :: "('w, 'q) env \<Rightarrow> 'w \<Rightarrow> 'q resource_list outcome" where
  "GetObservedResources E w =
     (case Get (api_hc E) w hnsConfigKey of
        OK resourcesConfig \<Rightarrow>
          OK (Some (put_all (map (\<lambda>r. (r, q_newDecimalSI (qty E) 0)) (hc_observedResources resourcesConfig)) []))
      | Err err \<Rightarrow> Err (Errorf ''failed to get HNSconfig %q: %v'' ['''', error_text err])
      | Panic \<Rightarrow> Panic)"

subsection \<open>validators.go\<close>

definition ValidateNamespaceExist :: "namespace object_context \<Rightarrow> response outcome" where
  "ValidateNamespaceExist ns =
     (if \<not> IsPresent ns then OK (Denied ''namespace %q does not exist'' [oc_name ns])
      else OK (Allowed ''''))"

definition ValidateToNamespaceName :: "namespace object_context \<Rightarrow> string \<Rightarrow> response outcome" where
  "ValidateToNamespaceName ns toNSName =
     (if toNSName = Parent (oc_object ns)
      then OK (Denied ''%q is already under %q'' [oc_name ns, toNSName])
      else OK (Allowed ''''))"

text \<open>\<^verbatim>\<open>aNSArray[1]\<close> panics on a slice of one element.\<close>

definition index1 :: "string list \<Rightarrow> string outcome" where
  "index1 a = (if 1 < length a then OK (a ! 1) else Panic)"

definition ValidateSecondaryRoot ::
  "('w, 'q) env \<Rightarrow> 'w \<Rightarrow> string list \<Rightarrow> string list \<Rightarrow> response outcome" where
  "ValidateSecondaryRoot E w aNSArray bNSArray =
     obind (index1 aNSArray) (\<lambda>aName.
     obind (index1 bNSArray) (\<lambda>bName.
     if aName = '''' \<or> bName = ''''
     then OK (Denied ''it is forbidden to do operations on subnamespaces without a set display-name'' [])
     else
     or_errored BadRequest (New (api_ns E) w (nskey aName) empty_meta) (\<lambda>aRoot.
     or_errored BadRequest (New (api_ns E) w (nskey bName) empty_meta) (\<lambda>bRoot.
     if (IsSecondaryRoot (oc_object aRoot) \<or> IsSecondaryRoot (oc_object bRoot)) \<and> aName \<noteq> bName
     then OK (Denied ''it is forbidden to perform operations between subnamespaces from hierarchy %q and subnamespaces from hierarchy %q'' [aName, bName])
     else OK (Allowed '''')))))"

definition service_account :: string where
  "service_account = ''system:serviceaccount:'' @ HNSNamespace @ '':'' @ HNSServiceAccount"

definition permissionsExist :: "('w, 'q) env \<Rightarrow> 'w \<Rightarrow> string \<Rightarrow> string \<Rightarrow> bool outcome" where
  "permissionsExist E w reqUser ns =
     (if reqUser = service_account then OK True
      else (case access_review E reqUser ns ''create'' ''pods'' w of
              Inl err \<Rightarrow> Err err
            | Inr (denied, allowed) \<Rightarrow> OK (if denied then False else allowed)))"

definition IsUserInGroup :: "string \<Rightarrow> user_group \<Rightarrow> bool" where
  "IsUserInGroup user grp \<longleftrightarrow> user \<in> set (ug_users grp)"

definition CheckGroup :: "('w, 'q) env \<Rightarrow> 'w \<Rightarrow> string \<Rightarrow> string \<Rightarrow> bool outcome" where
  "CheckGroup E w user groupName =
     obind (Get (api_ug E) w (nskey groupName)) (\<lambda>grp. OK (IsUserInGroup user grp))"

text \<open>The loop of \<^verbatim>\<open>ValidatePermittedGroups\<close>: a missing group is skipped, any other error ends
  the search with no membership.\<close>

fun user_in_groups :: "('w, 'q) env \<Rightarrow> 'w \<Rightarrow> string \<Rightarrow> string list \<Rightarrow> bool outcome" where
  "user_in_groups E w user [] = OK False"
| "user_in_groups E w user (g # gs) =
     (case CheckGroup E w user g of
        Panic \<Rightarrow> Panic
      | Err err \<Rightarrow> (if IsNotFound err then user_in_groups E w user gs else OK False)
      | OK inGroup \<Rightarrow> (if inGroup then OK True else user_in_groups E w user gs))"

definition ValidatePermittedGroups :: "('w, 'q) env \<Rightarrow> 'w \<Rightarrow> string \<Rightarrow> bool outcome" where
  "ValidatePermittedGroups E w user =
     obind (GetHNSConfigData E w) (\<lambda>cfg.
       case hc_permittedGroups cfg of
         None \<Rightarrow> OK False
       | Some groups \<Rightarrow> user_in_groups E w user groups)"

definition ValidatePermissions ::
  "('w, 'q) env \<Rightarrow> 'w \<Rightarrow> string list \<Rightarrow> string \<Rightarrow> string \<Rightarrow> string \<Rightarrow> string \<Rightarrow> bool \<Rightarrow> response outcome" where
  "ValidatePermissions E w aNS aNSName bNSName ancestorNSName reqUser branch =
     or_errored InternalServerError (ValidatePermittedGroups E w reqUser) (\<lambda>inGroup.
     if inGroup then OK (Allowed '''')
     else
     or_errored InternalServerError (permissionsExist E w reqUser aNSName) (\<lambda>hasSource.
     or_errored InternalServerError (permissionsExist E w reqUser bNSName) (\<lambda>hasDest.
     or_errored InternalServerError (permissionsExist E w reqUser ancestorNSName) (\<lambda>hasAncestor.
     let inBranch = ContainsString aNS bNSName in
     if branch then
       (if \<not> hasAncestor \<and> \<not> (hasSource \<and> hasDest) \<and> \<not> (hasSource \<and> inBranch)
        then OK (Denied ''you must have permissions on: %q and %q, or permissions on %q, to perform this operation. Having permissions only on %q, is enough just when resources are moved in the same branch of the hierarchy'' [aNSName, bNSName, ancestorNSName, aNSName])
        else OK (Allowed ''''))
     else
       (if \<not> hasAncestor \<and> \<not> (hasSource \<and> hasDest)
        then OK (Denied ''you must have permissions on: %q and %q, or permissions on %q, to perform this operation'' [aNSName, bNSName, ancestorNSName])
        else OK (Allowed ''''))))))"

subsection \<open>Who may move what\<close>

definition member_of :: "('w, 'q) env \<Rightarrow> 'w \<Rightarrow> string \<Rightarrow> string \<Rightarrow> bool" where
  "member_of E w user g \<longleftrightarrow> (\<exists>grp. Get (api_ug E) w (nskey g) = OK grp \<and> user \<in> set (ug_users grp))"

lemma user_in_groups_iff:
  assumes "\<And>g e. g \<in> set gs \<Longrightarrow> Get (api_ug E) w (nskey g) = Err e \<Longrightarrow> IsNotFound e"
  shows "user_in_groups E w user gs = OK (\<exists>g \<in> set gs. member_of E w user g)"
  using assms
proof (induction gs)
  case (Cons g gs)
  have IH: "user_in_groups E w user gs = OK (\<exists>g \<in> set gs. member_of E w user g)"
    by (rule Cons.IH) (meson Cons.prems list.set_intros(2))
  show ?case
  proof (cases "Get (api_ug E) w (nskey g)")
    case (OK grp)
    then show ?thesis using IH by (auto simp: CheckGroup_def IsUserInGroup_def member_of_def)
  next
    case (Err e)
    then show ?thesis using IH Cons.prems [of g e] by (simp add: CheckGroup_def member_of_def)
  next
    case Panic
    then show ?thesis by (simp add: Get_def split: sum.splits)
  qed
qed simp

text \<open>C29: an operation between two namespaces is permitted exactly to a member of a permitted group, to a user
  with permissions on the common ancestor, to one with permissions on both ends, and, where moving inside a
  branch is enough, to one with permissions on the source when the destination is on its path.\<close>

theorem ValidatePermissions_iff:
  assumes "GetHNSConfigData E w = OK cfg" "hc_permittedGroups cfg = Some groups"
    and "\<And>g e. g \<in> set groups \<Longrightarrow> Get (api_ug E) w (nskey g) = Err e \<Longrightarrow> IsNotFound e"
    and "\<And>ns. permissionsExist E w user ns = OK (may ns)"
  shows "allows (ValidatePermissions E w path source dest ancestor user branch) \<longleftrightarrow>
    (\<exists>g \<in> set groups. member_of E w user g) \<or> may ancestor \<or> may source \<and> may dest \<or>
    branch \<and> may source \<and> dest \<in> set path"
proof -
  have "ValidatePermittedGroups E w user = OK (\<exists>g \<in> set groups. member_of E w user g)"
    using user_in_groups_iff [of groups E w user] assms(1-3) by (simp add: ValidatePermittedGroups_def)
  then show ?thesis
    unfolding ValidatePermissions_def allows_or_errored assms(4) Let_def
    by (cases "\<exists>g \<in> set groups. member_of E w user g"; cases branch) (auto simp: or_errored_def)
qed

definition sample_groups :: mem where
  "sample_groups = empty_mem\<lparr>mem_hc := [mk_config\<lparr>hc_permittedGroups := Some [''ops'']\<rparr>],
     mem_ug := [object_meta.extend (empty_meta\<lparr>meta_name := ''ops''\<rparr>) \<lparr>ug_users = [''eve'']\<rparr>]\<rparr>"

definition strict_env :: "(mem, int \<times> string) env" where
  "strict_env = mem_env\<lparr>access_review := \<lambda>user ns verb resource w. Inr (False, user = ''ann'' \<and> ns = ''b'')\<rparr>"

theorem ValidatePermissions_iff_witness:
  "allows (ValidatePermissions strict_env sample_groups [''root'', ''a'', ''b''] ''b'' ''a'' ''a'' ''ann'' True) \<and>
   \<not> allows (ValidatePermissions strict_env sample_groups [''root'', ''a'', ''b''] ''b'' ''d'' ''a'' ''ann'' True)"
proof -
  have cfg: "GetHNSConfigData strict_env sample_groups = OK (mk_config\<lparr>hc_permittedGroups := Some [''ops'']\<rparr>)"
    "hc_permittedGroups (mk_config\<lparr>hc_permittedGroups := Some [''ops'']\<rparr>) = Some [''ops'']"
    by code_simp+
  have ops: "Get (api_ug strict_env) sample_groups (nskey ''ops'') =
      OK (object_meta.extend (empty_meta\<lparr>meta_name := ''ops''\<rparr>) \<lparr>ug_users = [''eve'']\<rparr>)" by code_simp
  have may: "permissionsExist strict_env sample_groups ''ann'' ns = OK (ns = ''b'')" for ns
    by (simp add: permissionsExist_def strict_env_def service_account_def)
  have "\<not> member_of strict_env sample_groups ''ann'' ''ops''" by (simp add: member_of_def ops object_meta.extend_def)
  then show ?thesis
    using ValidatePermissions_iff [OF cfg, where user = "''ann''" and may = "\<lambda>ns. ns = ''b''"]
    by (simp add: ops may)
qed

end
