(* ===== verification/Quota.thy ===== *)
theory Quota
  imports Common
begin

section \<open>quota: quota objects and resource lists\<close>

text \<open>
  \<^verbatim>\<open>internal/quota\<close>. A subnamespace above the configured depth is bound to a
  \<^verbatim>\<open>ResourceQuota\<close>, below it to a \<^verbatim>\<open>ClusterResourceQuota\<close>; a context on either is a
  \<open>quota_context\<close>.
\<close>

datatype 'q quota_context =
    RQ "'q resource_quota object_context"
  | CRQ "'q cluster_resource_quota object_context"

fun quota_present :: "'q quota_context \<Rightarrow> bool" where
  "quota_present (RQ r) = IsPresent r"
| "quota_present (CRQ r) = IsPresent r"

subsection \<open>quota.go\<close>

fun GetQuotaObjectSpec :: "'q quota_context \<Rightarrow> 'q resource_list" where
  "GetQuotaObjectSpec (RQ r) = rq_hard (oc_object r)"
| "GetQuotaObjectSpec (CRQ r) = crq_hard (oc_object r)"

fun GetQuotaUsed :: "'q quota_context \<Rightarrow> 'q resource_list" where
  "GetQuotaUsed (RQ r) = rq_used (oc_object r)"
| "GetQuotaUsed (CRQ r) = crq_used (oc_object r)"

definition IsZeroed :: "('w, 'q) env \<Rightarrow> 'q quota_context \<Rightarrow> bool" where
  "IsZeroed E obj = list_all (\<lambda>(r, quantity). q_value (qty E) quantity = 0) (mentries (GetQuotaObjectSpec obj))"

definition DefaultQuotaHard :: "('w, 'q) env \<Rightarrow> (string \<times> 'q) list" where
  "DefaultQuotaHard E = map (\<lambda>r. (r, q_newDecimalSI (qty E) 100))
     [''configmaps'', ''count/builds.build.openshift.io'', ''count/cronjobs.batch'',
      ''count/daemonsets.apps'', ''count/deployments.apps'', ''count/jobs.batch'',
      ''count/replicasets.apps'', ''count/routes.route.openshift.io'', ''secrets'',
      ''count/deploymentconfigs.apps.openshift.io'', ''count/buildconfigs.build.openshift.io'',
      ''count/serviceaccounts'', ''count/statefulsets.apps'',
      ''count/templates.template.openshift.io'', ''openshift.io/imagestreams'']"

definition IsDefault :: "('w, 'q) env \<Rightarrow> 'q quota_context \<Rightarrow> bool" where
  "IsDefault E obj =
     list_all (\<lambda>(r, quantity). map_of (DefaultQuotaHard E) r \<noteq> None) (mentries (GetQuotaObjectSpec obj))"

definition GetCrqPointer :: "'a object_meta_scheme \<Rightarrow> string" where
  "GetCrqPointer subns =
     (if mstr (meta_annotations subns) IsRqKey = TrueStr then meta_name subns
      else if mstr (meta_labels subns) ResourcePoolKey = ''false'' \<or>
              mstr (meta_annotations subns) IsUpperRpKey = TrueStr then meta_name subns
      else mstr (meta_annotations subns) UpperRpKey)"

subsection \<open>resources.go\<close>

definition ResourceListEqual :: "('w, 'q) env \<Rightarrow> 'q resource_list \<Rightarrow> 'q resource_list \<Rightarrow> bool" where
  "ResourceListEqual E a b =
     (if length (mentries a) \<noteq> length (mentries b) then False
      else list_all (\<lambda>(k, v1). case mget b k of
                        None \<Rightarrow> False | Some v2 \<Rightarrow> q_cmp (qty E) v1 v2 = 0) (mentries a))"

text \<open>\<^verbatim>\<open>addResourcesToList\<close> looks the name up by a loop over the list.\<close>

fun add_to_entry :: "('w, 'q) env \<Rightarrow> (string \<times> 'q) list \<Rightarrow> 'q \<Rightarrow> string \<Rightarrow> (string \<times> 'q) list option" where
  "add_to_entry E [] quantity nm = None"
| "add_to_entry E ((r, v) # rest) quantity nm =
     (if nm = r then Some ((r, q_add (qty E) v quantity) # rest)
      else map_option (Cons (r, v)) (add_to_entry E rest quantity nm))"

definition addResourcesToList :: "('w, 'q) env \<Rightarrow> (string \<times> 'q) list \<Rightarrow> 'q \<Rightarrow> string \<Rightarrow> (string \<times> 'q) list" where
  "addResourcesToList E lst quantity nm =
     (case add_to_entry E lst quantity nm of
        Some lst' \<Rightarrow> lst' | None \<Rightarrow> AList.update nm quantity lst)"

definition filterResources :: "('w, 'q) env \<Rightarrow> 'q resource_list \<Rightarrow> string list \<Rightarrow> (string \<times> 'q) list" where
  "filterResources E resourcesList resources =
     fold (\<lambda>(r, quantity) filtered.
             if r \<in> set resources then addResourcesToList E filtered quantity r else filtered)
          (mentries resourcesList) []"

definition ResourceQuotaSpecEqual ::
  "('w, 'q) env \<Rightarrow> 'q resource_list \<Rightarrow> 'q resource_list \<Rightarrow> 'q resource_list \<Rightarrow> bool" where
  "ResourceQuotaSpecEqual E a b observed =
     (let resources = map fst (mentries observed)
      in ResourceListEqual E (Some (filterResources E a resources)) (Some (filterResources E b resources)))"

definition addQuantityToResourceList ::
  "('w, 'q) env \<Rightarrow> string \<Rightarrow> 'q \<Rightarrow> (string \<times> 'q) list \<Rightarrow> (string \<times> 'q) list" where
  "addQuantityToResourceList E r quantity lst =
     (case map_of lst r of
        Some current \<Rightarrow> AList.update r (q_add (qty E) current quantity) lst
      | None \<Rightarrow> AList.update r quantity lst)"

text \<open>\<^verbatim>\<open>GetQuotaObjectsListResources\<close>; a nil context in the list is dereferenced and panics.\<close>

fun GetQuotaObjectsListResources ::
  "('w, 'q) env \<Rightarrow> 'q quota_context option list \<Rightarrow> (string \<times> 'q) list \<Rightarrow> (string \<times> 'q) list outcome" where
  "GetQuotaObjectsListResources E [] acc = OK acc"
| "GetQuotaObjectsListResources E (None # objs) acc = Panic"
| "GetQuotaObjectsListResources E (Some obj # objs) acc =
     GetQuotaObjectsListResources E objs
       (fold (\<lambda>(r, quantity). addQuantityToResourceList E r quantity) (mentries (GetQuotaObjectSpec obj)) acc)"

subsection \<open>clusterresourcequota.go, resourcecquota.go\<close>

definition ClusterResourceQuota ::
  "('w, 'q) env \<Rightarrow> 'w \<Rightarrow> 'a object_meta_scheme object_context \<Rightarrow> 'q quota_context outcome" where
  "ClusterResourceQuota E w sns =
     obind (New (api_crq E) w (nskey (oc_name sns)) empty_crq) (\<lambda>r. OK (CRQ r))"

definition composeCRQ :: "string \<Rightarrow> 'q resource_list \<Rightarrow> (string \<times> string) list \<Rightarrow> 'q cluster_resource_quota" where
  "composeCRQ nm quota annSelector =
     empty_crq\<lparr>meta_name := nm, crq_selector := Some annSelector, crq_hard := quota\<rparr>"

definition ResourceQuota ::
  "('w, 'q) env \<Rightarrow> 'w \<Rightarrow> 'a object_meta_scheme object_context \<Rightarrow> 'q quota_context outcome" where
  "ResourceQuota E w sns =
     obind (New (api_rq E) w (nnkey (oc_name sns) (oc_name sns)) empty_rq) (\<lambda>r. OK (RQ r))"

definition composeRQ :: "string \<Rightarrow> string \<Rightarrow> 'q resource_list \<Rightarrow> 'q resource_quota" where
  "composeRQ nm ns resources =
     empty_rq\<lparr>meta_name := nm, meta_namespace := ns, rq_hard := resources\<rparr>"

definition DoesSNSCRQExists ::
  "('w, 'q) env \<Rightarrow> 'w \<Rightarrow> 'q subnamespace object_context \<Rightarrow> 'q quota_context option outcome" where
  "DoesSNSCRQExists E w sns =
     obind (ClusterResourceQuota E w sns) (\<lambda>snsCrq.
       OK (if quota_present snsCrq \<and> \<not> IsZeroed E snsCrq \<and> \<not> IsDefault E snsCrq
           then Some snsCrq else None))"

definition DoesSNSRQExists ::
  "('w, 'q) env \<Rightarrow> 'w \<Rightarrow> 'q subnamespace object_context \<Rightarrow> 'q quota_context option outcome" where
  "DoesSNSRQExists E w sns =
     obind (ResourceQuota E w sns) (\<lambda>snsRQ.
       OK (if quota_present snsRQ \<and> \<not> IsZeroed E snsRQ \<and> \<not> IsDefault E snsRQ
           then Some snsRQ else None))"

text \<open>\<^verbatim>\<open>subnamespaceDepth\<close> of snsquota.go, used by \<^verbatim>\<open>IsRQ\<close>.\<close>

definition subnamespaceDepth ::
  "('w, 'q) env \<Rightarrow> 'w \<Rightarrow> 'q subnamespace object_context \<Rightarrow> string outcome" where
  "subnamespaceDepth E w sns =
     (let parentName = oc_namespace sns in
     obind (New (api_ns E) w (nskey parentName) empty_meta) (\<lambda>parentNS.
     if \<not> IsPresent parentNS then Err (Errorf ''failed to find parent namespace %q'' [parentName])
     else (case Atoi (mstr (meta_annotations (oc_object parentNS)) DepthKey) of
             (n, Some err) \<Rightarrow> Err err
           | (n, None) \<Rightarrow> OK (Itoa (i64 (n + 1))))))"

definition IsRQ ::
  "('w, 'q) env \<Rightarrow> 'w \<Rightarrow> 'q subnamespace object_context \<Rightarrow> int \<Rightarrow> bool outcome" where
  "IsRQ E w sns offset =
     obind (GetRqDepthFromSNS E w sns) (\<lambda>rootRQDepth.
     obind (subnamespaceDepth E w sns) (\<lambda>nsDepth.
     let rootRQDepthInt = fst (Atoi rootRQDepth);
         nsDepthInt = fst (Atoi nsDepth);
         depthFlag = i64 (nsDepthInt + offset) \<le> rootRQDepthInt
     in if offset = ParentOffset then OK depthFlag
        else obind (IsSNSResourcePool (oc_object sns)) (\<lambda>resourcePoolFlag.
               OK (depthFlag \<and> \<not> resourcePoolFlag))))"

definition CreateDefaultSNSResourceQuota ::
  "('w, 'q) env \<Rightarrow> 'q subnamespace object_context \<Rightarrow> (('w, 'q) hns, unit) prog" where
  "CreateDefaultSNSResourceQuota E snsObject =
     (let snsName = oc_name snsObject;
          composedDefaultRQ = composeRQ snsName snsName (Some (DefaultQuotaHard E)) in
     bind (reads (\<lambda>s. New (api_rq E) (world s) (nnkey snsName snsName) composedDefaultRQ)) (\<lambda>snsDefaultRQ.
     bind (EnsureCreate (api_rq E) snsDefaultRQ) (\<lambda>_. ret ())))"

subsection \<open>limitrange.go\<close>

text \<open>\<^verbatim>\<open>resource.MustParse\<close> panics on a string it cannot parse.\<close>

definition MustParse :: "('w, 'q) env \<Rightarrow> string \<Rightarrow> 'q outcome" where
  "MustParse E s = (case q_parse (qty E) s of Some q \<Rightarrow> OK q | None \<Rightarrow> Panic)"

definition parse_resources :: "('w, 'q) env \<Rightarrow> strmap \<Rightarrow> string list \<Rightarrow> 'q resource_list outcome" where
  "parse_resources E m names =
     obind (omap (\<lambda>r. obind (MustParse E (mstr m r)) (\<lambda>q. OK (r, q))) names) (\<lambda>xs. OK (Some xs))"

definition getLimits :: "('w, 'q) env \<Rightarrow> 'w \<Rightarrow> 'q limit_range_item list outcome" where
  "getLimits E w =
     obind (GetHNSConfigData E w) (\<lambda>cfg.
     obind (parse_resources E (hc_minimum cfg) [''cpu'', ''memory'']) (\<lambda>minContainer.
     obind (parse_resources E (hc_defaultRequest cfg) [''cpu'', ''memory'']) (\<lambda>defaultRequest.
     obind (parse_resources E (hc_defaultLimit cfg) [''cpu'', ''memory'']) (\<lambda>defaultLimit.
     obind (parse_resources E (hc_maximum cfg) [''cpu'']) (\<lambda>maxRequest.
     obind (parse_resources E (hc_minimumPVC cfg) [''storage'']) (\<lambda>minPVC.
     OK [\<lparr>lri_type = ''Container'', lri_min = minContainer, lri_max = maxRequest,
          lri_default = defaultLimit, lri_defaultRequest = defaultRequest\<rparr>,
         \<lparr>lri_type = ''PersistentVolumeClaim'', lri_min = minPVC, lri_max = None,
          lri_default = None, lri_defaultRequest = None\<rparr>]))))))"

definition composeLimitRange :: "string \<Rightarrow> string \<Rightarrow> 'q limit_range_item list \<Rightarrow> 'q limit_range" where
  "composeLimitRange nm ns limits =
     (object_meta.extend empty_meta \<lparr>lr_limits = limits\<rparr>)\<lparr>meta_name := nm, meta_namespace := ns\<rparr>"

definition CreateDefaultSNSLimitRange ::
  "('w, 'q) env \<Rightarrow> 'q subnamespace object_context \<Rightarrow> (('w, 'q) hns, unit) prog" where
  "CreateDefaultSNSLimitRange E snsObject =
     (let snsName = oc_name snsObject in
     bind (wrapf ''error getting default limits: %w'' [] (reads (\<lambda>s. getLimits E (world s)))) (\<lambda>limits.
     bind (reads (\<lambda>s. New (api_lr E) (world s) (nnkey snsName snsName) (composeLimitRange snsName snsName limits))) (\<lambda>lr.
     bind (EnsureCreate (api_lr E) lr) (\<lambda>_. ret ()))))"

subsection \<open>Amounts\<close>

text \<open>
  What the proofs assume of \<^verbatim>\<open>resource.Quantity\<close>: a quantity stands for an amount, addition and
  subtraction act on amounts, comparison and sign read them, and \<^verbatim>\<open>Value\<close>, which rounds away
  from zero, is negative or zero exactly when the amount is.
\<close>

definition quantity_laws :: "'q quantity_ops \<Rightarrow> ('q \<Rightarrow> int) \<Rightarrow> bool" where
  "quantity_laws Q amt \<longleftrightarrow> amt (q_zero Q) = 0 \<and>
     (\<forall>a b. amt (q_add Q a b) = amt a + amt b) \<and> (\<forall>a b. amt (q_sub Q a b) = amt a - amt b) \<and>
     (\<forall>a. (q_value Q a < 0 \<longleftrightarrow> amt a < 0) \<and> (q_value Q a = 0 \<longleftrightarrow> amt a = 0)) \<and>
     (\<forall>a b. q_cmp Q a b = 0 \<longleftrightarrow> amt a = amt b) \<and> (\<forall>a. q_sign Q a = -1 \<longleftrightarrow> amt a < 0)"

lemma quantity_lawsD:
  assumes "quantity_laws Q amt"
  shows "amt (q_zero Q) = 0" "amt (q_add Q a b) = amt a + amt b" "amt (q_sub Q a b) = amt a - amt b"
    "q_value Q a < 0 \<longleftrightarrow> amt a < 0" "q_value Q a = 0 \<longleftrightarrow> amt a = 0" "q_cmp Q a b = 0 \<longleftrightarrow> amt a = amt b"
    "q_sign Q a = -1 \<longleftrightarrow> amt a < 0"
  using assms by (simp_all add: quantity_laws_def)

lemma mem_quantity_laws: "quantity_laws mem_qty fst"
  by (auto simp: quantity_laws_def mem_qty_def mem_value_def sgn_if zero_less_mult_iff div_eq_0_iff)

text \<open>The amount a resource list holds of a resource; an absent resource counts as nothing.\<close>

definition amount :: "('w, 'q) env \<Rightarrow> ('q \<Rightarrow> int) \<Rightarrow> 'q resource_list \<Rightarrow> string \<Rightarrow> int" where
  "amount E amt m r = amt (mgetd (q_zero (qty E)) m r)"

lemma amount_update:
  "amount E amt (Some (AList.update r q m)) r' = (if r' = r then amt q else amount E amt (Some m) r')"
  by (simp add: amount_def mgetd_def)

lemma amount_addQuantity:
  assumes "quantity_laws (qty E) amt"
  shows "amount E amt (Some (addQuantityToResourceList E r q m)) r' =
    amount E amt (Some m) r' + (if r' = r then amt q else 0)"
  using quantity_lawsD [OF assms]
  by (auto simp: addQuantityToResourceList_def amount_update split: option.splits) (auto simp: amount_def mgetd_def)

lemma amount_add_entries:
  assumes "quantity_laws (qty E) amt" "distinct (map fst xs)"
  shows "amount E amt (Some (fold (\<lambda>(r, q). addQuantityToResourceList E r q) xs m)) r =
    amount E amt (Some m) r + amount E amt (Some xs) r"
  using assms(2)
proof (induction xs arbitrary: m)
  case Nil
  then show ?case using quantity_lawsD(1) [OF assms(1)] by (simp add: amount_def mgetd_def)
next
  case (Cons x xs)
  obtain r' q where x: "x = (r', q)" by (cases x)
  have "r = r' \<Longrightarrow> amount E amt (Some xs) r = 0"
    using Cons.prems x quantity_lawsD(1) [OF assms(1)] by (simp add: amount_def mgetd_def map_of_eq_None_iff [THEN iffD2])
  then show ?case
    using Cons x by (auto simp: amount_addQuantity [OF assms(1)]) (auto simp: amount_def mgetd_def)
qed

lemma amount_mentries: "amount E amt (Some (mentries m)) r = amount E amt m r"
  by (simp add: amount_def mgetd_def mget_def)

lemma quota_total:
  assumes "quantity_laws (qty E) amt"
    and "\<And>obj. Some obj \<in> set objs \<Longrightarrow> wf_map (GetQuotaObjectSpec obj)"
  shows "(if None \<in> set objs then GetQuotaObjectsListResources E objs acc = Panic
     else \<exists>total. GetQuotaObjectsListResources E objs acc = OK total \<and>
       (\<forall>r. amount E amt (Some total) r = amount E amt (Some acc) r +
              (\<Sum>obj \<leftarrow> map the objs. amount E amt (GetQuotaObjectSpec obj) r)))"
  using assms(2)
proof (induction objs arbitrary: acc)
  case (Cons x objs)
  show ?case
  proof (cases x)
    case None
    then show ?thesis by simp
  next
    case (Some obj)
    then have wf: "wf_map (GetQuotaObjectSpec obj)" using Cons.prems by simp
    show ?thesis
      using Cons.IH [of "fold (\<lambda>(r, q). addQuantityToResourceList E r q) (mentries (GetQuotaObjectSpec obj)) acc"]
        Cons.prems Some
      by (cases "None \<in> set objs") (auto simp: amount_add_entries [OF assms(1) wf] amount_mentries algebra_simps)
  qed
qed simp

text \<open>C35: the resources of a list of quota objects are the sums of what the objects hold; a nil entry
  panics.\<close>

theorem GetQuotaObjectsListResources_sums:
  assumes "quantity_laws (qty E) amt"
    and "\<And>obj. Some obj \<in> set objs \<Longrightarrow> wf_map (GetQuotaObjectSpec obj)"
  shows "(if None \<in> set objs then GetQuotaObjectsListResources E objs acc = Panic
     else \<exists>total. GetQuotaObjectsListResources E objs acc = OK total \<and>
       (\<forall>r. amount E amt (Some total) r = amount E amt (Some acc) r +
              (\<Sum>obj \<leftarrow> map the objs. amount E amt (GetQuotaObjectSpec obj) r)))"
  by (rule quota_total [OF assms])

text \<open>Two resource lists are equal for the operator exactly when they name the same resources and hold the
  same amount of each, whatever the order in which the maps are visited.\<close>

lemma ResourceListEqual_iff:
  fixes a b :: "'q resource_list"
  assumes "quantity_laws (qty E) amt" "wf_map a" "wf_map b"
  shows "ResourceListEqual E a b \<longleftrightarrow>
    (\<forall>r. map_option amt (mget a r) = map_option amt (mget b r))"
proof
  assume eq: "ResourceListEqual E a b"
  have sub: "\<exists>v2. mget b k = Some v2 \<and> amt v1 = amt v2" if "mget a k = Some v1" for k v1
    using eq mget_SomeD [OF that] quantity_lawsD(6) [OF assms(1)]
    by (fastforce simp: ResourceListEqual_def list_all_iff split: if_splits option.splits)
  have len: "length (mentries a) = length (mentries b)" using eq by (simp add: ResourceListEqual_def split: if_splits)
  have dom: "dom (mget a) \<subseteq> dom (mget b)" using sub by fastforce
  have card: "card (dom (mget m)) = length (mentries m)" if "wf_map m" for m :: "'q resource_list"
    using that by (simp add: mget_def [abs_def] dom_map_of_conv_image_fst) (metis distinct_card length_map set_map)
  have "dom (mget a) = dom (mget b)"
    by (rule card_subset_eq [OF _ dom]) (simp_all add: card assms len, simp add: mget_def [abs_def] finite_dom_map_of)
  show "\<forall>r. map_option amt (mget a r) = map_option amt (mget b r)"
  proof (intro allI)
    fix r
    have "mget a r = None \<longleftrightarrow> mget b r = None" using \<open>dom (mget a) = dom (mget b)\<close> by blast
    then show "map_option amt (mget a r) = map_option amt (mget b r)"
      using sub [of r] by (cases "mget a r") auto
  qed
next
  assume eq: "\<forall>r. map_option amt (mget a r) = map_option amt (mget b r)"
  have keys: "set (map fst (mentries m)) = dom (mget m)" for m :: "'q resource_list"
    by (simp add: mget_def [abs_def] dom_map_of_conv_image_fst)
  have "mget a r = None \<longleftrightarrow> mget b r = None" for r
    using eq [rule_format, of r] by (cases "mget a r"; cases "mget b r") auto
  then have "dom (mget a) = dom (mget b)" by (simp add: dom_def)
  then have "length (mentries a) = length (mentries b)"
    using assms(2,3) keys [of a] keys [of b] by (metis distinct_card length_map)
  moreover have "case mget b k of None \<Rightarrow> False | Some v2 \<Rightarrow> q_cmp (qty E) v1 v2 = 0"
    if "(k, v1) \<in> set (mentries a)" for k v1
  proof -
    have "mget a k = Some v1" by (rule mget_entry [OF assms(2) that])
    then show ?thesis using eq [rule_format, of k] quantity_lawsD(6) [OF assms(1)] by (cases "mget b k") auto
  qed
  ultimately show "ResourceListEqual E a b" by (auto simp: ResourceListEqual_def list_all_iff)
qed

subsection \<open>Instances\<close>

lemma mem_env_qty: "qty mem_env = mem_qty"
  by (simp add: mem_env_def)

lemma mem_env_quantity_laws: "quantity_laws (qty mem_env) fst"
  by (simp add: mem_env_qty mem_quantity_laws)

theorem GetQuotaObjectsListResources_sums_witness:
  "\<exists>total. GetQuotaObjectsListResources mem_env
       [Some (CRQ (ctx (mk_crq ''b'' [(''cpu'', 5)]))), Some (CRQ (ctx (mk_crq ''d'' [(''cpu'', 3)])))] [] = OK total \<and>
     amount mem_env fst (Some total) ''cpu'' = 8000"
proof -
  let ?objs = "[Some (CRQ (ctx (mk_crq ''b'' [(''cpu'', 5)]))), Some (CRQ (ctx (mk_crq ''d'' [(''cpu'', 3)])))]"
  have "wf_map (GetQuotaObjectSpec obj)" if "Some obj \<in> set ?objs" for obj
    using that by (auto simp: ctx_def mk_crq_def)
  from GetQuotaObjectsListResources_sums [OF mem_env_quantity_laws this, of ?objs "[]"]
  obtain total where total: "GetQuotaObjectsListResources mem_env ?objs [] = OK total"
    "\<forall>r. amount mem_env fst (Some total) r = amount mem_env fst (Some []) r +
       (\<Sum>obj \<leftarrow> map the ?objs. amount mem_env fst (GetQuotaObjectSpec obj) r)"
    by auto
  moreover have "amount mem_env fst (Some []) ''cpu'' +
       (\<Sum>obj \<leftarrow> map the ?objs. amount mem_env fst (GetQuotaObjectSpec obj) ''cpu'') = 8000"
    by code_simp
  ultimately show ?thesis by metis
qed

lemma ResourceListEqual_iff_instance:
  "ResourceListEqual mem_env (Some [(''cpu'', (1000, ''DecimalSI'')), (''gpu'', (2000, ''''))])
     (Some [(''gpu'', (2000, ''BinarySI'')), (''cpu'', (1000, ''''))])"
  by (subst ResourceListEqual_iff [OF mem_env_quantity_laws]) simp_all

end
