(* ===== verification/SnsQuota.thy ===== *)
theory SnsQuota
  imports Quota
begin

section \<open>quota: the quota object of a subnamespace\<close>

text \<open>
  \<^verbatim>\<open>internal/quota/snsquota.go\<close> and \<^verbatim>\<open>nsquota.go\<close>: which quota object belongs to a
  subnamespace, its parent, its siblings and its children, and how it is created and kept.
  A \<^verbatim>\<open>ctrl.Result\<close> is its \<^verbatim>\<open>Requeue\<close> flag.
\<close>

type_synonym result = bool

definition SubnamespaceSpec :: "'q subnamespace \<Rightarrow> 'q resource_list" where
  "SubnamespaceSpec sns = sns_hard sns"

definition SubnamespaceObject ::
  "('w, 'q) env \<Rightarrow> 'w \<Rightarrow> 'q subnamespace object_context \<Rightarrow> 'q quota_context outcome" where
  "SubnamespaceObject E w sns =
     obind (IsRQ E w sns SelfOffset) (\<lambda>rqFlag.
       if rqFlag then ResourceQuota E w sns else ClusterResourceQuota E w sns)"

text \<open>\<^verbatim>\<open>nsquota.go\<close>: for the root namespace the subnamespace is nil and its use panics.\<close>

definition NamespaceObject ::
  "('w, 'q) env \<Rightarrow> 'w \<Rightarrow> namespace object_context \<Rightarrow> 'q quota_context outcome" where
  "NamespaceObject E w ns =
     obind (SNSFromNamespace E w ns) (\<lambda>sns.
       case sns of None \<Rightarrow> Panic | Some sns \<Rightarrow> SubnamespaceObject E w sns)"

definition RootNSObject ::
  "('w, 'q) env \<Rightarrow> 'w \<Rightarrow> namespace object_context \<Rightarrow> 'q resource_quota object_context outcome" where
  "RootNSObject E w ns = New (api_rq E) w (nnkey (oc_name ns) (oc_name ns)) empty_rq"

definition RootNSObjectFromName ::
  "('w, 'q) env \<Rightarrow> 'w \<Rightarrow> string \<Rightarrow> 'q resource_quota object_context outcome" where
  "RootNSObjectFromName E w rootNSName =
     obind (New (api_ns E) w (nskey rootNSName) empty_meta) (RootNSObject E w)"

subsection \<open>Creating and updating\<close>

fun quota_EnsureCreate ::
  "('w, 'q) env \<Rightarrow> 'q quota_context \<Rightarrow> (('w, 'q) hns, 'q quota_context) prog" where
  "quota_EnsureCreate E (RQ r) = bind (EnsureCreate (api_rq E) r) (\<lambda>r. ret (RQ r))"
| "quota_EnsureCreate E (CRQ r) = bind (EnsureCreate (api_crq E) r) (\<lambda>r. ret (CRQ r))"

fun quota_EnsureDelete ::
  "('w, 'q) env \<Rightarrow> 'q quota_context \<Rightarrow> (('w, 'q) hns, 'q quota_context) prog" where
  "quota_EnsureDelete E (RQ r) = bind (EnsureDelete (api_rq E) r) (\<lambda>r. ret (RQ r))"
| "quota_EnsureDelete E (CRQ r) = bind (EnsureDelete (api_crq E) r) (\<lambda>r. ret (CRQ r))"

definition setupObject ::
  "('w, 'q) env \<Rightarrow> 'w \<Rightarrow> string \<Rightarrow> bool \<Rightarrow> 'q resource_list \<Rightarrow> 'q subnamespace object_context \<Rightarrow>
   'q quota_context outcome" where
  "setupObject E w quotaObjName isRq resources snsObject =
     (if isRq then
        obind (New (api_rq E) w (nnkey quotaObjName quotaObjName) (composeRQ quotaObjName quotaObjName resources))
              (\<lambda>r. OK (RQ r))
      else
        obind (subnamespaceDepth E w snsObject) (\<lambda>selector.
        let crqMap = [(CrqSelectorKey @ ''-'' @ selector, quotaObjName)] in
        obind (New (api_crq E) w (nskey quotaObjName) (composeCRQ quotaObjName resources crqMap))
              (\<lambda>r. OK (CRQ r))))"

definition used ::
  "('w, 'q) env \<Rightarrow> 'w \<Rightarrow> 'q subnamespace object_context \<Rightarrow> 'q resource_list outcome" where
  "used E w snsObject = obind (SubnamespaceObject E w snsObject) (\<lambda>quotaObj. OK (GetQuotaUsed quotaObj))"

text \<open>\<^verbatim>\<open>quota.UpdateObject\<close>: the closure casts the object to the kind \<open>isRq\<close> asks for.\<close>

definition UpdateQuotaObject ::
  "('w, 'q) env \<Rightarrow> 'q quota_context \<Rightarrow> 'q resource_list \<Rightarrow> bool \<Rightarrow> (('w, 'q) hns, 'q quota_context) prog" where
  "UpdateQuotaObject E quotaObject resources isRq =
     (case quotaObject of
        RQ r \<Rightarrow>
          (if isRq then bind (UpdateObjectE (api_rq E) (\<lambda>obj. OK (obj\<lparr>rq_hard := resources\<rparr>)) r) (\<lambda>r. ret (RQ r))
           else panic)
      | CRQ r \<Rightarrow>
          (if isRq then panic
           else bind (UpdateObjectE (api_crq E) (\<lambda>obj. OK (obj\<lparr>crq_hard := resources\<rparr>)) r) (\<lambda>r. ret (CRQ r))))"

definition updateSubnamespaceSpec ::
  "('w, 'q) env \<Rightarrow> 'q subnamespace object_context \<Rightarrow> 'q resource_list \<Rightarrow>
   (('w, 'q) hns, 'q subnamespace object_context) prog" where
  "updateSubnamespaceSpec E snsObject resources =
     UpdateObjectE (api_sns E) (\<lambda>obj. OK (obj\<lparr>sns_hard := resources\<rparr>)) snsObject"

text \<open>The last part of \<^verbatim>\<open>EnsureSubnamespaceObject\<close>, once the quota is known.\<close>

definition ensure_quota_object ::
  "('w, 'q) env \<Rightarrow> 'q subnamespace object_context \<Rightarrow> bool \<Rightarrow> 'q resource_list \<Rightarrow> (('w, 'q) hns, unit) prog" where
  "ensure_quota_object E snsObject isRq quotaSpec =
     bind (reads (\<lambda>s. setupObject E (world s) (oc_name snsObject) isRq quotaSpec snsObject)) (\<lambda>quotaObject.
     bind (if IsZeroed E quotaObject then UpdateQuotaObject E quotaObject quotaSpec isRq
           else ret quotaObject) (\<lambda>quotaObject.
     bind (quota_EnsureCreate E quotaObject) (\<lambda>_. ret ())))"

definition EnsureSubnamespaceObject ::
  "('w, 'q) env \<Rightarrow> 'q subnamespace object_context \<Rightarrow> bool \<Rightarrow>
   (('w, 'q) hns, result \<times> 'q subnamespace object_context) prog" where
  "EnsureSubnamespaceObject E snsObject isRq =
     (let quotaObjectName = oc_name snsObject;
          quotaSpec = SubnamespaceSpec (oc_object snsObject) in
     bind (reads (\<lambda>s. GetObservedResources E (world s))) (\<lambda>observedResources.
     if length (mentries quotaSpec) = 0 then
       bind (reads (\<lambda>s. setupObject E (world s) quotaObjectName isRq observedResources snsObject)) (\<lambda>quotaObject.
       bind (quota_EnsureCreate E quotaObject) (\<lambda>_.
       bind (reads (\<lambda>s. used E (world s) snsObject)) (\<lambda>quotaObjectUsed.
       if quotaObjectUsed = None then ret (True, snsObject)
       else
         bind (updateSubnamespaceSpec E snsObject quotaObjectUsed) (\<lambda>snsObject.
         bind (ensure_quota_object E snsObject isRq quotaObjectUsed) (\<lambda>_.
         ret (False, snsObject))))))
     else
       bind (ensure_quota_object E snsObject isRq quotaSpec) (\<lambda>_. ret (False, snsObject))))"

subsection \<open>Quota objects around a subnamespace\<close>

definition SubnamespaceObjectFromAnnotation ::
  "('w, 'q) env \<Rightarrow> 'w \<Rightarrow> 'a object_meta_scheme object_context \<Rightarrow> 'q quota_context outcome" where
  "SubnamespaceObjectFromAnnotation E w sns =
     (if mstr (meta_annotations (oc_object sns)) IsRqKey = TrueStr then ResourceQuota E w sns
      else ClusterResourceQuota E w sns)"

definition SubnamespaceParentObject ::
  "('w, 'q) env \<Rightarrow> 'w \<Rightarrow> 'q subnamespace object_context \<Rightarrow> 'q quota_context outcome" where
  "SubnamespaceParentObject E w sns =
     obind (IsRQ E w sns ParentOffset) (\<lambda>rqFlag.
       if rqFlag
       then obind (New (api_rq E) w (nnkey (oc_namespace sns) (oc_namespace sns)) empty_rq) (\<lambda>r. OK (RQ r))
       else obind (New (api_crq E) w (nskey (oc_namespace sns)) empty_crq) (\<lambda>r. OK (CRQ r)))"

text \<open>The quota object of a name, of the kind \<open>rqFlag\<close> asks for; a failed lookup leaves a nil
  context in the slice.\<close>

definition named_quota ::
  "('w, 'q) env \<Rightarrow> 'w \<Rightarrow> bool \<Rightarrow> string \<Rightarrow> 'q quota_context option outcome" where
  "named_quota E w rqFlag nm =
     otry (if rqFlag then obind (New (api_rq E) w (nnkey nm nm) empty_rq) (\<lambda>r. OK (RQ r))
           else obind (New (api_crq E) w (nskey nm) empty_crq) (\<lambda>r. OK (CRQ r)))"

text \<open>Both slices go on after an error of \<^verbatim>\<open>IsRQ\<close> (taking false) and dereference the nil list
  after an error of the list call.\<close>

definition flag_or_false :: "bool outcome \<Rightarrow> bool outcome" where
  "flag_or_false m = (case m of OK b \<Rightarrow> OK b | Err e \<Rightarrow> OK False | Panic \<Rightarrow> Panic)"

definition list_or_panic :: "'a list outcome \<Rightarrow> 'a list outcome" where
  "list_or_panic m = (case m of OK xs \<Rightarrow> OK xs | Err e \<Rightarrow> Panic | Panic \<Rightarrow> Panic)"

definition SubnamespaceSiblingObjects ::
  "('w, 'q) env \<Rightarrow> 'w \<Rightarrow> 'q subnamespace object_context \<Rightarrow> 'q quota_context option list outcome" where
  "SubnamespaceSiblingObjects E w sns =
     obind (flag_or_false (IsRQ E w sns SelfOffset)) (\<lambda>rqFlag.
     obind (list_or_panic (NewList (api_ns E) w (MatchingLabel ParentKey (oc_namespace sns)))) (\<lambda>namespaceList.
     omap (\<lambda>ns. named_quota E w rqFlag (meta_name ns)) namespaceList))"

definition SubnamespaceChildrenObjects ::
  "('w, 'q) env \<Rightarrow> 'w \<Rightarrow> 'q subnamespace object_context \<Rightarrow> 'q quota_context option list outcome" where
  "SubnamespaceChildrenObjects E w sns =
     obind (flag_or_false (IsRQ E w sns ChildOffset)) (\<lambda>rqFlag.
     obind (list_or_panic (NewList (api_sns E) w (InNamespace (oc_name sns)))) (\<lambda>snsChildrenList.
     omap (\<lambda>subns. named_quota E w rqFlag (meta_name subns)) snsChildrenList))"

definition DoesSubnamespaceObjectExist ::
  "('w, 'q) env \<Rightarrow> 'w \<Rightarrow> 'q subnamespace object_context \<Rightarrow> 'q quota_context option outcome" where
  "DoesSubnamespaceObjectExist E w sns =
     obind (SubnamespaceObject E w sns) (\<lambda>quotaObj.
       OK (if quota_present quotaObj \<and> \<not> IsZeroed E quotaObj then Some quotaObj else None))"

end
