(* ===== verification/NamespaceDB.thy ===== *)
theory NamespaceDB
  imports SnsQuota "HOL-Library.List_Lexorder" "HOL-Library.Char_ord"
begin

section \<open>namespacedb: which namespaces share a ClusterResourceQuota\<close>

text \<open>
  \<^verbatim>\<open>internal/namespacedb\<close>. The forest maps a key (the first namespace of a branch bound to a
  ClusterResourceQuota) to the namespaces below it. The map is an association list in the order
  \<^verbatim>\<open>range\<close> visits it; each exported operation runs under the mutex and is one step.
\<close>

type_synonym forest = "(string \<times> string list) list"

subsection \<open>The forest\<close>

definition doesKeyExist :: "forest \<Rightarrow> string \<Rightarrow> bool" where
  "doesKeyExist ndb key \<longleftrightarrow> map_of ndb key \<noteq> None"

definition members :: "forest \<Rightarrow> string \<Rightarrow> string list" where
  "members ndb key = (case map_of ndb key of None \<Rightarrow> [] | Some xs \<Rightarrow> xs)"

definition valInKeyExist :: "forest \<Rightarrow> string \<Rightarrow> string \<Rightarrow> bool" where
  "valInKeyExist ndb key val \<longleftrightarrow> val \<in> set (members ndb key)"

definition addNSToKey :: "string \<Rightarrow> string \<Rightarrow> forest \<Rightarrow> forest outcome" where
  "addNSToKey key ns ndb =
     (let ndb = (if key = ns then AList.update key [] ndb
                 else (case map_of ndb key of
                         Some nsList \<Rightarrow> AList.update key (nsList @ [ns]) ndb
                       | None \<Rightarrow> AList.update key [ns] ndb))
      in if map_of ndb key = None then Err (Errorf ''key %q does not exist in NamespaceDB'' [key])
         else OK ndb)"

text \<open>
  The loop of \<^verbatim>\<open>RemoveNS\<close>. It ranges over the slice it found (\<open>n\<close> elements) while the entry is
  replaced by \<^verbatim>\<open>append(s[:i], s[i+1:]...)\<close>, which shifts the elements in the same backing array
  \<open>arr\<close>; \<open>len\<close> is the length of the entry's current slice, and \<^verbatim>\<open>s[i+1:]\<close> panics when
  \<open>i + 1\<close> is beyond it.
\<close>

definition shift_left :: "nat \<Rightarrow> nat \<Rightarrow> 'a list \<Rightarrow> 'a list" where
  "shift_left i len arr = take i arr @ drop (Suc i) (take len arr) @ drop (len - 1) arr"

fun removeLoop :: "string \<Rightarrow> nat \<Rightarrow> nat \<Rightarrow> string list \<Rightarrow> nat \<Rightarrow> (string list \<times> nat) outcome" where
  "removeLoop nsname i 0 arr len = OK (arr, len)"
| "removeLoop nsname i (Suc n) arr len =
     (if arr ! i = nsname then
        (if Suc i \<le> len then removeLoop nsname (Suc i) n (shift_left i len arr) (len - 1)
         else Panic)
      else removeLoop nsname (Suc i) n arr len)"

definition RemoveNS :: "string \<Rightarrow> string \<Rightarrow> forest \<Rightarrow> forest outcome" where
  "RemoveNS nsname key ndb =
     (case map_of ndb key of
        None \<Rightarrow> Err (Errorf ''key %q does not exist in NamespaceDB'' [key])
      | Some nss \<Rightarrow>
          obind (removeLoop nsname 0 (length nss) nss (length nss)) (\<lambda>(arr, len).
            OK (AList.update key (take len arr) ndb)))"

fun Key :: "forest \<Rightarrow> string \<Rightarrow> string" where
  "Key [] ns = ''''"
| "Key ((key, namespaces) # rest) ns =
     (if key = ns then key else if ns \<in> set namespaces then key else Key rest ns)"

definition DeleteKey :: "string \<Rightarrow> forest \<Rightarrow> forest" where
  "DeleteKey key ndb = AList.delete key ndb"

definition KeyCount :: "forest \<Rightarrow> string \<Rightarrow> nat" where
  "KeyCount ndb key = length (members ndb key)"

definition isKeyEmpty :: "string \<Rightarrow> bool" where
  "isKeyEmpty key \<longleftrightarrow> key = ''''"

text \<open>Running a forest operation on the state.\<close>

definition on_forest :: "(forest \<Rightarrow> forest outcome) \<Rightarrow> (('w, 'q) hns, unit) prog" where
  "on_forest f s = (case f (crqForest s) of
     OK ndb \<Rightarrow> (OK (), s\<lparr>crqForest := ndb\<rparr>) | Err e \<Rightarrow> (Err e, s) | Panic \<Rightarrow> (Panic, s))"

subsection \<open>Operations on the cluster and the forest\<close>

definition AddNS :: "('w, 'q) env \<Rightarrow> 'q subnamespace \<Rightarrow> (('w, 'q) hns, unit) prog" where
  "AddNS E sns =
     bind (reads (\<lambda>s. OK (Key (crqForest s) (meta_namespace sns)))) (\<lambda>keyNS.
     if \<not> isKeyEmpty keyNS then
       wrapf ''failed to add namespace %q to key %q: %v'' [meta_name sns, keyNS]
         (on_forest (addNSToKey keyNS (meta_name sns)))
     else (\<lambda>s. (case Get (api_crq E) (world s) (nskey (meta_name sns)) of
       Panic \<Rightarrow> (Panic, s)
     | Err err \<Rightarrow> (if \<not> IsNotFound err then (Err err, s) else (OK (), s))
     | OK crq \<Rightarrow>
         wrapf ''failed to add namespace %q to key %q: %v'' [meta_name sns, meta_name sns]
           (on_forest (addNSToKey (meta_name sns) (meta_name sns))) s)))"

definition EnsureSNSInDB ::
  "('w, 'q) env \<Rightarrow> 'q subnamespace object_context \<Rightarrow> (('w, 'q) hns, unit) prog" where
  "EnsureSNSInDB E sns =
     bind (reads (\<lambda>s. OK (Key (crqForest s) (oc_name sns)))) (\<lambda>key.
     if key \<noteq> '''' then ret ()
     else
     bind (reads (\<lambda>s. IsRQ E (world s) sns SelfOffset)) (\<lambda>rqFlag.
     if \<not> rqFlag then AddNS E (oc_object sns) else ret ()))"

text \<open>The body of the loop of \<^verbatim>\<open>MigrateNSHierarchy\<close>.\<close>

definition migrate_child :: "string \<Rightarrow> string \<Rightarrow> string \<Rightarrow> string \<Rightarrow> (('w, 'q) hns, unit) prog" where
  "migrate_child oldKeyNS newKeyNS snsName childName =
     bind (if \<not> isKeyEmpty oldKeyNS \<and> oldKeyNS \<noteq> snsName then
             wrapf ''removing namespace %q from key %q failed: %v'' [childName, oldKeyNS]
               (on_forest (RemoveNS childName oldKeyNS))
           else ret ()) (\<lambda>_.
     if \<not> isKeyEmpty newKeyNS then
       wrapf ''adding namespace %q to key %q failed: %v'' [childName, newKeyNS]
         (on_forest (addNSToKey newKeyNS childName))
     else ret ())"

definition MigrateNSHierarchy ::
  "('w, 'q) env \<Rightarrow> string \<Rightarrow> string \<Rightarrow> (('w, 'q) hns, unit) prog" where
  "MigrateNSHierarchy E snsName destNSName =
     bind (reads (\<lambda>s. OK (Key (crqForest s) snsName))) (\<lambda>oldKeyNS.
     bind (reads (\<lambda>s. OK (Key (crqForest s) destNSName))) (\<lambda>newKeyNS.
     bind (reads (\<lambda>s. New (api_ns E) (world s) (nskey snsName) empty_meta)) (\<lambda>ns.
     bind (reads (\<lambda>s. GetAllChildren_ns E (world s) (stack_limit E) (Some ns))) (\<lambda>childrenList.
     for_each childrenList (\<lambda>child. migrate_child oldKeyNS newKeyNS snsName (oc_name child))))))"

subsection \<open>Filling the forest at start-up\<close>

fun LocateNS :: "namespace list \<Rightarrow> string \<Rightarrow> namespace option" where
  "LocateNS [] nsName = None"
| "LocateNS (ns # rest) nsName = (if meta_name ns = nsName then Some ns else LocateNS rest nsName)"

fun isSNS :: "'q subnamespace list \<Rightarrow> string \<Rightarrow> bool" where
  "isSNS [] nsName = False"
| "isSNS (sns # rest) nsName = (meta_name sns = nsName \<or> isSNS rest nsName)"

text \<open>\<^verbatim>\<open>NSListUp\<close> walks up from the namespace and stops before the root; a name that is not in
  the list is a nil pointer, dereferenced.\<close>

definition NSListUp :: "namespace \<Rightarrow> string \<Rightarrow> namespace list \<Rightarrow> namespace list outcome" where
  "NSListUp ns rootNS nsList =
     (let nsArray = Split (CHR ''/'') (mstr (meta_annotations ns) DisplayNameKey) in
     obind (IndexOf rootNS nsArray) (\<lambda>index.
       omap (\<lambda>nm. case LocateNS nsList nm of None \<Rightarrow> Panic | Some ns \<Rightarrow> OK ns)
            (rev (drop 1 (drop index nsArray)))))"

text \<open>\<^verbatim>\<open>sort.Slice\<close> by the depth annotation, compared as a string.\<close>

definition depth_string :: "namespace \<Rightarrow> string" where
  "depth_string ns = mstr (meta_annotations ns) DepthKey"

fun add_missing :: "string \<Rightarrow> string list \<Rightarrow> forest \<Rightarrow> forest outcome" where
  "add_missing keyName [] ndb = OK ndb"
| "add_missing keyName (nm # nms) ndb =
     obind (if \<not> valInKeyExist ndb keyName nm then addNSToKey keyName nm ndb else OK ndb)
           (add_missing keyName nms)"

definition addHierarchy :: "namespace \<Rightarrow> namespace list \<Rightarrow> namespace option \<Rightarrow> forest \<Rightarrow> forest outcome" where
  "addHierarchy ns nsList rootNS ndb =
     (case rootNS of
        None \<Rightarrow> Panic
      | Some rootNS \<Rightarrow>
          obind (otry (NSListUp ns (meta_name rootNS) nsList)) (\<lambda>up.
          let nsListUp = sort_key depth_string (case up of None \<Rightarrow> [] | Some l \<Rightarrow> l);
              rqDepth = fst (Atoi (mstr (meta_annotations rootNS) RqDepthKey)) in
          if int (length nsListUp) > rqDepth then
            (if rqDepth < 0 then Panic
             else
             let keyName = meta_name (nsListUp ! nat rqDepth) in
             obind (if \<not> doesKeyExist ndb keyName then addNSToKey keyName keyName ndb else OK ndb)
                   (add_missing keyName (map meta_name (drop (nat rqDepth + 1) nsListUp))))
          else OK ndb))"

text \<open>\<^verbatim>\<open>Init\<close>; the two lists are those of the API server at start-up.\<close>

fun init_leaves :: "namespace list \<Rightarrow> namespace list \<Rightarrow> namespace option \<Rightarrow> forest \<Rightarrow> forest outcome" where
  "init_leaves [] nsList rootNS ndb = OK ndb"
| "init_leaves (ns # nss) nsList rootNS ndb =
     (if mstr (meta_annotations ns) RoleKey = Leaf then
        obind (ocatch (addHierarchy ns nsList rootNS ndb)
                 (\<lambda>e. Err (Errorf ''failed to add hierarchy for %q: %v'' [meta_name ns, error_text e])))
              (init_leaves nss nsList rootNS)
      else init_leaves nss nsList rootNS ndb)"

definition Init :: "('w, 'q) env \<Rightarrow> 'w \<Rightarrow> forest outcome" where
  "Init E w =
     obind (NewList (api_ns E) w ListAll) (\<lambda>nsList.
     obind (NewList (api_sns E) w ListAll) (\<lambda>snsList.
     let nsWithSns = filter (\<lambda>ns. isSNS snsList (meta_name ns)) nsList;
         rootNS = (case nsWithSns of
                     [] \<Rightarrow> Some empty_meta
                   | ns # _ \<Rightarrow> LocateNS nsList (mstr (meta_annotations ns) RootCrqSelectorKey))
     in init_leaves nsWithSns nsList rootNS []))"

subsection \<open>The invariant of the forest\<close>

definition forest_ok :: "forest \<Rightarrow> bool" where
  "forest_ok ndb \<longleftrightarrow>
     distinct (map fst ndb) \<and> '''' \<notin> fst ` set ndb \<and>
     (\<forall>(k, ms) \<in> set ndb. distinct ms \<and> '''' \<notin> set ms \<and> set ms \<inter> fst ` set ndb = {}) \<and>
     (\<forall>(k, ms) \<in> set ndb. \<forall>(k', ms') \<in> set ndb. k = k' \<or> set ms \<inter> set ms' = {})"

definition ok_map :: "(string \<rightharpoonup> string list) \<Rightarrow> bool" where
  "ok_map M \<longleftrightarrow>
     M '''' = None \<and>
     (\<forall>k ms. M k = Some ms \<longrightarrow> distinct ms \<and> '''' \<notin> set ms \<and> (\<forall>m \<in> set ms. M m = None)) \<and>
     (\<forall>k ms k' ms'. M k = Some ms \<longrightarrow> M k' = Some ms' \<longrightarrow> k = k' \<or> set ms \<inter> set ms' = {})"

lemma forest_ok_iff: "forest_ok ndb \<longleftrightarrow> distinct (map fst ndb) \<and> ok_map (map_of ndb)"
proof (cases "distinct (map fst ndb)")
  case True
  then have entry: "(k, ms) \<in> set ndb \<longleftrightarrow> map_of ndb k = Some ms" for k ms
    by (metis map_of_SomeD map_of_is_SomeI)
  have ball: "(\<forall>(k, ms) \<in> set ndb. P k ms) \<longleftrightarrow> (\<forall>k ms. map_of ndb k = Some ms \<longrightarrow> P k ms)" for P
    using entry by fast
  have keys: "k \<notin> fst ` set ndb \<longleftrightarrow> map_of ndb k = None" for k
    by (simp add: map_of_eq_None_iff)
  have disj: "set ms \<inter> fst ` set ndb = {} \<longleftrightarrow> (\<forall>m \<in> set ms. map_of ndb m = None)" for ms
    unfolding keys [symmetric] by blast
  show ?thesis
    unfolding forest_ok_def ok_map_def ball keys disj using True by blast
next
  case False
  then show ?thesis by (simp add: forest_ok_def)
qed

lemma ok_mapD:
  assumes "ok_map M" "M k = Some ms"
  shows "distinct ms" "'''' \<notin> set ms" "k \<noteq> ''''" "m \<in> set ms \<Longrightarrow> M m = None"
    "M k' = Some ms' \<Longrightarrow> m \<in> set ms \<Longrightarrow> m \<in> set ms' \<Longrightarrow> k' = k"
  using assms unfolding ok_map_def by (auto; blast)+

text \<open>Where a namespace is: the reference definition of \<^verbatim>\<open>Key\<close>.\<close>

definition placed :: "forest \<Rightarrow> string \<Rightarrow> string \<Rightarrow> bool" where
  "placed ndb ns key \<longleftrightarrow> (\<exists>ms. map_of ndb key = Some ms \<and> (ns = key \<or> ns \<in> set ms))"

lemma placed_unique: "forest_ok ndb \<Longrightarrow> placed ndb ns k \<Longrightarrow> placed ndb ns k' \<Longrightarrow> k = k'"
  unfolding forest_ok_iff placed_def by (auto dest: ok_mapD(4,5))

lemma Key_placed: "Key ndb ns \<noteq> '''' \<Longrightarrow> distinct (map fst ndb) \<Longrightarrow> placed ndb ns (Key ndb ns)"
proof (induction ndb ns rule: Key.induct)
  case (2 key namespaces rest ns)
  have "map_of rest k = Some ms \<Longrightarrow> k \<noteq> key" for k ms
    using 2(3) by (force dest: map_of_SomeD)
  with 2 show ?case by (auto simp: placed_def split: if_splits)
qed simp

lemma Key_empty: "Key ndb ns = '''' \<Longrightarrow> '''' \<notin> fst ` set ndb \<Longrightarrow> \<not> placed ndb ns k"
  by (induction ndb ns rule: Key.induct) (auto simp: placed_def split: if_splits)

lemma Key_eq_iff:
  assumes "forest_ok ndb" "key \<noteq> ''''"
  shows "Key ndb ns = key \<longleftrightarrow> placed ndb ns key"
proof
  assume "Key ndb ns = key"
  then show "placed ndb ns key"
    using Key_placed [of ndb ns] assms by (auto simp: forest_ok_def)
next
  assume p: "placed ndb ns key"
  then have "Key ndb ns \<noteq> ''''"
    using Key_empty [of ndb ns key] assms(1) by (auto simp: forest_ok_def)
  then have "placed ndb ns (Key ndb ns)"
    using Key_placed assms(1) by (auto simp: forest_ok_def)
  then show "Key ndb ns = key"
    using p assms(1) placed_unique by blast
qed

lemma Key_empty_iff:
  assumes "forest_ok ndb"
  shows "Key ndb ns = '''' \<longleftrightarrow> (\<forall>key. \<not> placed ndb ns key)"
proof
  assume "Key ndb ns = ''''"
  then show "\<forall>key. \<not> placed ndb ns key"
    using Key_empty [of ndb ns] assms by (auto simp: forest_ok_def)
next
  assume "\<forall>key. \<not> placed ndb ns key"
  then show "Key ndb ns = ''''"
    using Key_placed [of ndb ns] assms by (auto simp: forest_ok_def)
qed

text \<open>Two forests with the same placements give the same keys.\<close>

lemma Key_cong:
  assumes "forest_ok ndb" "forest_ok ndb'" "\<And>key. placed ndb ns key \<longleftrightarrow> placed ndb' ns key"
  shows "Key ndb ns = Key ndb' ns"
proof (cases "Key ndb ns = ''''")
  case True
  then show ?thesis using assms Key_empty_iff by metis
next
  case False
  then show ?thesis using assms Key_eq_iff by metis
qed

subsection \<open>The operations on the map\<close>

lemma ok_mapI:
  assumes "M '''' = None"
    and "\<And>k ms. M k = Some ms \<Longrightarrow> distinct ms \<and> '''' \<notin> set ms"
    and "\<And>k ms m. M k = Some ms \<Longrightarrow> m \<in> set ms \<Longrightarrow> M m = None"
    and "\<And>k ms k' ms' m. M k = Some ms \<Longrightarrow> M k' = Some ms' \<Longrightarrow> m \<in> set ms \<Longrightarrow> m \<in> set ms' \<Longrightarrow> k = k'"
  shows "ok_map M"
  unfolding ok_map_def using assms by (auto simp: disjoint_iff)

lemma ok_map_add:
  assumes ok: "ok_map M" and key: "M key = Some ms" and n: "n \<noteq> ''''" "M n = None"
    and fresh: "\<And>k ms'. M k = Some ms' \<Longrightarrow> n \<notin> set ms'"
  shows "ok_map (M(key \<mapsto> ms @ [n]))"
proof (rule ok_mapI)
  show "(M(key \<mapsto> ms @ [n])) '''' = None"
    using ok key by (auto simp: ok_map_def)
  show "distinct ms' \<and> '''' \<notin> set ms'" if "(M(key \<mapsto> ms @ [n])) k = Some ms'" for k ms'
    using that ok_mapD(1,2) [OF ok] fresh [OF key] key n by (auto split: if_splits)
  show "(M(key \<mapsto> ms @ [n])) m = None" if "(M(key \<mapsto> ms @ [n])) k = Some ms'" "m \<in> set ms'" for k ms' m
    using that ok_mapD(4) [OF ok] key n by (fastforce split: if_splits)
  show "k = k'" if "(M(key \<mapsto> ms @ [n])) k = Some a" "(M(key \<mapsto> ms @ [n])) k' = Some b" "m \<in> set a" "m \<in> set b"
    for k k' a b m
    using that ok_mapD(5) [OF ok] fresh key by (fastforce split: if_splits)
qed

lemma ok_map_new:
  assumes ok: "ok_map M" and n: "n \<noteq> ''''" and fresh: "\<And>k ms'. M k = Some ms' \<Longrightarrow> n \<notin> set ms'"
  shows "ok_map (M(n \<mapsto> []))"
proof (rule ok_mapI)
  show "(M(n \<mapsto> [])) '''' = None"
    using ok n by (auto simp: ok_map_def)
  show "distinct ms' \<and> '''' \<notin> set ms'" if "(M(n \<mapsto> [])) k = Some ms'" for k ms'
    using that ok_mapD(1,2) [OF ok] by (auto split: if_splits)
  show "(M(n \<mapsto> [])) m = None" if "(M(n \<mapsto> [])) k = Some ms'" "m \<in> set ms'" for k ms' m
    using that ok_mapD(4) [OF ok] fresh by (fastforce split: if_splits)
  show "k = k'" if "(M(n \<mapsto> [])) k = Some a" "(M(n \<mapsto> [])) k' = Some b" "m \<in> set a" "m \<in> set b"
    for k k' a b m
    using that ok_mapD(5) [OF ok] by (fastforce split: if_splits)
qed

lemma ok_map_shrink:
  assumes ok: "ok_map M" and key: "M key = Some ms" and sub: "distinct ms'" "set ms' \<subseteq> set ms"
  shows "ok_map (M(key \<mapsto> ms'))"
proof (rule ok_mapI)
  show "(M(key \<mapsto> ms')) '''' = None"
    using ok key by (auto simp: ok_map_def)
  show "distinct a \<and> '''' \<notin> set a" if "(M(key \<mapsto> ms')) k = Some a" for k a
    using that ok_mapD(1,2) [OF ok] key sub by (fastforce split: if_splits)
  show "(M(key \<mapsto> ms')) m = None" if "(M(key \<mapsto> ms')) k = Some a" "m \<in> set a" for k a m
    using that ok_mapD(4) [OF ok] key sub by (fastforce split: if_splits)
  show "k = k'" if "(M(key \<mapsto> ms')) k = Some a" "(M(key \<mapsto> ms')) k' = Some b" "m \<in> set a" "m \<in> set b"
    for k k' a b m
    using that ok_mapD(5) [OF ok] key sub by (fastforce split: if_splits)
qed

lemma ok_map_drop: "ok_map M \<Longrightarrow> ok_map (M(key := None))"
  unfolding ok_map_def by auto

subsection \<open>RemoveNS on a slice without repetitions\<close>

lemma removeLoop_none:
  "(\<And>j. i \<le> j \<Longrightarrow> j < i + k \<Longrightarrow> arr ! j \<noteq> n) \<Longrightarrow> removeLoop n i k arr len = OK (arr, len)"
  by (induction n i k arr len rule: removeLoop.induct) auto

lemma removeLoop_skip:
  "(\<And>j. i \<le> j \<Longrightarrow> j < i + d \<Longrightarrow> arr ! j \<noteq> n) \<Longrightarrow>
   removeLoop n i (d + k) arr len = removeLoop n (i + d) k arr len"
proof (induction d arbitrary: i)
  case (Suc d)
  have "removeLoop n (Suc i) (d + k) arr len = removeLoop n (Suc i + d) k arr len"
    by (rule Suc.IH) (use Suc.prems in auto)
  moreover have "arr ! i \<noteq> n" using Suc.prems [of i] by simp
  ultimately show ?case by simp
qed simp

lemma removeLoop_distinct:
  assumes "distinct (a @ n # b)"
  shows "\<exists>arr. removeLoop n 0 (length (a @ n # b)) (a @ n # b) (length (a @ n # b)) = OK (arr, length (a @ b))
           \<and> take (length (a @ b)) arr = a @ b"
proof -
  let ?xs = "a @ n # b" and ?l = "length a"
  let ?arr = "shift_left ?l (length ?xs) ?xs"
  have arr: "?arr = a @ b @ drop (length (a @ b)) ?xs"
    by (simp add: shift_left_def)
  have last: "drop (length (a @ b)) ?xs = [last (n # b)]"
    by (cases b rule: rev_cases) auto
  have "?xs ! j \<noteq> n" if "j < ?l" for j
    using that assms by (auto simp: nth_append)
  then have "removeLoop n 0 (?l + Suc (length b)) ?xs (length ?xs) = removeLoop n ?l (Suc (length b)) ?xs (length ?xs)"
    using removeLoop_skip [of 0 ?l ?xs n "Suc (length b)" "length ?xs"] by (simp only: add_0 simp_thms)
  also have "\<dots> = removeLoop n (Suc ?l) (length b) ?arr (length (a @ b))"
    by simp
  also have "\<dots> = OK (?arr, length (a @ b))"
  proof (rule removeLoop_none)
    fix j assume j: "Suc ?l \<le> j" "j < Suc ?l + length b"
    then have b: "b \<noteq> []" by auto
    have "?arr ! j \<in> set b"
    proof (cases "j < length (a @ b)")
      case True
      then have "j - ?l < length b" using j by auto
      then have "?arr ! j = b ! (j - ?l)" using j by (simp only: arr last) (simp add: nth_append)
      then show ?thesis using True j by simp
    next
      case False
      then have "j = length (a @ b)" using j by simp
      then have "?arr ! j = last (n # b)" by (simp only: arr last) (simp add: nth_append)
      then show ?thesis using b by simp
    qed
    then show "?arr ! j \<noteq> n" using assms by auto
  qed
  finally have "removeLoop n 0 (length ?xs) ?xs (length ?xs) = OK (?arr, length (a @ b))"
    by (simp only: length_append list.size add_Suc_right add_0_right)
  then show ?thesis using arr by (auto simp del: append.simps)
qed

lemma RemoveNS_distinct:
  assumes "map_of ndb key = Some ms" "distinct ms"
  shows "RemoveNS n key ndb = OK (AList.update key (remove1 n ms) ndb)"
proof (cases "n \<in> set ms")
  case True
  then obtain a b where ms: "ms = a @ n # b" by (meson split_list)
  then have "n \<notin> set a" using assms(2) by auto
  then have "remove1 n ms = a @ b" by (simp add: ms remove1_append)
  then show ?thesis
    using removeLoop_distinct [of a n b] assms by (auto simp: RemoveNS_def ms)
next
  case False
  then have "ms ! j \<noteq> n" if "j < length ms" for j using that nth_mem by metis
  then have "removeLoop n 0 (length ms) ms (length ms) = OK (ms, length ms)"
    by (intro removeLoop_none) simp
  then show ?thesis using assms False by (simp add: RemoveNS_def remove1_idem)
qed

subsection \<open>The interface of the database\<close>

text \<open>
  What the controllers and webhooks rely on: a namespace that is in no hierarchy can be added as a
  new key or under an existing key, a member can be removed, a key can be dropped with all its
  members, and each operation changes the keys of the named namespaces only. \<open>fold_outcome\<close> runs
  a fallible operation along a list.
\<close>

fun fold_outcome :: "('a \<Rightarrow> 'b \<Rightarrow> 'b outcome) \<Rightarrow> 'a list \<Rightarrow> 'b \<Rightarrow> 'b outcome" where
  "fold_outcome f [] b = OK b"
| "fold_outcome f (a # as) b = obind (f a b) (fold_outcome f as)"

locale namespace_db =
  fixes ok :: "'db \<Rightarrow> bool"
    and key_of :: "'db \<Rightarrow> string \<Rightarrow> string"
    and count :: "'db \<Rightarrow> string \<Rightarrow> nat"
    and add :: "string \<Rightarrow> string \<Rightarrow> 'db \<Rightarrow> 'db outcome"
    and remove :: "string \<Rightarrow> string \<Rightarrow> 'db \<Rightarrow> 'db outcome"
    and drop_key :: "string \<Rightarrow> 'db \<Rightarrow> 'db"
  assumes key_idem: "ok db \<Longrightarrow> key_of db (key_of db n) = key_of db n"
    and key_Nil: "ok db \<Longrightarrow> key_of db '''' = ''''"
    and add_key: "ok db \<Longrightarrow> n \<noteq> '''' \<Longrightarrow> key_of db n = '''' \<Longrightarrow>
        \<exists>db'. add n n db = OK db' \<and> ok db' \<and> key_of db' = (key_of db)(n := n) \<and>
              count db' = (count db)(n := 0)"
    and add_member: "ok db \<Longrightarrow> n \<noteq> '''' \<Longrightarrow> key_of db n = '''' \<Longrightarrow> key \<noteq> '''' \<Longrightarrow> key_of db key = key \<Longrightarrow>
        \<exists>db'. add key n db = OK db' \<and> ok db' \<and> key_of db' = (key_of db)(n := key) \<and>
              count db' = (count db)(key := Suc (count db key))"
    and remove_member: "ok db \<Longrightarrow> n \<noteq> key \<Longrightarrow> key \<noteq> '''' \<Longrightarrow> key_of db n = key \<Longrightarrow>
        \<exists>db'. remove n key db = OK db' \<and> ok db' \<and> key_of db' = (key_of db)(n := '''') \<and>
              count db' = (count db)(key := count db key - 1)"
    and drop_key: "ok db \<Longrightarrow> key \<noteq> '''' \<Longrightarrow> key_of db key = key \<Longrightarrow>
        ok (drop_key key db) \<and>
        key_of (drop_key key db) = (\<lambda>n. if key_of db n = key then '''' else key_of db n)"
begin

text \<open>Moving a member to another key, and a list of members: only the new key may count more than before.\<close>

lemma move_member:
  assumes "ok db" "n \<noteq> old" "old \<noteq> ''''" "key_of db n = old" "n \<noteq> ''''" "new \<noteq> ''''" "key_of db new = new"
  shows "\<exists>db'. obind (remove n old db) (add new n) = OK db' \<and> ok db' \<and> key_of db' = (key_of db)(n := new) \<and>
           (\<forall>key. count db' key \<le> count db key + of_bool (key = new))"
proof -
  obtain d1 where d1: "remove n old db = OK d1" "ok d1" "key_of d1 = (key_of db)(n := '''')"
    "count d1 = (count db)(old := count db old - 1)"
    using remove_member [of db n old] assms by blast
  have "n \<noteq> new" using assms by auto
  then obtain db' where db': "add new n d1 = OK db'" "ok db'" "key_of db' = (key_of d1)(n := new)"
    "count db' = (count d1)(new := Suc (count d1 new))"
    using add_member [of d1 n new] d1 assms by auto
  have "count db' key \<le> count db key + of_bool (key = new)" for key by (simp add: d1(4) db'(4))
  with d1(1,3) db'(1-3) show ?thesis by auto
qed

lemma move_members:
  assumes "ok db" "old \<noteq> ''''" "new \<noteq> ''''" "key_of db new = new" "distinct ns" "'''' \<notin> set ns" "old \<notin> set ns"
    and "\<And>n. n \<in> set ns \<Longrightarrow> key_of db n = old"
  shows "\<exists>db'. fold_outcome (\<lambda>n d. obind (remove n old d) (add new n)) ns db = OK db' \<and> ok db' \<and>
           key_of db' = (\<lambda>n. if n \<in> set ns then new else key_of db n) \<and>
           (\<forall>key. count db' key \<le> count db key + of_bool (key = new) * length ns)"
  using assms
proof (induction ns arbitrary: db)
  case Nil
  then show ?case by auto
next
  case (Cons n ns)
  have n: "key_of db n = old" "n \<noteq> old" "n \<noteq> ''''" using Cons.prems by auto
  then have "n \<noteq> new" using Cons.prems by auto
  obtain d1 where d1: "obind (remove n old db) (add new n) = OK d1" "ok d1" "key_of d1 = (key_of db)(n := new)"
    "\<And>key. count d1 key \<le> count db key + of_bool (key = new)"
    using move_member [of db n old new] n Cons.prems by blast
  have key: "key_of d1 m = old" if "m \<in> set ns" for m using that d1(3) Cons.prems by auto
  obtain db' where db': "fold_outcome (\<lambda>n d. obind (remove n old d) (add new n)) ns d1 = OK db'" "ok db'"
    "key_of db' = (\<lambda>m. if m \<in> set ns then new else key_of d1 m)"
    "\<And>key. count db' key \<le> count d1 key + of_bool (key = new) * length ns"
    using Cons.IH [OF d1(2)] key Cons.prems d1(3) \<open>n \<noteq> new\<close> by auto
  have "count db' key \<le> count db key + of_bool (key = new) * length (n # ns)" for key
    using d1(4) [of key] db'(4) [of key] by (cases "key = new") simp_all
  with d1(1,3) db'(1-3) show ?case by (auto simp: fun_eq_iff)
qed

text \<open>Removing a namespace the way clean-up does: no namespace keeps a key it lost, and no other
  hierarchy is touched.\<close>

lemma forget_member:
  assumes "ok db" "key_of db n \<noteq> ''''" "key_of db n \<noteq> n"
  shows "\<exists>db'. remove n (key_of db n) db = OK db' \<and> ok db' \<and> key_of db' = (key_of db)(n := '''')"
  using remove_member [of db n "key_of db n"] assms by auto

end

lemma placed_update:
  "placed (AList.update key ms ndb) n k \<longleftrightarrow> (if k = key then n = key \<or> n \<in> set ms else placed ndb n k)"
  by (auto simp: placed_def)

lemma unplaced: "forest_ok ndb \<Longrightarrow> Key ndb n = '''' \<Longrightarrow> map_of ndb k = Some ms \<Longrightarrow> n \<noteq> k \<and> n \<notin> set ms"
  using Key_empty_iff placed_def by blast

lemma Key_self: "forest_ok ndb \<Longrightarrow> key \<noteq> '''' \<Longrightarrow> Key ndb key = key \<longleftrightarrow> map_of ndb key \<noteq> None"
  using Key_eq_iff [of ndb key key] by (auto simp: placed_def)

lemma Key_of_placed:
  assumes "forest_ok ndb" "forest_ok ndb'" "\<And>m k. m \<noteq> n \<Longrightarrow> placed ndb' m k \<longleftrightarrow> placed ndb m k"
    "key \<noteq> '''' \<Longrightarrow> placed ndb' n key" "key = '''' \<Longrightarrow> \<forall>k. \<not> placed ndb' n k"
  shows "Key ndb' = (Key ndb)(n := key)"
proof
  fix m
  show "Key ndb' m = ((Key ndb)(n := key)) m"
  proof (cases "m = n")
    case True
    then show ?thesis
      using Key_eq_iff [OF assms(2), of key n] Key_empty_iff [OF assms(2), of n] assms(4,5) by (cases "key = ''''") auto
  next
    case False
    then show ?thesis using Key_cong [OF assms(2,1)] assms(3) by auto
  qed
qed

lemma addNSToKey_new:
  assumes ok: "forest_ok ndb" and n: "n \<noteq> ''''" "Key ndb n = ''''"
  shows "\<exists>ndb'. addNSToKey n n ndb = OK ndb' \<and> forest_ok ndb' \<and> Key ndb' = (Key ndb)(n := n) \<and>
     KeyCount ndb' = (KeyCount ndb)(n := 0)"
proof (intro exI conjI)
  let ?new = "AList.update n [] ndb"
  show "addNSToKey n n ndb = OK ?new" by (simp add: addNSToKey_def)
  have fresh: "map_of ndb k = Some ms \<Longrightarrow> n \<notin> set ms" for k ms
    using unplaced [OF ok n(2)] by blast
  have none: "map_of ndb n = None"
    using unplaced [OF ok n(2), of n] by (cases "map_of ndb n") auto
  show ok': "forest_ok ?new"
    using ok ok_map_new [of "map_of ndb", OF _ n(1) fresh] by (simp add: forest_ok_iff update_conv')
  show "Key ?new = (Key ndb)(n := n)"
    by (rule Key_of_placed [OF ok ok']) (use none n in \<open>auto simp: placed_update placed_def\<close>)
  show "KeyCount ?new = (KeyCount ndb)(n := 0)"
    by (auto simp: KeyCount_def members_def fun_eq_iff)
qed

lemma addNSToKey_member:
  assumes ok: "forest_ok ndb" and n: "n \<noteq> ''''" "Key ndb n = ''''" and key: "key \<noteq> ''''" "Key ndb key = key"
  shows "\<exists>ndb'. addNSToKey key n ndb = OK ndb' \<and> forest_ok ndb' \<and> Key ndb' = (Key ndb)(n := key) \<and>
     KeyCount ndb' = (KeyCount ndb)(key := Suc (KeyCount ndb key))"
proof -
  obtain ms where ms: "map_of ndb key = Some ms" using Key_self [OF ok key(1)] key(2) by auto
  have neq: "key \<noteq> n" using n key by auto
  let ?new = "AList.update key (ms @ [n]) ndb"
  have fresh: "map_of ndb k = Some ms' \<Longrightarrow> n \<notin> set ms'" for k ms'
    using unplaced [OF ok n(2)] by blast
  have none: "map_of ndb n = None"
    using unplaced [OF ok n(2), of n] by (cases "map_of ndb n") auto
  have ok': "forest_ok ?new"
    using ok ok_map_add [OF _ ms n(1) none fresh] by (simp add: forest_ok_iff update_conv')
  have "addNSToKey key n ndb = OK ?new" using neq ms by (simp add: addNSToKey_def)
  moreover have "Key ?new = (Key ndb)(n := key)"
    by (rule Key_of_placed [OF ok ok']) (use ms key in \<open>auto simp: placed_update placed_def\<close>)
  moreover have "KeyCount ?new = (KeyCount ndb)(key := Suc (KeyCount ndb key))"
    using ms by (auto simp: KeyCount_def members_def fun_eq_iff)
  ultimately show ?thesis using ok' by blast
qed

lemma RemoveNS_member:
  assumes ok: "forest_ok ndb" and n: "n \<noteq> key" and key: "key \<noteq> ''''" "Key ndb n = key"
  shows "\<exists>ndb'. RemoveNS n key ndb = OK ndb' \<and> forest_ok ndb' \<and> Key ndb' = (Key ndb)(n := '''') \<and>
     KeyCount ndb' = (KeyCount ndb)(key := KeyCount ndb key - 1)"
proof -
  obtain ms where ms: "map_of ndb key = Some ms" "n \<in> set ms"
    using Key_eq_iff [OF ok key(1), of n] key(2) n by (auto simp: placed_def)
  have okm: "ok_map (map_of ndb)" using ok by (simp add: forest_ok_iff)
  have dist: "distinct ms" using ok_mapD(1) [OF okm ms(1)] .
  let ?new = "AList.update key (remove1 n ms) ndb"
  have ok': "forest_ok ?new"
    using ok ok_map_shrink [OF okm ms(1), of "remove1 n ms"] dist
    by (simp add: forest_ok_iff update_conv' set_remove1_subset)
  have only: "placed ndb n k \<Longrightarrow> k = key" for k
    using placed_unique [OF ok, of n k key] Key_eq_iff [OF ok key(1), of n] key(2) by blast
  have "RemoveNS n key ndb = OK ?new" by (rule RemoveNS_distinct [OF ms(1) dist])
  moreover have "Key ?new = (Key ndb)(n := '''')"
    by (rule Key_of_placed [OF ok ok'])
       (use ms only dist n in \<open>auto simp: placed_update placed_def split: if_splits\<close>)
  moreover have "KeyCount ?new = (KeyCount ndb)(key := KeyCount ndb key - 1)"
    using ms by (auto simp: KeyCount_def members_def fun_eq_iff length_remove1)
  ultimately show ?thesis using ok' by blast
qed

lemma DeleteKey_key:
  assumes ok: "forest_ok ndb" and key: "key \<noteq> ''''" "Key ndb key = key"
  shows "forest_ok (DeleteKey key ndb) \<and>
     Key (DeleteKey key ndb) = (\<lambda>n. if Key ndb n = key then '''' else Key ndb n)"
proof
  show ok': "forest_ok (DeleteKey key ndb)"
    using ok ok_map_drop [of "map_of ndb" key]
    by (simp add: forest_ok_iff DeleteKey_def delete_conv' distinct_delete)
  have placed: "placed (DeleteKey key ndb) n k \<longleftrightarrow> k \<noteq> key \<and> placed ndb n k" for n k
    by (auto simp: placed_def DeleteKey_def)
  show "Key (DeleteKey key ndb) = (\<lambda>n. if Key ndb n = key then '''' else Key ndb n)"
  proof
    fix n
    show "Key (DeleteKey key ndb) n = (if Key ndb n = key then '''' else Key ndb n)"
    proof (cases "Key ndb n = key")
      case True
      then have "placed ndb n key" using Key_eq_iff [OF ok key(1)] by blast
      then show ?thesis
        using True placed_unique [OF ok] Key_empty_iff [OF ok', of n] by (auto simp: placed)
    next
      case False
      then have "placed (DeleteKey key ndb) n k \<longleftrightarrow> placed ndb n k" for k
        using Key_eq_iff [OF ok key(1), of n] by (auto simp: placed)
      then show ?thesis using Key_cong [OF ok' ok] False by auto
    qed
  qed
qed

lemma Key_Nil:
  assumes ok: "forest_ok ndb"
  shows "Key ndb '''' = ''''"
proof -
  have "ok_map (map_of ndb)" using ok by (simp add: forest_ok_iff)
  then have "\<not> placed ndb '''' k" for k
    unfolding placed_def using ok_mapD(2,3) by metis
  then show ?thesis using Key_empty_iff [OF ok] by blast
qed

lemma Key_idem:
  assumes "forest_ok ndb"
  shows "Key ndb (Key ndb n) = Key ndb n"
proof (cases "Key ndb n = ''''")
  case True
  then show ?thesis using Key_Nil [OF assms] by simp
next
  case False
  then have "placed ndb n (Key ndb n)" using Key_placed assms by (auto simp: forest_ok_def)
  then show ?thesis using Key_self [OF assms False] by (auto simp: placed_def)
qed

interpretation ndb: namespace_db forest_ok Key KeyCount addNSToKey RemoveNS DeleteKey
proof unfold_locales
  fix db n key
  assume ok: "forest_ok db"
  show "Key db (Key db n) = Key db n" by (rule Key_idem [OF ok])
  show "Key db '''' = ''''" by (rule Key_Nil [OF ok])
  show "\<exists>db'. addNSToKey n n db = OK db' \<and> forest_ok db' \<and> Key db' = (Key db)(n := n) \<and>
      KeyCount db' = (KeyCount db)(n := 0)" if "n \<noteq> ''''" "Key db n = ''''"
    by (rule addNSToKey_new [OF ok that])
  show "\<exists>db'. addNSToKey key n db = OK db' \<and> forest_ok db' \<and> Key db' = (Key db)(n := key) \<and>
      KeyCount db' = (KeyCount db)(key := Suc (KeyCount db key))"
    if "n \<noteq> ''''" "Key db n = ''''" "key \<noteq> ''''" "Key db key = key"
    by (rule addNSToKey_member [OF ok that])
  show "\<exists>db'. RemoveNS n key db = OK db' \<and> forest_ok db' \<and> Key db' = (Key db)(n := '''') \<and>
      KeyCount db' = (KeyCount db)(key := KeyCount db key - 1)"
    if "n \<noteq> key" "key \<noteq> ''''" "Key db n = key"
    by (rule RemoveNS_member [OF ok that])
  show "forest_ok (DeleteKey key db) \<and>
      Key (DeleteKey key db) = (\<lambda>n. if Key db n = key then '''' else Key db n)"
    if "key \<noteq> ''''" "Key db key = key"
    by (rule DeleteKey_key [OF ok that])
qed

subsection \<open>Properties\<close>

text \<open>The key found for a namespace does not depend on the order in which the map is iterated.\<close>

lemma Key_order_independent:
  assumes "forest_ok ndb" "set ndb' = set ndb" "distinct (map fst ndb')"
  shows "forest_ok ndb' \<and> Key ndb' ns = Key ndb ns"
proof -
  have "map_of ndb' = map_of ndb"
    using assms map_of_inject_set [of ndb' ndb] by (simp add: forest_ok_def)
  then have "forest_ok ndb'" "placed ndb' ns k \<longleftrightarrow> placed ndb ns k" for k
    using assms by (simp_all add: forest_ok_iff placed_def)
  then show ?thesis using Key_cong assms(1) by blast
qed

lemma on_forest_OK: "f (crqForest s) = OK F \<Longrightarrow> on_forest f s = (OK (), s\<lparr>crqForest := F\<rparr>)"
  by (simp add: on_forest_def)

lemma wrapf_on_forest_OK:
  "f (crqForest s) = OK F \<Longrightarrow> wrapf g as (on_forest f) s = (OK (), s\<lparr>crqForest := F\<rparr>)"
  by (simp add: wrapf_OK_iff on_forest_OK)

lemma AddNS_under_key:
  assumes "forest_ok (crqForest s)" "meta_name sns \<noteq> ''''" "Key (crqForest s) (meta_name sns) = ''''"
    "Key (crqForest s) (meta_namespace sns) \<noteq> ''''"
  shows "\<exists>F. AddNS E sns s = (OK (), s\<lparr>crqForest := F\<rparr>) \<and> forest_ok F \<and>
     Key F = (Key (crqForest s))(meta_name sns := Key (crqForest s) (meta_namespace sns)) \<and>
     KeyCount F = (KeyCount (crqForest s))(Key (crqForest s) (meta_namespace sns) :=
       Suc (KeyCount (crqForest s) (Key (crqForest s) (meta_namespace sns))))"
  using ndb.add_member [OF assms(1-4) ndb.key_idem [OF assms(1)]] assms(4)
  by (auto simp: AddNS_def bind_reads isKeyEmpty_def wrapf_on_forest_OK)

lemma AddNS_new_key:
  assumes "forest_ok (crqForest s)" "meta_name sns \<noteq> ''''" "Key (crqForest s) (meta_name sns) = ''''"
    "Key (crqForest s) (meta_namespace sns) = ''''" "Get (api_crq E) (world s) (nskey (meta_name sns)) = OK crq"
  shows "\<exists>F. AddNS E sns s = (OK (), s\<lparr>crqForest := F\<rparr>) \<and> forest_ok F \<and>
     Key F = (Key (crqForest s))(meta_name sns := meta_name sns)"
  using ndb.add_key [OF assms(1-3)] assms(4,5)
  by (auto simp: AddNS_def bind_reads isKeyEmpty_def wrapf_on_forest_OK)

lemma AddNS_no_quota:
  assumes "Key (crqForest s) (meta_namespace sns) = ''''" "Get (api_crq E) (world s) (nskey (meta_name sns)) = Err e"
  shows "AddNS E sns s = (if IsNotFound e then OK () else Err e, s)"
  using assms by (auto simp: AddNS_def bind_reads isKeyEmpty_def)

lemma AddNS_counts:
  fixes s :: "('w, 'q) hns"
  assumes "forest_ok (crqForest s)" "meta_name sns \<noteq> ''''" "Key (crqForest s) (meta_name sns) = ''''"
    "Key (crqForest s) (meta_namespace sns) = ''''"
  shows "KeyCount (crqForest (snd (AddNS E sns s))) key \<in> {KeyCount (crqForest s) key, 0}"
proof (cases "Get (api_crq E) (world s) (nskey (meta_name sns))")
  case (OK crq)
  from ndb.add_key [OF assms(1-3)] obtain F where "addNSToKey (meta_name sns) (meta_name sns) (crqForest s) = OK F"
    "KeyCount F = (KeyCount (crqForest s))(meta_name sns := 0)" by blast
  then show ?thesis
    using OK assms(4) by (simp add: AddNS_def bind_reads isKeyEmpty_def wrapf_on_forest_OK)
qed (use assms(4) in \<open>simp_all add: AddNS_def bind_reads isKeyEmpty_def\<close>)

lemma EnsureSNSInDB_cases:
  "EnsureSNSInDB E sns s =
     (if Key (crqForest s) (oc_name sns) \<noteq> '''' then (OK (), s)
      else (case IsRQ E (world s) sns SelfOffset of
              OK rq \<Rightarrow> if rq then (OK (), s) else AddNS E (oc_object sns) s
            | Err e \<Rightarrow> (Err e, s) | Panic \<Rightarrow> (Panic, s)))"
  by (simp add: EnsureSNSInDB_def bind_reads go_defs split: outcome.splits)

lemma Get_cases: "(\<exists>x. Get k w key = OK x) \<or> (\<exists>e. Get k w key = Err e)"
  by (auto simp: Get_def split: sum.splits)

lemma EnsureSNSInDB_forest:
  fixes s :: "('w, 'q) hns"
  assumes "forest_ok (crqForest s)" "oc_name sns \<noteq> ''''"
  shows "\<exists>F. snd (EnsureSNSInDB E sns s) = s\<lparr>crqForest := F\<rparr> \<and> forest_ok F \<and>
     (\<forall>n. n \<noteq> oc_name sns \<or> Key (crqForest s) n \<noteq> '''' \<longrightarrow> Key F n = Key (crqForest s) n)"
proof -
  have same: "s = s\<lparr>crqForest := crqForest s\<rparr>" by simp
  show ?thesis
  proof (cases "Key (crqForest s) (oc_name sns) = '''' \<and> IsRQ E (world s) sns SelfOffset = OK False")
    case True
    then have "EnsureSNSInDB E sns s = AddNS E (oc_object sns) s"
      by (simp add: EnsureSNSInDB_cases)
    then show ?thesis
      using True AddNS_under_key [OF assms, of E] AddNS_new_key [OF assms, of E] AddNS_no_quota [of s "oc_object sns" E]
        Get_cases [of "api_crq E" "world s" "nskey (oc_name sns)"] assms(1) same
      by (cases "Key (crqForest s) (oc_namespace sns) = ''''") (fastforce split: if_splits)+
  next
    case False
    then have "snd (EnsureSNSInDB E sns s) = s\<lparr>crqForest := crqForest s\<rparr>"
      by (auto simp: EnsureSNSInDB_cases split: outcome.splits)
    then show ?thesis using assms(1) by blast
  qed
qed

text \<open>C31: a subnamespace bound to a ClusterResourceQuota, whose parent is in a hierarchy, enters the
  hierarchy of its parent, and the count of that hierarchy grows by one.\<close>

theorem EnsureSNSInDB_joins_parent:
  fixes s :: "('w, 'q) hns"
  assumes "forest_ok (crqForest s)" "oc_name sns \<noteq> ''''" "Key (crqForest s) (oc_name sns) = ''''"
    "IsRQ E (world s) sns SelfOffset = OK False" "Key (crqForest s) (oc_namespace sns) \<noteq> ''''"
  shows "\<exists>F. EnsureSNSInDB E sns s = (OK (), s\<lparr>crqForest := F\<rparr>) \<and>
     Key F (oc_name sns) = Key (crqForest s) (oc_namespace sns) \<and>
     KeyCount F (Key F (oc_name sns)) = Suc (KeyCount (crqForest s) (Key (crqForest s) (oc_namespace sns)))"
  using AddNS_under_key [OF assms(1-3,5), of E] assms(3-5) by (auto simp: EnsureSNSInDB_cases)

subsection \<open>Migration in the forest\<close>

lemma migrate_child_move:
  assumes "old \<noteq> ''''" "old \<noteq> sns" "new \<noteq> ''''" "obind (RemoveNS c old (crqForest s)) (addNSToKey new c) = OK F"
  shows "migrate_child old new sns c s = (OK (), s\<lparr>crqForest := F\<rparr>)"
proof -
  obtain F1 where F1: "RemoveNS c old (crqForest s) = OK F1" "addNSToKey new c F1 = OK F"
    using assms(4) by (auto simp: obind_OK_iff)
  have "wrapf f as (on_forest (RemoveNS c old)) s = (OK (), s\<lparr>crqForest := F1\<rparr>)" for f as
    using F1 by (simp add: wrapf_on_forest_OK)
  moreover have "wrapf f as (on_forest (addNSToKey new c)) (s\<lparr>crqForest := F1\<rparr>) = (OK (), s\<lparr>crqForest := F\<rparr>)" for f as
    using F1 by (simp add: wrapf_on_forest_OK)
  ultimately show ?thesis using assms(1-3) by (simp add: migrate_child_def isKeyEmpty_def bind_step)
qed

lemma migrate_children_move:
  assumes "old \<noteq> ''''" "old \<noteq> sns" "new \<noteq> ''''"
    "fold_outcome (\<lambda>c d. obind (RemoveNS c old d) (addNSToKey new c)) (map oc_name children) (crqForest s) = OK F"
  shows "for_each children (\<lambda>child. migrate_child old new sns (oc_name child)) s = (OK (), s\<lparr>crqForest := F\<rparr>)"
  using assms(4)
proof (induction children arbitrary: s)
  case Nil
  then show ?case by (simp add: ret_def)
next
  case (Cons c cs)
  then obtain F1 where F1: "obind (RemoveNS (oc_name c) old (crqForest s)) (addNSToKey new (oc_name c)) = OK F1"
    "fold_outcome (\<lambda>c d. obind (RemoveNS c old d) (addNSToKey new c)) (map oc_name cs) F1 = OK F"
    by (auto simp: obind_OK_iff obind_assoc)
  then show ?case
    using Cons.IH [of "s\<lparr>crqForest := F1\<rparr>"] migrate_child_move [OF assms(1-3) F1(1)] by (simp add: bind_step)
qed

lemma MigrateNSHierarchy_moved:
  fixes s :: "('w, 'q) hns"
  assumes "forest_ok (crqForest s)"
    and "Key (crqForest s) snsName \<noteq> ''''" "Key (crqForest s) snsName \<noteq> snsName" "Key (crqForest s) dest \<noteq> ''''"
    and "New (api_ns E) (world s) (nskey snsName) empty_meta = OK ns"
    and "GetAllChildren_ns E (world s) (stack_limit E) (Some ns) = OK children"
    and "distinct (map oc_name children)"
    and "\<And>n. n \<in> set (map oc_name children) \<Longrightarrow>
           n \<noteq> '''' \<and> n \<noteq> Key (crqForest s) snsName \<and> Key (crqForest s) n = Key (crqForest s) snsName"
  shows "\<exists>F. MigrateNSHierarchy E snsName dest s = (OK (), s\<lparr>crqForest := F\<rparr>) \<and> forest_ok F \<and>
     Key F = (\<lambda>n. if n \<in> set (map oc_name children) then Key (crqForest s) dest else Key (crqForest s) n) \<and>
     (\<forall>key. KeyCount F key \<le> KeyCount (crqForest s) key + of_bool (key = Key (crqForest s) dest) * length children)"
proof -
  let ?old = "Key (crqForest s) snsName" and ?new = "Key (crqForest s) dest"
  have names: "'''' \<notin> set (map oc_name children)" "?old \<notin> set (map oc_name children)"
    "\<And>n. n \<in> set (map oc_name children) \<Longrightarrow> Key (crqForest s) n = ?old"
    using assms(8) by blast+
  from ndb.move_members [OF assms(1,2,4) ndb.key_idem [OF assms(1)] assms(7) names]
  obtain F where F: "fold_outcome (\<lambda>c d. obind (RemoveNS c ?old d) (addNSToKey ?new c)) (map oc_name children) (crqForest s) = OK F"
    "forest_ok F" "Key F = (\<lambda>n. if n \<in> set (map oc_name children) then ?new else Key (crqForest s) n)"
    "\<forall>key. KeyCount F key \<le> KeyCount (crqForest s) key + of_bool (key = ?new) * length (map oc_name children)"
    by blast
  then have "MigrateNSHierarchy E snsName dest s = (OK (), s\<lparr>crqForest := F\<rparr>)"
    using assms(2-6) migrate_children_move [OF assms(2,3,4) F(1)] by (simp add: MigrateNSHierarchy_def bind_reads)
  then show ?thesis using F unfolding length_map by blast
qed

text \<open>C21: migrating a subnamespace that is inside a hierarchy moves it and all its descendants to the
  hierarchy of the new parent, and moves nothing else.\<close>

theorem MigrateNSHierarchy_moves:
  fixes s :: "('w, 'q) hns"
  assumes "forest_ok (crqForest s)"
    and "Key (crqForest s) snsName \<noteq> ''''" "Key (crqForest s) snsName \<noteq> snsName" "Key (crqForest s) dest \<noteq> ''''"
    and "New (api_ns E) (world s) (nskey snsName) empty_meta = OK ns"
    and "GetAllChildren_ns E (world s) (stack_limit E) (Some ns) = OK children"
    and "distinct (map oc_name children)"
    and "\<And>n. n \<in> set (map oc_name children) \<Longrightarrow>
           n \<noteq> '''' \<and> n \<noteq> Key (crqForest s) snsName \<and> Key (crqForest s) n = Key (crqForest s) snsName"
  shows "\<exists>F. MigrateNSHierarchy E snsName dest s = (OK (), s\<lparr>crqForest := F\<rparr>) \<and> forest_ok F \<and>
     Key F = (\<lambda>n. if n \<in> set (map oc_name children) then Key (crqForest s) dest else Key (crqForest s) n)"
  using MigrateNSHierarchy_moved [OF assms] by blast

subsection \<open>Instances\<close>

lemma Key_order_independent_instance:
  "Key [(''d'', []), (''b'', [''c''])] ''c'' = Key [(''b'', [''c'']), (''d'', [])] ''c''"
  using Key_order_independent [of "[(''b'', [''c'']), (''d'', [])]" "[(''d'', []), (''b'', [''c''])]" "''c''"]
  by (auto simp: forest_ok_def)

lemma sample_forest_ok: "forest_ok sample_forest"
  by code_simp

lemma EnsureSNSInDB_forest_instance:
  "\<exists>F. snd (EnsureSNSInDB mem_env (ctx (mk_sns ''c'' ''e'' Missing [])) (mem_state sample sample_forest)) =
         (mem_state sample sample_forest)\<lparr>crqForest := F\<rparr> \<and> forest_ok F \<and> Key F ''c'' = ''b''"
proof -
  have "crqForest (mem_state sample sample_forest) = sample_forest" by (simp add: mem_state_def)
  moreover have "Key sample_forest ''c'' = ''b''" by code_simp
  moreover have "oc_name (ctx (mk_sns ''c'' ''e'' Missing [])) = ''e''" by code_simp
  ultimately show ?thesis
    using EnsureSNSInDB_forest [of "mem_state sample sample_forest" "ctx (mk_sns ''c'' ''e'' Missing [])" mem_env]
      sample_forest_ok by auto
qed

theorem EnsureSNSInDB_joins_parent_witness:
  "\<exists>F. EnsureSNSInDB mem_env (ctx (mk_sns ''c'' ''e'' Missing [])) (mem_state sample sample_forest) =
         (OK (), (mem_state sample sample_forest)\<lparr>crqForest := F\<rparr>) \<and> Key F ''e'' = ''b''"
proof -
  let ?s = "mem_state sample sample_forest" and ?sns = "ctx (mk_sns ''c'' ''e'' Missing [])"
  have "crqForest ?s = sample_forest" "world ?s = sample" by (simp_all add: mem_state_def)
  moreover have "oc_name ?sns = ''e''" "oc_namespace ?sns = ''c''" by code_simp+
  moreover have "Key sample_forest ''c'' = ''b''" "Key sample_forest ''e'' = ''''" by code_simp+
  moreover have "IsRQ mem_env sample ?sns SelfOffset = OK False" by code_simp
  ultimately show ?thesis
    using EnsureSNSInDB_joins_parent [of ?s ?sns mem_env] sample_forest_ok by auto
qed

theorem MigrateNSHierarchy_moves_witness:
  "\<exists>F. MigrateNSHierarchy mem_env ''c'' ''d'' (mem_state sample sample_forest) =
         (OK (), (mem_state sample sample_forest)\<lparr>crqForest := F\<rparr>) \<and> forest_ok F \<and> Key F ''c'' = ''d''"
proof -
  let ?s = "mem_state sample sample_forest" and ?ns = "ctx (mk_ns ''c'' ''b'' ''root/a/b/c'' ''3'')"
  have s: "crqForest ?s = sample_forest" "world ?s = sample" by (simp_all add: mem_state_def)
  have keys: "Key sample_forest ''c'' = ''b''" "Key sample_forest ''d'' = ''d''" by code_simp+
  have ns: "New (api_ns mem_env) sample (nskey ''c'') empty_meta = OK ?ns" by code_simp
  have children: "GetAllChildren_ns mem_env sample (stack_limit mem_env) (Some ?ns) = OK [?ns]" by code_simp
  have nm: "oc_name ?ns = ''c''" by code_simp
  show ?thesis
    using MigrateNSHierarchy_moves [of ?s "''c''" "''d''" mem_env ?ns "[?ns]"] sample_forest_ok
    by (auto simp: s keys ns children nm)
qed

end
