(* ===== verification/SnsValidator.thy ===== *)
theory SnsValidator
  imports NamespaceDB
begin

section \<open>The subnamespace webhook\<close>

text \<open>
  \<^verbatim>\<open>internal/subnamespace\<close>: \<^verbatim>\<open>validator.go\<close>, \<^verbatim>\<open>createvalidator.go\<close>,
  \<^verbatim>\<open>updatevalidator.go\<close>, \<^verbatim>\<open>deletevalidator.go\<close> and \<^verbatim>\<open>commonvalidator.go\<close>. A
  validator only reads: it takes the world and the forest and gives an admission response, or
  panics. A request carries what the decoder makes of its two raw objects.
\<close>

datatype operation = OpCreate | OpUpdate | OpDelete | OpConnect

record 'o admission_request =
  req_operation :: operation
  req_user :: string
  req_object :: "go_error + 'o"
  req_oldObject :: "go_error + 'o"

text \<open>\<^verbatim>\<open>Decoder.DecodeRaw\<close> into the object of a context.\<close>

definition decode_into :: "go_error + 'o \<Rightarrow> 'o object_context \<Rightarrow> 'o object_context outcome" where
  "decode_into d r = (case d of Inl e \<Rightarrow> Err e | Inr obj \<Rightarrow> OK (r\<lparr>oc_object := obj\<rparr>))"

record SubnamespaceValidator =
  sv_NamespaceDB :: forest
  sv_MaxSNS :: int
  sv_OnlyRP :: bool

fun join_names :: "string list \<Rightarrow> string" where
  "join_names [] = ''''"
| "join_names [x] = x"
| "join_names (x # y # ys) = x @ '', '' @ join_names (y # ys)"

subsection \<open>commonvalidator.go\<close>

definition validateUpperResourcePool ::
  "('w, 'q) env \<Rightarrow> 'w \<Rightarrow> 'q subnamespace object_context \<Rightarrow> 'q resource_list \<Rightarrow> response outcome" where
  "validateUpperResourcePool E w snsObject snsQuota =
     or_errored BadRequest (IsSNSUpper E w snsObject) (\<lambda>isSNSUpperResourcePool.
     if isSNSUpperResourcePool \<and> length (mentries snsQuota) = 0
     then OK (Denied ''it's forbidden to create an upper ResourcePool without setting resources'' [])
     else OK (Allowed ''''))"

definition missingResources :: "('w, 'q) env \<Rightarrow> 'q resource_list \<Rightarrow> 'q resource_list \<Rightarrow> string list" where
  "missingResources E params snsQuota =
     filter (\<lambda>r. q_format (qty E) (mgetd (q_zero (qty E)) snsQuota r) = '''') (map fst (mentries params))"

definition validateMissingResources ::
  "('w, 'q) env \<Rightarrow> 'q resource_list \<Rightarrow> 'q resource_list \<Rightarrow> response outcome" where
  "validateMissingResources E resourceQuotaParams snsQuota =
     (let missing = missingResources E resourceQuotaParams snsQuota in
      if length missing > 0
      then OK (Denied ''it's forbidden to set a subnamespace without providing requested amount of %s'' [join_names missing])
      else OK (Allowed ''''))"

definition negativeResources :: "('w, 'q) env \<Rightarrow> 'q resource_list \<Rightarrow> 'q resource_list \<Rightarrow> string list" where
  "negativeResources E params snsQuota =
     filter (\<lambda>r. q_sign (qty E) (mgetd (q_zero (qty E)) snsQuota r) = -1) (map fst (mentries params))"

definition validateNegativeResources ::
  "('w, 'q) env \<Rightarrow> 'q resource_list \<Rightarrow> 'q resource_list \<Rightarrow> response outcome" where
  "validateNegativeResources E resourceQuotaParams snsQuota =
     (let negative = negativeResources E resourceQuotaParams snsQuota in
      if length negative > 0
      then OK (Denied ''it's forbidden to set a subnamespace with negative amount of %s'' [join_names negative])
      else OK (Allowed ''''))"

definition ValidateResourceQuotaParams ::
  "('w, 'q) env \<Rightarrow> 'w \<Rightarrow> 'q subnamespace object_context \<Rightarrow> bool \<Rightarrow> response outcome" where
  "ValidateResourceQuotaParams E w snsObject isSNSResourcePool =
     (let snsQuota = SubnamespaceSpec (oc_object snsObject) in
     or_errored BadRequest (GetObservedResources E w) (\<lambda>resourceQuotaParams.
     if isSNSResourcePool then
       guard (validateUpperResourcePool E w snsObject snsQuota) (OK (Allowed ''''))
     else
       guard (validateMissingResources E resourceQuotaParams snsQuota)
         (guard (validateNegativeResources E resourceQuotaParams snsQuota) (OK (Allowed '''')))))"

subsection \<open>createvalidator.go\<close>

text \<open>The regular expression \<^verbatim>\<open>^[a-z0-9]([-a-z0-9]*[a-z0-9])?$\<close>.\<close>

definition alnum :: "char \<Rightarrow> bool" where
  "alnum c \<longleftrightarrow> (CHR ''a'' \<le> c \<and> c \<le> CHR ''z'') \<or> (CHR ''0'' \<le> c \<and> c \<le> CHR ''9'')"

definition dash_alnum :: "char \<Rightarrow> bool" where
  "dash_alnum c \<longleftrightarrow> c = CHR ''-'' \<or> alnum c"

fun match_label :: "string \<Rightarrow> bool" where
  "match_label [] = False"
| "match_label (c # rest) \<longleftrightarrow>
     alnum c \<and> (rest = [] \<or> (list_all dash_alnum (butlast rest) \<and> alnum (last rest)))"

definition validateSubnamespaceName :: "'q subnamespace object_context \<Rightarrow> response outcome" where
  "validateSubnamespaceName snsObject =
     (let snsName = oc_name snsObject in
      if length snsName > 63
      then OK (Denied ''Invalid value: %q: the subnamespace name should be at most 63 characters'' [snsName])
      else if \<not> match_label snsName
      then OK (Denied ''Invalid value: %q: a lowercase RFC 1123 label must consist of lower case alphanumeric characters or '-', and must start and end with an alphanumeric character (e.g. 'my-name', or '123-abc','' [snsName])
      else OK (Allowed ''''))"

definition validateUniqueSNSName ::
  "('w, 'q) env \<Rightarrow> 'w \<Rightarrow> 'q subnamespace object_context \<Rightarrow> response outcome" where
  "validateUniqueSNSName E w snsObject =
     or_denied (DoesSNSNamespaceExist E w snsObject) (\<lambda>exists.
     if exists
     then OK (Denied ''it's forbidden to create a subnamespace with a name that already exists. A subnamespace name must be unique across the cluster, and a namespace of name %q already exists; change the subnamespace name and try again'' [oc_name snsObject])
     else OK (Allowed ''''))"

definition validateResourcePoolOnly :: "SubnamespaceValidator \<Rightarrow> bool \<Rightarrow> response outcome" where
  "validateResourcePoolOnly v isSNSResourcePool =
     (if \<not> isSNSResourcePool \<and> sv_OnlyRP v
      then OK (Denied ''it's forbidden to create a subnamespace which is not a ResourcePool'' [])
      else OK (Allowed ''''))"

definition validateKeyCountInDB ::
  "SubnamespaceValidator \<Rightarrow> 'q subnamespace object_context \<Rightarrow> response outcome" where
  "validateKeyCountInDB v snsObject =
     (let parentSNSName = oc_namespace snsObject;
          key = Key (sv_NamespaceDB v) parentSNSName in
      if key \<noteq> '''' \<and> int (KeyCount (sv_NamespaceDB v) key) \<ge> sv_MaxSNS v
      then OK (Denied ''it's forbidden to create more than '%v' namespaces under hierarchy %q'' [Itoa (sv_MaxSNS v), key])
      else OK (Allowed ''''))"

definition validateSNSUnderRP ::
  "('w, 'q) env \<Rightarrow> 'w \<Rightarrow> 'q subnamespace object_context \<Rightarrow> bool \<Rightarrow> response outcome" where
  "validateSNSUnderRP E w snsObject isSNSResourcePool =
     (let snsParentNSName = oc_namespace snsObject in
     or_errored BadRequest (New (api_ns E) w (nskey snsParentNSName) empty_meta) (\<lambda>snsParentNS.
     or_errored BadRequest (IsNSResourcePool E w snsParentNS) (\<lambda>isParentNSResourcePool.
     if \<not> isSNSResourcePool \<and> isParentNSResourcePool
     then OK (Denied ''it's forbidden to create a regular subnamespace under a ResourcePool. Only a ResourcePool SNS can be created under a ResourcePool. %q is part of a ResourcePool'' [snsParentNSName])
     else OK (Allowed ''''))))"

text \<open>The loop over the parent's resources: the amount left of a resource, and the first
  resource of which too little is left.\<close>

definition left_in_parent ::
  "('w, 'q) env \<Rightarrow> 'q resource_list \<Rightarrow> (string \<times> 'q) list \<Rightarrow> 'q resource_list \<Rightarrow> string \<Rightarrow> 'q" where
  "left_in_parent E quotaParent siblingsResources quotaSNS r =
     (let Q = qty E; z = q_zero Q
      in q_sub Q (q_sub Q (mgetd z quotaParent r) (mgetd z (Some siblingsResources) r)) (mgetd z quotaSNS r))"

definition validateEnoughResourcesInParentSNS ::
  "('w, 'q) env \<Rightarrow> 'w \<Rightarrow> 'q subnamespace object_context \<Rightarrow> response outcome" where
  "validateEnoughResourcesInParentSNS E w snsObject =
     (let snsName = oc_name snsObject; snsParentName = oc_namespace snsObject in
     or_denied (SubnamespaceParentObject E w snsObject) (\<lambda>parentQuotaObject.
     let quotaParent = GetQuotaObjectSpec parentQuotaObject;
         quotaSNS = SubnamespaceSpec (oc_object snsObject) in
     obind (SubnamespaceSiblingObjects E w snsObject) (\<lambda>siblings.
     obind (GetQuotaObjectsListResources E siblings []) (\<lambda>siblingsResources.
     case find (\<lambda>r. q_value (qty E) (left_in_parent E quotaParent siblingsResources quotaSNS r) < 0)
               (map fst (mentries quotaParent)) of
       Some r \<Rightarrow> OK (Denied ''it's forbidden to create subnamespace %q under %q when there are are not enough resources of type %q in %q'' [snsName, snsParentName, r, snsParentName])
     | None \<Rightarrow> OK (Allowed '''')))))"

definition handleCreate ::
  "('w, 'q) env \<Rightarrow> 'w \<Rightarrow> SubnamespaceValidator \<Rightarrow> 'q subnamespace object_context \<Rightarrow> response outcome" where
  "handleCreate E w v snsObject =
     guard (validateSubnamespaceName snsObject) (
     guard (validateUniqueSNSName E w snsObject) (
     or_errored BadRequest (IsSNSResourcePool (oc_object snsObject)) (\<lambda>isSNSResourcePool.
     guard (validateResourcePoolOnly v isSNSResourcePool) (
     guard (validateKeyCountInDB v snsObject) (
     guard (validateSNSUnderRP E w snsObject isSNSResourcePool) (
     guard (ValidateResourceQuotaParams E w snsObject isSNSResourcePool) (
     guard (validateEnoughResourcesInParentSNS E w snsObject) (
     OK (Allowed '''')))))))))"

subsection \<open>updatevalidator.go\<close>

definition validateRPLabelDeletion ::
  "'q subnamespace object_context \<Rightarrow> 'q subnamespace object_context \<Rightarrow> response outcome" where
  "validateRPLabelDeletion snsObject snsOldObject =
     (if SNSLabel (oc_object snsObject) = '''' \<and> SNSLabel (oc_object snsOldObject) \<noteq> ''''
      then OK (Denied ''it's forbidden to delete the ResourcePool label from %q'' [oc_name snsObject])
      else OK (Allowed ''''))"

definition validateRPToSubnamespace ::
  "'q subnamespace object_context \<Rightarrow> bool \<Rightarrow> bool \<Rightarrow> bool \<Rightarrow> response outcome" where
  "validateRPToSubnamespace snsObject isSNSResourcePool isOldSNSResourcePool isParentNSResourcePool =
     (if isParentNSResourcePool \<and> \<not> isSNSResourcePool \<and> isOldSNSResourcePool
      then OK (Denied ''it's forbidden to change a ResourcePool label not at the top of hierarchy. %q is part of a ResourcePool, and its parent %q is also part of a ResourcePool'' [oc_name snsObject, oc_namespace snsObject])
      else OK (Allowed ''''))"

definition validateEnoughResourcesForChildren ::
  "('w, 'q) env \<Rightarrow> 'w \<Rightarrow> 'q subnamespace object_context \<Rightarrow> response outcome" where
  "validateEnoughResourcesForChildren E w snsObject =
     (let Q = qty E; quotaRequest = SubnamespaceSpec (oc_object snsObject) in
     obind (SubnamespaceChildrenObjects E w snsObject) (\<lambda>children.
     obind (GetQuotaObjectsListResources E children []) (\<lambda>childrenQuotaResources.
     if length childrenQuotaResources > 0 then
       (case find (\<lambda>(r, vMy). q_value Q (q_sub Q vMy (mgetd (q_zero Q) (Some childrenQuotaResources) r)) < 0)
                  (mentries quotaRequest) of
          Some (r, vMy) \<Rightarrow> OK (Denied ''it's forbidden to update %q to have resource of type %q that are fewer than the resources of type %q that are already allocated to the subnamespace children'' [oc_name snsObject, r, r])
        | None \<Rightarrow> OK (Allowed ''''))
     else OK (Allowed ''''))))"

text \<open>The body of the loop of \<^verbatim>\<open>validateUpdateSnsRequest\<close>, and the loop.\<close>

definition left_after_update ::
  "('w, 'q) env \<Rightarrow> 'q resource_list \<Rightarrow> (string \<times> 'q) list \<Rightarrow> 'q resource_list \<Rightarrow> 'q resource_list \<Rightarrow>
   string \<Rightarrow> 'q" where
  "left_after_update E quotaParent siblingsResources quotaRequest quotaOld r =
     (let Q = qty E; z = q_zero Q
      in q_add Q (q_sub Q (q_sub Q (mgetd z quotaParent r) (mgetd z (Some siblingsResources) r))
                          (mgetd z quotaRequest r))
                 (mgetd z quotaOld r))"

definition left_over_used ::
  "('w, 'q) env \<Rightarrow> 'q resource_list \<Rightarrow> 'q resource_list \<Rightarrow> string \<Rightarrow> 'q" where
  "left_over_used E quotaRequest quotaUsed r =
     q_sub (qty E) (mgetd (q_zero (qty E)) quotaRequest r) (mgetd (q_zero (qty E)) quotaUsed r)"

fun update_request_loop ::
  "('w, 'q) env \<Rightarrow> string \<Rightarrow> string \<Rightarrow> (string \<Rightarrow> 'q) \<Rightarrow> (string \<Rightarrow> 'q) \<Rightarrow> string list \<Rightarrow> response outcome" where
  "update_request_loop E snsName snsParentName parentLeft usedLeft [] = OK (Allowed '''')"
| "update_request_loop E snsName snsParentName parentLeft usedLeft (r # rs) =
     (if q_value (qty E) (parentLeft r) < 0
      then OK (Denied ''it's forbidden to update subnamespace %q because there are not enough resources of type %q in parent subnamespace %q to complete the request'' [snsName, r, snsParentName])
      else if q_value (qty E) (usedLeft r) < 0
      then OK (Denied ''it's forbidden to update subnamespace %q because active workloads in the hierarchy of %q request more resources of type %q than the new desired quantity'' [snsName, snsName, r])
      else update_request_loop E snsName snsParentName parentLeft usedLeft rs)"

definition validateUpdateSnsRequest ::
  "('w, 'q) env \<Rightarrow> 'w \<Rightarrow> 'q subnamespace object_context \<Rightarrow> 'q subnamespace object_context \<Rightarrow>
   'q quota_context \<Rightarrow> response outcome" where
  "validateUpdateSnsRequest E w snsObject snsOldObject snsQuotaObject =
     or_denied (SubnamespaceParentObject E w snsObject) (\<lambda>parentQuotaObject.
     let quotaRequest = SubnamespaceSpec (oc_object snsObject);
         quotaParent = GetQuotaObjectSpec parentQuotaObject;
         quotaOld = SubnamespaceSpec (oc_object snsOldObject);
         quotaUsed = GetQuotaUsed snsQuotaObject in
     obind (SubnamespaceSiblingObjects E w snsObject) (\<lambda>siblings.
     obind (GetQuotaObjectsListResources E siblings []) (\<lambda>siblingsResources.
     update_request_loop E (oc_name snsObject) (oc_namespace snsObject)
       (left_after_update E quotaParent siblingsResources quotaRequest quotaOld)
       (left_over_used E quotaRequest quotaUsed)
       (map fst (mentries quotaRequest)))))"

definition handleUpdate ::
  "('w, 'q) env \<Rightarrow> 'w \<Rightarrow> 'q subnamespace object_context \<Rightarrow> 'q subnamespace object_context \<Rightarrow> response outcome" where
  "handleUpdate E w snsObject snsOldObject =
     guard (validateRPLabelDeletion snsObject snsOldObject) (
     or_errored BadRequest (New (api_ns E) w (nskey (oc_namespace snsObject)) empty_meta) (\<lambda>snsParentNS.
     or_errored BadRequest (IsSNSResourcePool (oc_object snsObject)) (\<lambda>isSNSResourcePool.
     or_errored BadRequest (IsSNSResourcePool (oc_object snsOldObject)) (\<lambda>isOldSNSResourcePool.
     or_errored BadRequest (IsNSResourcePool E w snsParentNS) (\<lambda>isParentNSResourcePool.
     guard (validateRPToSubnamespace snsObject isSNSResourcePool isOldSNSResourcePool isParentNSResourcePool) (
     guard (if \<not> isOldSNSResourcePool then ValidateResourceQuotaParams E w snsObject isSNSResourcePool
            else OK (Allowed '''')) (
     or_errored BadRequest (IsSNSUpper E w snsObject) (\<lambda>isSNSUpperResourcePool.
     if \<not> isSNSResourcePool \<or> isSNSUpperResourcePool then
       or_errored BadRequest (SubnamespaceObjectFromAnnotation E w snsObject) (\<lambda>snsQuotaObject.
       guard (if quota_present snsQuotaObject then validateUpdateSnsRequest E w snsObject snsOldObject snsQuotaObject
              else OK (Allowed '''')) (
       guard (validateEnoughResourcesForChildren E w snsObject) (
       OK (Allowed ''''))))
     else OK (Allowed '''')))))))))"

subsection \<open>deletevalidator.go and validator.go\<close>

definition validateServiceAccount :: "string \<Rightarrow> response outcome" where
  "validateServiceAccount userName =
     (if userName \<noteq> service_account then OK (Denied ''%q is not allowed to delete subnamespaces'' [userName])
      else OK (Allowed ''''))"

definition handleDelete :: "'o admission_request \<Rightarrow> response outcome" where
  "handleDelete req = validateServiceAccount (req_user req)"

definition Handle ::
  "('w, 'q) env \<Rightarrow> 'w \<Rightarrow> SubnamespaceValidator \<Rightarrow> 'q subnamespace admission_request \<Rightarrow> response outcome" where
  "Handle E w v req =
     or_errored BadRequest (New (api_sns E) w (nskey '''') empty_sns) (\<lambda>snsObject.
     if req_operation req = OpDelete then
       or_errored BadRequest (decode_into (req_oldObject req) snsObject) (\<lambda>_. handleDelete req)
     else
     or_errored BadRequest (decode_into (req_object req) snsObject) (\<lambda>snsObject.
     guard (if req_operation req = OpCreate then handleCreate E w v snsObject else OK (Allowed '''')) (
     guard (if req_operation req = OpUpdate then
              or_errored BadRequest (New (api_sns E) w (nskey '''') empty_sns) (\<lambda>snsOldObject.
              or_errored BadRequest (decode_into (req_oldObject req) snsOldObject) (\<lambda>snsOldObject.
              handleUpdate E w snsObject snsOldObject))
            else OK (Allowed '''')) (
     OK (Allowed ''all validations passed'')))))"

subsection \<open>Names\<close>

lemma match_label_iff:
  "match_label s \<longleftrightarrow> s \<noteq> [] \<and> list_all dash_alnum s \<and> alnum (hd s) \<and> alnum (last s)"
proof (cases s)
  case (Cons c rest)
  then show ?thesis by (cases rest rule: rev_cases) (auto simp: dash_alnum_def)
qed simp

text \<open>C34: a name is accepted exactly when it is a label of RFC 1123: between one and 63 characters, lower
  case letters, digits and dashes, with a letter or digit at both ends.\<close>

theorem validateSubnamespaceName_iff:
  "allows (validateSubnamespaceName snsObject) \<longleftrightarrow>
     oc_name snsObject \<noteq> [] \<and> length (oc_name snsObject) \<le> 63 \<and> list_all dash_alnum (oc_name snsObject) \<and>
     alnum (hd (oc_name snsObject)) \<and> alnum (last (oc_name snsObject))"
  unfolding validateSubnamespaceName_def Let_def allows_if by (auto simp: match_label_iff)

lemma label_no_slash: "list_all dash_alnum s \<Longrightarrow> CHR ''/'' \<notin> set s"
proof -
  have "\<not> dash_alnum (CHR ''/'')" by code_simp
  then show "list_all dash_alnum s \<Longrightarrow> CHR ''/'' \<notin> set s" by (auto simp: list_all_iff)
qed

subsection \<open>Resources\<close>

text \<open>The amounts of a list of quota objects, under the laws of quantities.\<close>

abbreviation total_amount :: "('w, 'q) env \<Rightarrow> ('q \<Rightarrow> int) \<Rightarrow> 'q quota_context list \<Rightarrow> string \<Rightarrow> int" where
  "total_amount E amt objs r \<equiv> (\<Sum>obj \<leftarrow> objs. amount E amt (GetQuotaObjectSpec obj) r)"

lemma siblings_total:
  assumes "quantity_laws (qty E) amt" "\<And>obj. obj \<in> set objs \<Longrightarrow> wf_map (GetQuotaObjectSpec obj)"
  obtains total where "GetQuotaObjectsListResources E (map Some objs) [] = OK total"
    "\<And>r. amount E amt (Some total) r = total_amount E amt objs r"
proof -
  have "\<exists>total. GetQuotaObjectsListResources E (map Some objs) [] = OK total \<and>
      (\<forall>r. amount E amt (Some total) r = amount E amt (Some []) r + total_amount E amt objs r)"
    using quota_total [OF assms(1), of "map Some objs" "[]"] assms(2) by (auto simp: comp_def)
  moreover have "amount E amt (Some []) r = 0" for r
    using quantity_lawsD(1) [OF assms(1)] by (simp add: amount_def mgetd_def)
  ultimately show ?thesis using that by auto
qed

lemma enough_in_parent:
  assumes "quantity_laws (qty E) amt"
    and "SubnamespaceParentObject E w sns = OK parent" "SubnamespaceSiblingObjects E w sns = OK (map Some siblings)"
    and "\<And>obj. obj \<in> set siblings \<Longrightarrow> wf_map (GetQuotaObjectSpec obj)"
  shows "allows (validateEnoughResourcesInParentSNS E w sns) \<longleftrightarrow>
    (\<forall>r \<in> fst ` set (mentries (GetQuotaObjectSpec parent)).
       amount E amt (SubnamespaceSpec (oc_object sns)) r + total_amount E amt siblings r
         \<le> amount E amt (GetQuotaObjectSpec parent) r)"
proof -
  obtain total where total: "GetQuotaObjectsListResources E (map Some siblings) [] = OK total"
    "\<And>r. amount E amt (Some total) r = total_amount E amt siblings r"
    using siblings_total [OF assms(1,4)] by blast
  have left: "q_value (qty E) (left_in_parent E p total q r) < 0 \<longleftrightarrow>
      amount E amt p r < amount E amt q r + total_amount E amt siblings r" for p q r
    using quantity_lawsD [OF assms(1)] total(2) [of r] by (simp add: left_in_parent_def Let_def amount_def) linarith
  show ?thesis
    using total(1) assms(2,3) by (simp add: validateEnoughResourcesInParentSNS_def Let_def left allows_find not_less)
qed

text \<open>C27: a new subnamespace is found to fit exactly when, for every resource its parent's quota names,
  what it asks for and what its siblings hold together do not exceed the parent's quota.\<close>

theorem validateEnoughResourcesInParentSNS_iff:
  assumes "quantity_laws (qty E) amt"
    and "SubnamespaceParentObject E w sns = OK parent" "SubnamespaceSiblingObjects E w sns = OK (map Some siblings)"
    and "\<And>obj. obj \<in> set siblings \<Longrightarrow> wf_map (GetQuotaObjectSpec obj)"
  shows "allows (validateEnoughResourcesInParentSNS E w sns) \<longleftrightarrow>
    (\<forall>r \<in> fst ` set (mentries (GetQuotaObjectSpec parent)).
       amount E amt (SubnamespaceSpec (oc_object sns)) r + total_amount E amt siblings r
         \<le> amount E amt (GetQuotaObjectSpec parent) r)"
  using assms by (rule enough_in_parent)

lemma update_request_loop_iff:
  "allows (update_request_loop E a b f g rs) \<longleftrightarrow>
     (\<forall>r \<in> set rs. \<not> q_value (qty E) (f r) < 0 \<and> \<not> q_value (qty E) (g r) < 0)"
  by (induction rs) auto

text \<open>C26: an update of a subnamespace's quota is accepted exactly when, for every resource it names, the new
  quota and the quotas of the other children of the parent fit into the parent's quota (the old
  quota is one of the siblings' and is given back), and covers what is in use below it.\<close>

theorem validateUpdateSnsRequest_iff:
  assumes "quantity_laws (qty E) amt"
    and "SubnamespaceParentObject E w sns = OK parent" "SubnamespaceSiblingObjects E w sns = OK (map Some siblings)"
    and "\<And>obj. obj \<in> set siblings \<Longrightarrow> wf_map (GetQuotaObjectSpec obj)"
  shows "allows (validateUpdateSnsRequest E w sns old quotaObj) \<longleftrightarrow>
    (\<forall>r \<in> fst ` set (mentries (SubnamespaceSpec (oc_object sns))).
       amount E amt (SubnamespaceSpec (oc_object sns)) r +
         (total_amount E amt siblings r - amount E amt (SubnamespaceSpec (oc_object old)) r)
         \<le> amount E amt (GetQuotaObjectSpec parent) r \<and>
       amount E amt (GetQuotaUsed quotaObj) r \<le> amount E amt (SubnamespaceSpec (oc_object sns)) r)"
proof -
  obtain total where total: "GetQuotaObjectsListResources E (map Some siblings) [] = OK total"
    "\<And>r. amount E amt (Some total) r = total_amount E amt siblings r"
    using siblings_total [OF assms(1,4)] by blast
  have left: "q_value (qty E) (left_after_update E p total q old r) < 0 \<longleftrightarrow>
      amount E amt p r < amount E amt q r + (total_amount E amt siblings r - amount E amt old r)" for p q old r
    using quantity_lawsD [OF assms(1)] total(2) [of r] by (simp add: left_after_update_def Let_def amount_def) linarith
  have used: "q_value (qty E) (left_over_used E q u r) < 0 \<longleftrightarrow> amount E amt q r < amount E amt u r" for q u r
    using quantity_lawsD [OF assms(1)] by (simp add: left_over_used_def amount_def)
  show ?thesis
    using total(1) assms(2,3)
    by (simp add: validateUpdateSnsRequest_def Let_def update_request_loop_iff left used not_less)
qed

text \<open>C28: an updated quota passes the check against the children exactly when it covers, for every resource
  it names, what the children hold together (or the children hold nothing at all).\<close>

theorem validateEnoughResourcesForChildren_iff:
  assumes "quantity_laws (qty E) amt" "wf_map (SubnamespaceSpec (oc_object sns))"
    and "SubnamespaceChildrenObjects E w sns = OK (map Some children)"
    and "\<And>obj. obj \<in> set children \<Longrightarrow> wf_map (GetQuotaObjectSpec obj)"
  shows "allows (validateEnoughResourcesForChildren E w sns) \<longleftrightarrow>
    GetQuotaObjectsListResources E (map Some children) [] = OK [] \<or>
    (\<forall>r \<in> fst ` set (mentries (SubnamespaceSpec (oc_object sns))).
       total_amount E amt children r \<le> amount E amt (SubnamespaceSpec (oc_object sns)) r)"
proof -
  obtain total where total: "GetQuotaObjectsListResources E (map Some children) [] = OK total"
    "\<And>r. amount E amt (Some total) r = total_amount E amt children r"
    using siblings_total [OF assms(1,4)] by blast
  have "q_value (qty E) (q_sub (qty E) q (mgetd (q_zero (qty E)) (Some total) r)) < 0 \<longleftrightarrow>
      amount E amt (SubnamespaceSpec (oc_object sns)) r < total_amount E amt children r"
    if "(r, q) \<in> set (mentries (SubnamespaceSpec (oc_object sns)))" for r q
  proof -
    have "amount E amt (SubnamespaceSpec (oc_object sns)) r = amt q"
      using mget_entry [OF assms(2) that] by (simp add: amount_def mgetd_def)
    then show ?thesis
      using quantity_lawsD [OF assms(1)] total(2) [of r] by (simp add: amount_def)
  qed
  then show ?thesis
    using total(1) assms(3)
    by (auto simp: validateEnoughResourcesForChildren_def Let_def allows_find_pair case_prod_unfold not_less)
qed

subsection \<open>Creation\<close>

lemma no_nil_objects: "GetQuotaObjectsListResources E objs acc = OK t \<Longrightarrow> \<exists>objs'. objs = map Some objs'"
proof (induction E objs acc rule: GetQuotaObjectsListResources.induct)
  case (3 E obj objs acc)
  then obtain objs' where "objs = map Some objs'" by auto
  then show ?case by (auto intro: exI [of _ "obj # objs'"])
qed simp_all

lemma enough_in_parentD:
  assumes "allows (validateEnoughResourcesInParentSNS E w sns)" "quantity_laws (qty E) amt"
  shows "\<exists>parent siblings. SubnamespaceParentObject E w sns = OK parent \<and>
    SubnamespaceSiblingObjects E w sns = OK (map Some siblings) \<and>
    ((\<forall>obj \<in> set siblings. wf_map (GetQuotaObjectSpec obj)) \<longrightarrow>
     (\<forall>r \<in> fst ` set (mentries (GetQuotaObjectSpec parent)).
        amount E amt (SubnamespaceSpec (oc_object sns)) r + total_amount E amt siblings r
          \<le> amount E amt (GetQuotaObjectSpec parent) r))"
proof -
  obtain parent objs total where read: "SubnamespaceParentObject E w sns = OK parent" "SubnamespaceSiblingObjects E w sns = OK objs"
    "GetQuotaObjectsListResources E objs [] = OK total"
    using assms(1) by (auto simp: validateEnoughResourcesInParentSNS_def Let_def allows_obind)
  then obtain siblings where siblings: "objs = map Some siblings" using no_nil_objects by blast
  show ?thesis
    using read(1,2) enough_in_parent [OF assms(2) read(1) read(2) [unfolded siblings]] assms(1) unfolding siblings by blast
qed

text \<open>What the check of the requested resources means: an upper ResourcePool asks for something, and a plain
  subnamespace names every observed resource, with an amount that is not negative.\<close>

lemma params_checked:
  assumes "allows (ValidateResourceQuotaParams E w sns pool)" "quantity_laws (qty E) amt" "q_format (qty E) (q_zero (qty E)) = ''''"
  shows "\<exists>params. GetObservedResources E w = OK params \<and>
    (pool \<longrightarrow> (\<exists>upper. IsSNSUpper E w sns = OK upper \<and> (upper \<longrightarrow> mentries (SubnamespaceSpec (oc_object sns)) \<noteq> []))) \<and>
    (\<not> pool \<longrightarrow> (\<forall>r \<in> fst ` set (mentries params). mget (SubnamespaceSpec (oc_object sns)) r \<noteq> None \<and>
       0 \<le> amount E amt (SubnamespaceSpec (oc_object sns)) r))"
proof -
  let ?spec = "SubnamespaceSpec (oc_object sns)"
  obtain params where params: "GetObservedResources E w = OK params"
    and pool: "pool \<Longrightarrow> allows (validateUpperResourcePool E w sns ?spec)"
    and plain: "\<not> pool \<Longrightarrow> allows (validateMissingResources E params ?spec) \<and> allows (validateNegativeResources E params ?spec)"
    using assms(1) by (auto simp: ValidateResourceQuotaParams_def Let_def split: if_splits)
  have "mget ?spec r \<noteq> None \<and> 0 \<le> amount E amt ?spec r" if "\<not> pool" "r \<in> fst ` set (mentries params)" for r
  proof -
    have "missingResources E params ?spec = []" "negativeResources E params ?spec = []"
      using plain [OF that(1)] by (simp_all add: validateMissingResources_def validateNegativeResources_def Let_def allows_if)
    then have "q_format (qty E) (mgetd (q_zero (qty E)) ?spec r) \<noteq> ''''" "q_sign (qty E) (mgetd (q_zero (qty E)) ?spec r) \<noteq> -1"
      using that(2) by (auto simp: missingResources_def negativeResources_def filter_empty_conv)
    then show ?thesis
      using assms(3) quantity_lawsD(7) [OF assms(2)]
      by (cases "mget ?spec r") (auto simp: amount_def mgetd_def not_less)
  qed
  moreover have "\<exists>upper. IsSNSUpper E w sns = OK upper \<and> (upper \<longrightarrow> mentries ?spec \<noteq> [])" if pool
    using pool [OF that] by (auto simp: validateUpperResourcePool_def allows_if)
  ultimately show ?thesis using params by blast
qed

text \<open>C17: a subnamespace that the webhook lets in has a label as its name, no namespace of that name exists,
  the hierarchy it enters is not full, only ResourcePools are under a ResourcePool, and ResourcePools
  alone are let in when so configured. An upper ResourcePool asks for some resource, a plain subnamespace names every
  observed resource with an amount that is not negative; and for each resource of the quota of its parent, what it
  asks for and what its siblings hold together do not exceed that quota.\<close>

theorem handleCreate_sound:
  assumes "allows (handleCreate E w v sns)" "quantity_laws (qty E) amt" "q_format (qty E) (q_zero (qty E)) = ''''"
  shows "match_label (oc_name sns) \<and> length (oc_name sns) \<le> 63 \<and> CHR ''/'' \<notin> set (oc_name sns) \<and>
    DoesSNSNamespaceExist E w sns = OK False \<and>
    (Key (sv_NamespaceDB v) (oc_namespace sns) \<noteq> '''' \<longrightarrow>
       int (KeyCount (sv_NamespaceDB v) (Key (sv_NamespaceDB v) (oc_namespace sns))) < sv_MaxSNS v) \<and>
    (\<exists>pool parentNS params. IsSNSResourcePool (oc_object sns) = OK pool \<and> (sv_OnlyRP v \<longrightarrow> pool) \<and>
       New (api_ns E) w (nskey (oc_namespace sns)) empty_meta = OK parentNS \<and>
       (IsNSResourcePool E w parentNS = OK True \<longrightarrow> pool) \<and>
       GetObservedResources E w = OK params \<and>
       (pool \<longrightarrow> (\<exists>upper. IsSNSUpper E w sns = OK upper \<and> (upper \<longrightarrow> mentries (SubnamespaceSpec (oc_object sns)) \<noteq> []))) \<and>
       (\<not> pool \<longrightarrow> (\<forall>r \<in> fst ` set (mentries params). mget (SubnamespaceSpec (oc_object sns)) r \<noteq> None \<and>
          0 \<le> amount E amt (SubnamespaceSpec (oc_object sns)) r))) \<and>
    (\<exists>parent siblings. SubnamespaceParentObject E w sns = OK parent \<and>
       SubnamespaceSiblingObjects E w sns = OK (map Some siblings) \<and>
       ((\<forall>obj \<in> set siblings. wf_map (GetQuotaObjectSpec obj)) \<longrightarrow>
        (\<forall>r \<in> fst ` set (mentries (GetQuotaObjectSpec parent)).
           amount E amt (SubnamespaceSpec (oc_object sns)) r + total_amount E amt siblings r
             \<le> amount E amt (GetQuotaObjectSpec parent) r)))"
proof -
  from assms(1) obtain pool where parts: "allows (validateSubnamespaceName sns)" "allows (validateUniqueSNSName E w sns)"
    "IsSNSResourcePool (oc_object sns) = OK pool" "allows (validateResourcePoolOnly v pool)"
    "allows (validateKeyCountInDB v sns)" "allows (validateSNSUnderRP E w sns pool)"
    "allows (ValidateResourceQuotaParams E w sns pool)" "allows (validateEnoughResourcesInParentSNS E w sns)"
    by (auto simp: handleCreate_def)
  have "match_label (oc_name sns) \<and> length (oc_name sns) \<le> 63"
    using parts(1) unfolding validateSubnamespaceName_def Let_def allows_if by simp
  moreover have "CHR ''/'' \<notin> set (oc_name sns)"
    using calculation label_no_slash by (simp add: match_label_iff)
  moreover have "DoesSNSNamespaceExist E w sns = OK False"
    using parts(2) unfolding validateUniqueSNSName_def by (auto simp: allows_if)
  moreover have "Key (sv_NamespaceDB v) (oc_namespace sns) \<noteq> '''' \<Longrightarrow>
      int (KeyCount (sv_NamespaceDB v) (Key (sv_NamespaceDB v) (oc_namespace sns))) < sv_MaxSNS v"
    using parts(5) unfolding validateKeyCountInDB_def Let_def allows_if by simp
  moreover have "sv_OnlyRP v \<longrightarrow> pool"
    using parts(4) unfolding validateResourcePoolOnly_def allows_if by auto
  moreover obtain parentNS where "New (api_ns E) w (nskey (oc_namespace sns)) empty_meta = OK parentNS"
    "IsNSResourcePool E w parentNS = OK True \<longrightarrow> pool"
    using parts(6) unfolding validateSNSUnderRP_def Let_def by (auto simp: allows_if)
  ultimately show ?thesis
    using parts(3) params_checked [OF parts(7) assms(2,3)] enough_in_parentD [OF parts(8) assms(2)] by blast
qed

lemma handleCreate_room:
  assumes "allows (handleCreate E w v sns)" "Key (sv_NamespaceDB v) (oc_namespace sns) \<noteq> ''''"
  shows "int (KeyCount (sv_NamespaceDB v) (Key (sv_NamespaceDB v) (oc_namespace sns))) < sv_MaxSNS v"
  using assms unfolding handleCreate_def validateKeyCountInDB_def Let_def by (auto simp: allows_if)

text \<open>C11: the bound on the size of a hierarchy holds along admissions: when every hierarchy is within the
  bound, and a subnamespace that the webhook lets in is then put into the database, every hierarchy is
  still within the bound.\<close>

theorem admission_keeps_bound:
  fixes s :: "('w, 'q) hns"
  assumes "forest_ok (crqForest s)" "oc_name sns \<noteq> ''''"
    and "\<And>key. int (KeyCount (crqForest s) key) \<le> sv_MaxSNS v"
    and "allows (handleCreate E w (v\<lparr>sv_NamespaceDB := crqForest s\<rparr>) sns)"
  shows "int (KeyCount (crqForest (snd (EnsureSNSInDB E sns s))) key) \<le> sv_MaxSNS v"
proof (cases "Key (crqForest s) (oc_name sns) = '''' \<and> IsRQ E (world s) sns SelfOffset = OK False")
  case True
  then have eq: "EnsureSNSInDB E sns s = AddNS E (oc_object sns) s" by (simp add: EnsureSNSInDB_cases)
  show ?thesis
  proof (cases "Key (crqForest s) (oc_namespace sns) = ''''")
    case False
    then show ?thesis
      using AddNS_under_key [OF assms(1,2) conjunct1 [OF True] False, of E] handleCreate_room [OF assms(4)] assms(3) [of key] eq
      by auto
  next
    case unplaced: True
    then show ?thesis
      using AddNS_counts [OF assms(1,2) conjunct1 [OF True] unplaced, of E key] assms(3) [of key] eq by auto
  qed
next
  case False
  then show ?thesis using assms(3) [of key] by (auto simp: EnsureSNSInDB_cases split: outcome.splits)
qed

subsection \<open>Instances\<close>

text \<open>A new subnamespace \<open>e\<close> under \<open>a\<close>, whose quota of ten holds the five of \<open>b\<close> and the three of
  \<open>d\<close>.\<close>

definition sample_siblings :: "(int \<times> string) quota_context list" where
  "sample_siblings = [CRQ (ctx (mk_crq ''b'' [(''cpu'', 5)])), CRQ (ctx (mk_crq ''d'' [(''cpu'', 3)]))]"

abbreviation new_e :: "int \<Rightarrow> (int \<times> string) subnamespace object_context" where
  "new_e n \<equiv> ctx (mk_sns ''a'' ''e'' NonePhase [(''cpu'', n)])"

lemma sample_quotas:
  "SubnamespaceParentObject mem_env sample (new_e 2) = OK (RQ (ctx (mk_rq ''a'' [(''cpu'', 10)])))"
  "SubnamespaceSiblingObjects mem_env sample (new_e 2) = OK (map Some sample_siblings)"
  "SubnamespaceParentObject mem_env sample (new_e 3) = OK (RQ (ctx (mk_rq ''a'' [(''cpu'', 10)])))"
  "SubnamespaceSiblingObjects mem_env sample (new_e 3) = OK (map Some sample_siblings)"
  by code_simp+

lemma sample_siblings_wf: "obj \<in> set sample_siblings \<Longrightarrow> wf_map (GetQuotaObjectSpec obj)"
  by (auto simp: sample_siblings_def ctx_def mk_crq_def)

theorem validateEnoughResourcesInParentSNS_iff_witness:
  "allows (validateEnoughResourcesInParentSNS mem_env sample (new_e 2)) \<and>
   \<not> allows (validateEnoughResourcesInParentSNS mem_env sample (new_e 3))"
proof
  show "allows (validateEnoughResourcesInParentSNS mem_env sample (new_e 2))"
    by (subst validateEnoughResourcesInParentSNS_iff [OF mem_env_quantity_laws sample_quotas(1,2)])
      (erule sample_siblings_wf, code_simp)
  show "\<not> allows (validateEnoughResourcesInParentSNS mem_env sample (new_e 3))"
    by (subst validateEnoughResourcesInParentSNS_iff [OF mem_env_quantity_laws sample_quotas(3,4)])
      (erule sample_siblings_wf, code_simp)
qed

definition sample_d :: "int \<Rightarrow> (int \<times> string) subnamespace object_context" where
  "sample_d n = ctx (mk_sns ''a'' ''d'' Created [(''cpu'', n)])"

lemma sample_d_quotas:
  "SubnamespaceParentObject mem_env sample (sample_d 5) = OK (RQ (ctx (mk_rq ''a'' [(''cpu'', 10)])))"
  "SubnamespaceSiblingObjects mem_env sample (sample_d 5) = OK (map Some sample_siblings)"
  "SubnamespaceChildrenObjects mem_env sample (ctx (mk_sns ''a'' ''b'' Created [(''cpu'', 2)])) =
     OK (map Some [CRQ (ctx (mk_crq ''c'' [(''cpu'', 2)]))])"
  by code_simp+

theorem validateUpdateSnsRequest_iff_witness:
  "allows (validateUpdateSnsRequest mem_env sample (sample_d 5) (sample_d 3) (CRQ (ctx (mk_crq ''d'' [(''cpu'', 3)]))))"
  by (subst validateUpdateSnsRequest_iff [OF mem_env_quantity_laws sample_d_quotas(1,2)])
    (erule sample_siblings_wf, code_simp)

theorem validateEnoughResourcesForChildren_iff_witness:
  "allows (validateEnoughResourcesForChildren mem_env sample (ctx (mk_sns ''a'' ''b'' Created [(''cpu'', 2)])))"
proof -
  have "wf_map (SubnamespaceSpec (oc_object (ctx (mk_sns ''a'' ''b'' Created [(''cpu'', 2)]))))" by code_simp
  moreover have "wf_map (GetQuotaObjectSpec obj)" if "obj \<in> set [CRQ (ctx (mk_crq ''c'' [(''cpu'', 2)]))]"
    for obj :: "(int \<times> string) quota_context" using that by (simp add: ctx_def mk_crq_def)
  ultimately show ?thesis
    by (subst validateEnoughResourcesForChildren_iff [OF mem_env_quantity_laws _ sample_d_quotas(3)])
      (assumption, blast, code_simp)
qed

definition sample_validator :: SubnamespaceValidator where
  "sample_validator = \<lparr>sv_NamespaceDB = sample_forest, sv_MaxSNS = 5, sv_OnlyRP = False\<rparr>"

lemma sample_create: "allows (handleCreate mem_env sample sample_validator (new_e 2))"
  "allows (handleCreate mem_env sample sample_validator (ctx (mk_sns ''c'' ''e'' NonePhase [(''cpu'', 1)])))"
  unfolding allows_def by (rule exI [of _ "''''"], code_simp)+


theorem handleCreate_sound_witness:
  "DoesSNSNamespaceExist mem_env sample (new_e 2) = OK False \<and> CHR ''/'' \<notin> set (oc_name (new_e 2)) \<and>
   (\<exists>parent siblings. SubnamespaceParentObject mem_env sample (new_e 2) = OK parent \<and>
      SubnamespaceSiblingObjects mem_env sample (new_e 2) = OK (map Some siblings))"
proof -
  have "q_format (qty mem_env) (q_zero (qty mem_env)) = ''''" by code_simp
  from handleCreate_sound [OF sample_create(1) mem_env_quantity_laws this] show ?thesis by blast
qed

theorem admission_keeps_bound_witness:
  "int (KeyCount (crqForest (snd (EnsureSNSInDB mem_env (ctx (mk_sns ''c'' ''e'' NonePhase [(''cpu'', 1)]))
     (mem_state sample sample_forest)))) ''b'') \<le> 5"
proof -
  let ?s = "mem_state sample sample_forest" and ?sns = "ctx (mk_sns ''c'' ''e'' NonePhase [(''cpu'', 1)])"
  have F: "crqForest ?s = sample_forest" by (simp add: mem_state_def)
  have v: "sample_validator\<lparr>sv_NamespaceDB := sample_forest\<rparr> = sample_validator" "sv_MaxSNS sample_validator = 5"
    by (simp_all add: sample_validator_def)
  have "oc_name ?sns \<noteq> ''''" by code_simp
  moreover have "int (KeyCount sample_forest key) \<le> 5" for key
    by (auto simp: KeyCount_def members_def sample_forest_def)
  ultimately show ?thesis
    using admission_keeps_bound [where s = ?s and sns = ?sns and v = sample_validator and E = mem_env and w = sample and key = "''b''"]
      sample_forest_ok sample_create(2) F v by simp
qed

end
