(* ===== verification/SnsReconciler.thy ===== *)
theory SnsReconciler
  imports SnsValidator
begin

section \<open>The subnamespace controller\<close>

text \<open>
  \<^verbatim>\<open>internal/subnamespace\<close>: \<^verbatim>\<open>controller.go\<close>, \<^verbatim>\<open>setup.go\<close>, \<^verbatim>\<open>init.go\<close> and
  \<^verbatim>\<open>sync.go\<close>, and \<^verbatim>\<open>internal/metrics\<close>. A subnamespace goes through the phases
  None, Missing (or Migrated) and Created, one per reconciliation. A send on a channel appends to
  the list of events; setting a gauge appends to the list of measurements, with the quantity whose
  float approximation is shown.
\<close>

definition key_string :: "objkey \<Rightarrow> string" where
  "key_string k = key_namespace k @ ''/'' @ key_name k"

subsection \<open>metrics.go\<close>

definition observe :: "string \<Rightarrow> string \<Rightarrow> string \<Rightarrow> string \<Rightarrow> 'q \<Rightarrow> (('w, 'q) hns, unit) prog" where
  "observe gauge nm ns resource quantity =
     modify (\<lambda>s. s\<lparr>gauges := gauges s @ [(gauge, nm, ns, resource, quantity)]\<rparr>)"

definition ObserveSNSAllocatedResource :: "string \<Rightarrow> string \<Rightarrow> string \<Rightarrow> 'q \<Rightarrow> (('w, 'q) hns, unit) prog" where
  "ObserveSNSAllocatedResource = observe ''sns_allocated_resources''"

definition ObserveSNSFreeResource :: "string \<Rightarrow> string \<Rightarrow> string \<Rightarrow> 'q \<Rightarrow> (('w, 'q) hns, unit) prog" where
  "ObserveSNSFreeResource = observe ''sns_free_resources''"

definition ObserveSNSTotalResource :: "string \<Rightarrow> string \<Rightarrow> string \<Rightarrow> 'q \<Rightarrow> (('w, 'q) hns, unit) prog" where
  "ObserveSNSTotalResource = observe ''sns_total_resources''"

subsection \<open>setup.go\<close>

definition setup_update :: "string \<Rightarrow> 'q subnamespace \<Rightarrow> 'q subnamespace outcome" where
  "setup_update snsName obj = OK (obj\<lparr>sns_namespaceRef := snsName, sns_phase := Missing\<rparr>)"

definition setupSNS ::
  "('w, 'q) env \<Rightarrow> namespace object_context \<Rightarrow> 'q subnamespace object_context \<Rightarrow> (('w, 'q) hns, result) prog" where
  "setupSNS E snsParentNS snsObject =
     (let snsName = oc_name snsObject in
     case setControllerReference E (oc_object snsParentNS) (oc_object snsObject) of
       Inl err \<Rightarrow> fail err
     | Inr obj \<Rightarrow>
         bind (replacef ''failed to set status %q for subnamespace %q'' [Missing, snsName]
                 (UpdateObjectE (api_sns E) (setup_update snsName) (snsObject\<lparr>oc_object := obj\<rparr>))) (\<lambda>_.
         ret False))"

subsection \<open>init.go\<close>

definition composeSNSNamespace :: "namespace object_context \<Rightarrow> 'q subnamespace object_context \<Rightarrow> namespace" where
  "composeSNSNamespace snsParentNS snsObject =
     (let nsName = oc_name snsObject;
          labels = LabelsBasedOnParent snsParentNS nsName;
          annotations = AnnotationsBasedOnParent snsParentNS nsName;
          labels = AList.update ResourcePoolKey (mstr (meta_labels (oc_object snsObject)) ResourcePoolKey) labels
      in ComposeNamespace nsName labels annotations)"

text \<open>
  \<^verbatim>\<open>objectcontext.New\<close> reads into the namespace it is given: when the namespace exists,
  \<^verbatim>\<open>snsNamespace\<close> and the object of the context are one and the same object, so the labels and
  annotations that are synced are the ones just read.
\<close>

definition syncNSLabelsAnnotations ::
  "('w, 'q) env \<Rightarrow> namespace object_context \<Rightarrow> (('w, 'q) hns, namespace object_context) prog" where
  "syncNSLabelsAnnotations E snsNamespaceObject =
     bind (AppendAnnotations (api_ns E) (meta_annotations (oc_object snsNamespaceObject)) snsNamespaceObject)
          (\<lambda>snsNamespaceObject.
     AppendLabels (api_ns E) (meta_labels (oc_object snsNamespaceObject)) snsNamespaceObject)"

definition createSNSNamespace ::
  "('w, 'q) env \<Rightarrow> namespace object_context \<Rightarrow> 'q subnamespace object_context \<Rightarrow> (('w, 'q) hns, unit) prog" where
  "createSNSNamespace E snsParentNS snsObject =
     (let snsName = oc_name snsObject;
          snsNamespace = composeSNSNamespace snsParentNS snsObject in
     bind (reads (\<lambda>s. New (api_ns E) (world s) (nskey snsName) snsNamespace)) (\<lambda>snsNamespaceObject.
     bind (if IsPresent snsNamespaceObject then syncNSLabelsAnnotations E snsNamespaceObject
           else ret snsNamespaceObject) (\<lambda>snsNamespaceObject.
     bind (EnsureCreate (api_ns E) snsNamespaceObject) (\<lambda>_. ret ()))))"

text \<open>The annotations \<^verbatim>\<open>init\<close> adds to the subnamespace.\<close>

definition init_annotations ::
  "namespace object_context \<Rightarrow> 'q subnamespace object_context \<Rightarrow> bool \<Rightarrow> (string \<times> string) list" where
  "init_annotations snsParentNS snsObject rqFlag =
     (let displayName = DisplayName (oc_object snsParentNS) @ ''/'' @ oc_name snsObject
      in [(OpenShiftDisplayNameKey, displayName), (DisplayNameKey, displayName),
          (IsRqKey, if rqFlag then TrueStr else FalseStr)])"

definition set_phase :: "phase \<Rightarrow> 'q subnamespace \<Rightarrow> 'q subnamespace outcome" where
  "set_phase p obj = OK (obj\<lparr>sns_phase := p\<rparr>)"

text \<open>The end of \<^verbatim>\<open>init\<close>, from the default LimitRange on.\<close>

definition init_finish ::
  "('w, 'q) env \<Rightarrow> namespace object_context \<Rightarrow> bool \<Rightarrow> 'q subnamespace object_context \<Rightarrow>
   (('w, 'q) hns, result) prog" where
  "init_finish E snsParentNS rqFlag snsObject =
     (let snsName = oc_name snsObject in
     bind (wrapf ''failed to create default Limit Range object for subnamespace %q: %v'' [snsName]
             (CreateDefaultSNSLimitRange E snsObject)) (\<lambda>_.
     bind (wrapf ''failed to append for subnamespace %q: %v'' [snsName]
             (AppendAnnotations (api_sns E) (Some (init_annotations snsParentNS snsObject rqFlag)) snsObject)) (\<lambda>snsObject.
     bind (replacef ''failed to ensure presence in namespacedb for subnamespace %q'' [oc_name snsObject]
             (EnsureSNSInDB E snsObject)) (\<lambda>_.
     bind (replacef ''failed to set status %q for subnamespace %q'' [Created, snsName]
             (UpdateObjectE (api_sns E) (set_phase Created) snsObject)) (\<lambda>_.
     ret False)))))"

text \<open>\<^verbatim>\<open>init\<close> from the label of the ResourcePool on, and the whole handler.\<close>

definition init_quota ::
  "('w, 'q) env \<Rightarrow> namespace object_context \<Rightarrow> 'q subnamespace object_context \<Rightarrow> (('w, 'q) hns, result) prog" where
  "init_quota E snsParentNS snsObject =
     (let snsName = oc_name snsObject in
     bind (if SNSLabel (oc_object snsObject) = '''' then
             wrapf ''failed to set ResourcePool label for subnamespace %q: %v'' [snsName]
               (SetSNSResourcePoolLabel E snsParentNS snsObject)
           else ret snsObject) (\<lambda>snsObject.
     bind (wrapf ''failed to compute isRq flag for subnamespace %q: %v'' [snsName]
             (reads (\<lambda>s. IsRQ E (world s) snsObject SelfOffset))) (\<lambda>rqFlag.
     bind (wrapf ''failed to compute if subnamespace %q is a ResourcePool: %v'' [snsName]
             (lift (IsSNSResourcePool (oc_object snsObject)))) (\<lambda>isSNSResourcePool.
     bind (wrapf ''failed to compute if subnamespace %q is an upper ResourcePool: %v'' [snsName]
             (reads (\<lambda>s. IsSNSUpper E (world s) snsObject))) (\<lambda>isSNSUpperResourcePool.
     if \<not> isSNSResourcePool \<or> isSNSUpperResourcePool then
       bind (wrapf ''failed to create quota object for subnamespace %q: %v'' [snsName]
               (EnsureSubnamespaceObject E snsObject rqFlag)) (\<lambda>(res, snsObject).
       if res then ret res else init_finish E snsParentNS rqFlag snsObject)
     else
       bind (wrapf ''failed to create default ResourceQuota object for subnamespace %q: %v'' [snsName]
               (CreateDefaultSNSResourceQuota E snsObject)) (\<lambda>_.
       init_finish E snsParentNS rqFlag snsObject))))))"

definition init ::
  "('w, 'q) env \<Rightarrow> namespace object_context \<Rightarrow> 'q subnamespace object_context \<Rightarrow> (('w, 'q) hns, result) prog" where
  "init E snsParentNS snsObject =
     bind (wrapf ''failed to create namespace for subnamespace %q: %v'' [oc_name snsObject]
             (createSNSNamespace E snsParentNS snsObject)) (\<lambda>_.
     init_quota E snsParentNS snsObject)"

subsection \<open>sync.go: computing the status\<close>

text \<open>The inner loop of \<^verbatim>\<open>getResourcesAllocatedToSNSChildren\<close>; \<^verbatim>\<open>Value()\<close> is an
  \<^verbatim>\<open>int64\<close> and the addition wraps.\<close>

definition add_request ::
  "('w, 'q) env \<Rightarrow> (string \<times> 'q) list \<Rightarrow> string \<Rightarrow> (string \<times> 'q) list \<Rightarrow> (string \<times> 'q) list" where
  "add_request E childSNSRequest r allocated =
     (let Q = qty E;
          totalRequest = mgetd (q_zero Q) (Some allocated) r;
          vRequest = mgetd (q_zero Q) (Some childSNSRequest) r
      in AList.update r (q_newBinarySI Q (i64 (q_value Q vRequest + q_value Q totalRequest))) allocated)"

definition getResourcesAllocatedToSNSChildren ::
  "('w, 'q) env \<Rightarrow> 'q subnamespace list \<Rightarrow> (string \<times> 'q resource_list) list \<times> (string \<times> 'q) list" where
  "getResourcesAllocatedToSNSChildren E snsChildren =
     (map (\<lambda>childSNS. (meta_name childSNS, sns_hard childSNS)) snsChildren,
      fold (\<lambda>childSNS allocated.
              fold (add_request E (mentries (sns_hard childSNS)))
                   (map fst (mentries (sns_hard childSNS))) allocated)
           snsChildren [])"

definition getFreeToAllocateSNSResources ::
  "('w, 'q) env \<Rightarrow> 'q subnamespace object_context \<Rightarrow> (string \<times> 'q) list \<Rightarrow> (string \<times> 'q) list" where
  "getFreeToAllocateSNSResources E snsObject allocated =
     (let Q = qty E; hard = sns_hard (oc_object snsObject) in
      put_all (map (\<lambda>r. (r, q_newBinarySI Q (i64 (q_value Q (mgetd (q_zero Q) hard r)
                                               - q_value Q (mgetd (q_zero Q) (Some allocated) r)))))
                   (map fst (mentries hard))) [])"

definition updateSNSResourcesStatus ::
  "('w, 'q) env \<Rightarrow> 'q subnamespace object_context \<Rightarrow> (string \<times> 'q resource_list) list \<Rightarrow>
   (string \<times> 'q) list \<Rightarrow> (string \<times> 'q) list \<Rightarrow> (('w, 'q) hns, 'q subnamespace object_context) prog" where
  "updateSNSResourcesStatus E snsObject childrenRequests allocated free =
     UpdateObjectE (api_sns E)
       (\<lambda>obj. OK (obj\<lparr>sns_namespaces := childrenRequests, sns_allocated := Some allocated,
                     sns_free := Some free\<rparr>)) snsObject"

definition NamespacesEqual ::
  "('w, 'q) env \<Rightarrow> 'w \<Rightarrow> (string \<times> 'q resource_list) list \<Rightarrow> (string \<times> 'q resource_list) list \<Rightarrow> bool" where
  "NamespacesEqual E w nsA nsB =
     (if length nsA \<noteq> length nsB then False
      else (case GetObservedResources E w of
              OK observedResources \<Rightarrow>
                list_all (\<lambda>(a, b). ResourceQuotaSpecEqual E (snd a) (snd b) observedResources) (zip nsA nsB)
            | _ \<Rightarrow> False))"

definition IsUpdateNeeded ::
  "('w, 'q) env \<Rightarrow> 'w \<Rightarrow> 'q subnamespace \<Rightarrow> (string \<times> 'q resource_list) list \<Rightarrow>
   (string \<times> 'q) list \<Rightarrow> (string \<times> 'q) list \<Rightarrow> bool" where
  "IsUpdateNeeded E w sns childrenRequests allocated free \<longleftrightarrow>
     \<not> NamespacesEqual E w (sns_namespaces sns) childrenRequests \<or>
     \<not> ResourceListEqual E (sns_allocated sns) (Some allocated) \<or>
     \<not> ResourceListEqual E (sns_free sns) (Some free)"

definition updateSNSMetrics ::
  "('w, 'q) env \<Rightarrow> string \<Rightarrow> string \<Rightarrow> (string \<times> 'q) list \<Rightarrow> (string \<times> 'q) list \<Rightarrow> 'q resource_list \<Rightarrow>
   (('w, 'q) hns, unit) prog" where
  "updateSNSMetrics E snsName snsNS allocated free totals =
     (let z = q_zero (qty E) in
     for_each (map fst (mentries totals)) (\<lambda>r.
       bind (ObserveSNSAllocatedResource snsName snsNS r (mgetd z (Some allocated) r)) (\<lambda>_.
       bind (ObserveSNSFreeResource snsName snsNS r (mgetd z (Some free) r)) (\<lambda>_.
       ObserveSNSTotalResource snsName snsNS r (mgetd z totals r)))))"

subsection \<open>sync.go: annotations and quota objects\<close>

definition GetUpperResourcePoolNameFromParent ::
  "'q subnamespace object_context \<Rightarrow> 'q subnamespace object_context \<Rightarrow> string outcome" where
  "GetUpperResourcePoolNameFromParent sns parentSNS =
     obind (IsSNSUpperFromAnnotation (oc_object sns)) (\<lambda>isParentUpperResourcePool.
       if isParentUpperResourcePool then OK (oc_name parentSNS)
       else (case mget (meta_annotations (oc_object parentSNS)) UpperRpKey of
               Some parentUpperRp \<Rightarrow> OK parentUpperRp
             | None \<Rightarrow> OK ''none''))"

text \<open>\<^verbatim>\<open>annotations\<close> is the map of the object itself, so every assignment is at once visible in
  the object; assigning into a nil map panics.\<close>

definition annotate :: "string \<Rightarrow> string \<Rightarrow> 'a object_meta_scheme object_context \<Rightarrow>
    'a object_meta_scheme object_context outcome" where
  "annotate k v r =
     obind (mput k v (meta_annotations (oc_object r))) (\<lambda>m.
       OK (r\<lparr>oc_object := (oc_object r)\<lparr>meta_annotations := m\<rparr>\<rparr>))"

definition annotateSNS ::
  "('w, 'q) env \<Rightarrow> 'w \<Rightarrow> 'q subnamespace object_context \<Rightarrow> namespace object_context \<Rightarrow>
   'q subnamespace object_context \<Rightarrow> bool \<Rightarrow> 'q subnamespace object_context outcome" where
  "annotateSNS E w snsObject snsParentNS parentSNS isRq =
     obind (annotate IsRqKey (if isRq then TrueStr else FalseStr) snsObject) (\<lambda>snsObject.
     obind (IsSNSUpper E w snsObject) (\<lambda>isUpperResourcePool.
     obind (if isUpperResourcePool then
              obind (annotate IsUpperRpKey TrueStr snsObject) (annotate UpperRpKey (oc_name snsObject))
            else
              obind (annotate IsUpperRpKey FalseStr snsObject) (\<lambda>snsObject.
              obind (GetUpperResourcePoolNameFromParent snsObject parentSNS) (\<lambda>upperRPName.
              annotate UpperRpKey upperRPName snsObject))) (\<lambda>snsObject.
     obind (annotate CrqPointerKey (GetCrqPointer (oc_object snsObject)) snsObject) (\<lambda>snsObject.
     let displayName = DisplayName (oc_object snsParentNS) @ ''/'' @ oc_name snsObject in
     obind (annotate OpenShiftDisplayNameKey displayName snsObject)
           (annotate DisplayNameKey displayName)))))"

definition syncSNSAnnotations ::
  "('w, 'q) env \<Rightarrow> 'q subnamespace object_context \<Rightarrow> namespace object_context \<Rightarrow>
   'q subnamespace object_context \<Rightarrow> bool \<Rightarrow> (('w, 'q) hns, 'q subnamespace object_context) prog" where
  "syncSNSAnnotations E snsObject snsParentNS parentSNS isRq =
     bind (reads (\<lambda>s. annotateSNS E (world s) snsObject snsParentNS parentSNS isRq)) (\<lambda>snsObject.
       AppendAnnotations (api_sns E) (meta_annotations (oc_object snsObject)) snsObject)"

definition deleteNonUpperResourcePoolCRQ ::
  "('w, 'q) env \<Rightarrow> 'q subnamespace object_context \<Rightarrow> (('w, 'q) hns, unit) prog" where
  "deleteNonUpperResourcePoolCRQ E snsObject =
     bind (reads (\<lambda>s. SubnamespaceObject E (world s) snsObject)) (\<lambda>quotaObject.
     bind (quota_EnsureDelete E quotaObject) (\<lambda>_. ret ()))"

text \<open>\<^verbatim>\<open>syncQuotaObject\<close>; the result of \<^verbatim>\<open>EnsureSubnamespaceObject\<close> is dropped.\<close>

definition syncQuotaObject ::
  "('w, 'q) env \<Rightarrow> 'q subnamespace object_context \<Rightarrow> bool \<Rightarrow>
   (('w, 'q) hns, result \<times> 'q subnamespace object_context) prog" where
  "syncQuotaObject E snsObject isRq =
     bind (reads (\<lambda>s. DoesSubnamespaceObjectExist E (world s) snsObject)) (\<lambda>existing.
       case existing of
         Some quotaObject \<Rightarrow>
           bind (CreateDefaultSNSResourceQuota E snsObject) (\<lambda>_.
           bind (UpdateQuotaObject E quotaObject (SubnamespaceSpec (oc_object snsObject)) isRq) (\<lambda>_.
           ret (False, snsObject)))
       | None \<Rightarrow>
           bind (EnsureSubnamespaceObject E snsObject isRq) (\<lambda>(res, snsObject).
           ret (False, snsObject)))"

subsection \<open>sync.go: events\<close>

definition enqueueSNSEvent :: "string \<Rightarrow> string \<Rightarrow> (('w, 'q) hns, unit) prog" where
  "enqueueSNSEvent snsName snsNamespace =
     modify (\<lambda>s. s\<lparr>snsEvents := snsEvents s @ [nnkey snsNamespace snsName]\<rparr>)"

definition enqueueSNSNamespaceEvent :: "string \<Rightarrow> (('w, 'q) hns, unit) prog" where
  "enqueueSNSNamespaceEvent snsName = modify (\<lambda>s. s\<lparr>nsEvents := nsEvents s @ [snsName]\<rparr>)"

definition enqueueChildrenRPToSNSConversionEvents ::
  "('w, 'q) env \<Rightarrow> 'q subnamespace object_context \<Rightarrow> 'q subnamespace list \<Rightarrow> (('w, 'q) hns, unit) prog" where
  "enqueueChildrenRPToSNSConversionEvents E snsObject snsChildren =
     (let snsName = oc_name snsObject in
     for_each snsChildren (\<lambda>sns.
       bind (reads (\<lambda>s. New (api_sns E) (world s) (nnkey snsName (meta_name sns)) empty_sns)) (\<lambda>snsChild.
       bind (lift (IsChildUpper (oc_object snsObject) (oc_object snsChild))) (\<lambda>isResourcePool.
       if isResourcePool then
         bind (enqueueSNSEvent (meta_name sns) snsName) (\<lambda>_. enqueueSNSEvent (meta_name sns) snsName)
       else ret ()))))"

definition enqueueChildrenSNSToRPConversionEvents ::
  "('w, 'q) env \<Rightarrow> 'q subnamespace object_context \<Rightarrow> 'q subnamespace list \<Rightarrow> (('w, 'q) hns, unit) prog" where
  "enqueueChildrenSNSToRPConversionEvents E snsObject snsChildren =
     (let snsName = oc_name snsObject in
     for_each snsChildren (\<lambda>sns.
       bind (reads (\<lambda>s. New (api_sns E) (world s) (nnkey snsName (meta_name sns)) empty_sns)) (\<lambda>snsChild.
       if mstr (meta_annotations (oc_object snsChild)) IsUpperRpKey = TrueStr
       then enqueueSNSEvent (oc_name snsChild) snsName
       else ret ())))"

subsection \<open>sync.go: the handler\<close>

text \<open>The part of \<^verbatim>\<open>sync\<close> that keeps the quota object of a regular subnamespace or an upper
  ResourcePool.\<close>

definition sync_quota ::
  "('w, 'q) env \<Rightarrow> 'q subnamespace object_context \<Rightarrow> bool \<Rightarrow>
   (('w, 'q) hns, result \<times> 'q subnamespace object_context) prog" where
  "sync_quota E snsObject rqFlag =
     bind (wrapf ''failed to get quota object: %v'' []
             (reads (\<lambda>s. DoesSNSCRQExists E (world s) snsObject))) (\<lambda>crq.
     bind (case crq of
             Some quotaObject \<Rightarrow>
               if rqFlag then bind (wrapf ''failed to get quota object: %v'' []
                                      (quota_EnsureDelete E quotaObject)) (\<lambda>_. ret ())
               else ret ()
           | None \<Rightarrow> ret ()) (\<lambda>_.
     bind (wrapf ''failed to get quota object: %v'' []
             (reads (\<lambda>s. DoesSNSRQExists E (world s) snsObject))) (\<lambda>rq.
     bind (case rq of
             Some quotaObject \<Rightarrow>
               if \<not> rqFlag then bind (wrapf ''failed to get quota object: %v'' []
                                        (quota_EnsureDelete E quotaObject)) (\<lambda>_. ret ())
               else ret ()
           | None \<Rightarrow> ret ()) (\<lambda>_.
     wrapf ''failed to sync quota object for subnamespace %q: %v'' [oc_name snsObject]
       (syncQuotaObject E snsObject rqFlag)))))"

text \<open>The end of \<^verbatim>\<open>sync\<close>, from the lookup of the parent subnamespace on.\<close>

definition sync_finish ::
  "('w, 'q) env \<Rightarrow> namespace object_context \<Rightarrow> 'q subnamespace list \<Rightarrow>
   (string \<times> 'q resource_list) list \<Rightarrow> (string \<times> 'q) list \<Rightarrow> (string \<times> 'q) list \<Rightarrow> bool \<Rightarrow> bool \<Rightarrow>
   'q subnamespace object_context \<Rightarrow> (('w, 'q) hns, result) prog" where
  "sync_finish E snsParentNS snsChildren childrenRequests allocated free rqFlag isSNSResourcePool snsObject =
     (let snsName = oc_name snsObject; snsParentName = oc_name snsParentNS;
          snsParentNamespace = mstr (meta_labels (oc_object snsParentNS)) ParentKey in
     bind (wrapf ''failed to get object %q: %v'' [snsParentName]
             (reads (\<lambda>s. New (api_sns E) (world s) (nnkey snsParentNamespace snsParentName) empty_sns))) (\<lambda>parentSNS.
     bind (wrapf ''failed to sync annotations for subnamespace %q: %v'' [snsName]
             (syncSNSAnnotations E snsObject snsParentNS parentSNS rqFlag)) (\<lambda>snsObject.
     bind (wrapf ''failed to ensure presence in namespacedb for subnamespace %q: %v'' [oc_name snsObject]
             (EnsureSNSInDB E snsObject)) (\<lambda>_.
     bind (reads (\<lambda>s. OK (IsUpdateNeeded E (world s) (oc_object snsObject) childrenRequests allocated free))) (\<lambda>needed.
     bind (if needed then
             wrapf ''failed to set status for subnamespace %q: %v'' [snsName]
               (updateSNSResourcesStatus E snsObject childrenRequests allocated free)
           else ret snsObject) (\<lambda>snsObject.
     bind (updateSNSMetrics E snsName snsParentName allocated free (sns_hard (oc_object snsObject))) (\<lambda>_.
     bind (enqueueSNSEvent (oc_name parentSNS) (oc_namespace parentSNS)) (\<lambda>_.
     bind (wrapf ''failed to enqueue children subnamespaces of subnamespace %q for reconciliation: %v'' [snsName]
             (enqueueChildrenRPToSNSConversionEvents E snsObject snsChildren)) (\<lambda>_.
     bind (if isSNSResourcePool then
             wrapf ''failed to enqueue children subnamespaces of subnamespace %q for reconciliation: %v'' [snsName]
               (enqueueChildrenSNSToRPConversionEvents E snsObject snsChildren)
           else ret ()) (\<lambda>_.
     bind (enqueueSNSNamespaceEvent snsName) (\<lambda>_.
     ret False)))))))))))"

definition clear_spec :: "'q subnamespace \<Rightarrow> 'q subnamespace outcome" where
  "clear_spec obj = OK (obj\<lparr>sns_hard := None\<rparr>)"

definition sync ::
  "('w, 'q) env \<Rightarrow> namespace object_context \<Rightarrow> 'q subnamespace object_context \<Rightarrow> (('w, 'q) hns, result) prog" where
  "sync E snsParentNS snsObject =
     (let snsName = oc_name snsObject; snsParentName = oc_name snsParentNS in
     bind (wrapf ''failed to get children subnamespace objects under namespace %q: %v'' [snsName]
             (reads (\<lambda>s. NewList (api_sns E) (world s) (InNamespace snsName)))) (\<lambda>snsChildren.
     let (childrenRequests, allocated) = getResourcesAllocatedToSNSChildren E snsChildren;
         free = getFreeToAllocateSNSResources E snsObject allocated in
     if SNSLabel (oc_object snsObject) = '''' then
       bind (wrapf ''failed to set ResourcePool label for subnamespace %q: %v'' [snsName]
               (SetSNSResourcePoolLabel E snsParentNS snsObject)) (\<lambda>_. ret True)
     else
     bind (wrapf ''failed to compute isRq flag for subnamespace %q: %v'' [snsName]
             (reads (\<lambda>s. IsRQ E (world s) snsObject SelfOffset))) (\<lambda>rqFlag.
     bind (wrapf ''failed to compute if subnamespace %q is a ResourcePool: %v'' [snsName]
             (lift (IsSNSResourcePool (oc_object snsObject)))) (\<lambda>isSNSResourcePool.
     bind (wrapf ''failed to compute if subnamespace %q is a ResourcePool: %v'' [snsParentName]
             (reads (\<lambda>s. IsNSResourcePool E (world s) snsParentNS))) (\<lambda>isParentNSResourcePool.
     bind (wrapf ''failed to compute if subnamespace %q is an upper ResourcePool: %v'' [snsName]
             (reads (\<lambda>s. IsSNSUpper E (world s) snsObject))) (\<lambda>isSNSUpperResourcePool.
     bind (if \<not> isSNSResourcePool \<or> isSNSUpperResourcePool then sync_quota E snsObject rqFlag
           else ret (False, snsObject)) (\<lambda>(res, snsObject).
     if res then ret res
     else
     bind (if isSNSResourcePool \<and> isParentNSResourcePool then
             bind (wrapf ''failed to delete quota object for subnamespace %q: %v'' [snsName]
                     (deleteNonUpperResourcePoolCRQ E snsObject)) (\<lambda>_.
             wrapf ''failed to update status for subnamespace %q: %v'' [snsName]
               (UpdateObjectE (api_sns E) clear_spec snsObject))
           else ret snsObject) (\<lambda>snsObject.
     sync_finish E snsParentNS snsChildren childrenRequests allocated free rqFlag isSNSResourcePool snsObject))))))))"

subsection \<open>controller.go\<close>

text \<open>\<^verbatim>\<open>phaseMap[phase](...)\<close>: a phase that is not in the map gives a nil function.\<close>

definition phase_func ::
  "('w, 'q) env \<Rightarrow> phase \<Rightarrow>
   (namespace object_context \<Rightarrow> 'q subnamespace object_context \<Rightarrow> (('w, 'q) hns, result) prog) option" where
  "phase_func E phase =
     (if phase = NonePhase then Some (setupSNS E)
      else if phase = Missing then Some (init E)
      else if phase = Migrated then Some (init E)
      else if phase = Created then Some (sync E)
      else None)"

definition Reconcile :: "('w, 'q) env \<Rightarrow> objkey \<Rightarrow> (('w, 'q) hns, result) prog" where
  "Reconcile E req =
     bind (wrapf ''failed to get object %q: %v'' [key_string req]
             (reads (\<lambda>s. New (api_sns E) (world s) req empty_sns))) (\<lambda>snsObject.
     if \<not> IsPresent snsObject then ret False
     else
     let snsParentNSName = oc_namespace snsObject in
     bind (reads (\<lambda>s. New (api_ns E) (world s) (nskey snsParentNSName) empty_meta)) (\<lambda>snsParentNS.
     if \<not> IsPresent snsParentNS then
       fail (Errorf ''failed to find %q, the parent namespace of subnamespace %q, it may have been deleted''
               [snsParentNSName, key_name req])
     else (case phase_func E (sns_phase (oc_object snsObject)) of
             None \<Rightarrow> panic
           | Some f \<Rightarrow> f snsParentNS snsObject)))"

subsection \<open>What a reconciliation may touch\<close>

text \<open>
  The interface between the handlers and the state they act on: a preorder \<open>R\<close> on states that
  events, metrics, writes to the other kinds of objects and the bookkeeping of the namespace
  database stay within, and a property \<open>ok\<close> of the subnamespace's context under which an update
  of the subnamespace stays within it too.
\<close>

definition quiet :: "(('w, 'q) hns \<Rightarrow> ('w, 'q) hns \<Rightarrow> bool) \<Rightarrow> ('w, 'o) kind_api \<Rightarrow> bool" where
  "quiet R k \<longleftrightarrow>
     (\<forall>obj s. R s (s\<lparr>world := snd (k_create k obj (world s))\<rparr>) \<and> R s (s\<lparr>world := snd (k_update k obj (world s))\<rparr>) \<and>
              R s (s\<lparr>world := snd (k_delete k obj (world s))\<rparr>))"

lemma quietD:
  assumes "quiet R k"
  shows "k_create k obj (world s) = (a, w') \<Longrightarrow> R s (s\<lparr>world := w'\<rparr>)"
    "k_update k obj (world s) = (a, w') \<Longrightarrow> R s (s\<lparr>world := w'\<rparr>)"
    "k_delete k obj (world s) = (b, w') \<Longrightarrow> R s (s\<lparr>world := w'\<rparr>)"
  using assms unfolding quiet_def by (metis snd_conv)+

text \<open>The same without the creations.\<close>

definition tame :: "(('w, 'q) hns \<Rightarrow> ('w, 'q) hns \<Rightarrow> bool) \<Rightarrow> ('w, 'o) kind_api \<Rightarrow> bool" where
  "tame R k \<longleftrightarrow>
     (\<forall>obj s. R s (s\<lparr>world := snd (k_update k obj (world s))\<rparr>) \<and> R s (s\<lparr>world := snd (k_delete k obj (world s))\<rparr>))"

lemma quiet_tame: "quiet R k \<Longrightarrow> tame R k"
  by (simp add: quiet_def tame_def)

lemma tameD:
  assumes "tame R k"
  shows "k_update k obj (world s) = (a, w') \<Longrightarrow> R s (s\<lparr>world := w'\<rparr>)"
    "k_delete k obj (world s) = (b, w') \<Longrightarrow> R s (s\<lparr>world := w'\<rparr>)"
  using assms unfolding tame_def by (metis snd_conv)+

locale hns_frame = frame R for R :: "('w, 'q) hns \<Rightarrow> ('w, 'q) hns \<Rightarrow> bool"
begin

lemma keeps_CreateObject: "quiet R k \<Longrightarrow> keeps R (\<lambda>_. True) (CreateObject k r)"
  by (auto simp: keeps_def CreateObject_def dest: quietD(1) split: prod.splits sum.splits)

lemma keeps_DeleteObject: "tame R k \<Longrightarrow> keeps R (\<lambda>_. True) (DeleteObject k r)"
  by (auto simp: keeps_def DeleteObject_def dest: tameD(2) split: prod.splits option.splits)

lemma keeps_EnsureCreate: "quiet R k \<Longrightarrow> keeps R (\<lambda>_. True) (EnsureCreate k r)"
  unfolding EnsureCreate_def by (intro keeps_if keeps_CreateObject keeps_ret) simp_all

lemma keeps_EnsureDelete: "tame R k \<Longrightarrow> keeps R (\<lambda>_. True) (EnsureDelete k r)"
  unfolding EnsureDelete_def by (intro keeps_if keeps_DeleteObject keeps_ret) simp_all

lemma keeps_UpdateObject: "tame R k \<Longrightarrow> keeps R (\<lambda>_. True) (UpdateObject k upd r)"
  unfolding UpdateObject_def
  by (rule keeps_bind [OF keeps_lift [where Q = "\<lambda>_. True"]])
    (auto simp: keeps_def Let_def R_refl dest: tameD(1) split: prod.splits sum.splits)

lemma keeps_check_err: "keeps R (\<lambda>_. True) (check_err p)"
  unfolding check_err_def by (intro keeps_option keeps_ret keeps_fail) simp_all

lemma keeps_UpdateObjectE: "tame R k \<Longrightarrow> keeps R (\<lambda>_. True) (UpdateObjectE k upd r)"
  unfolding UpdateObjectE_def by (intro keeps_bind [OF keeps_UpdateObject] keeps_check_err)

lemma keeps_Append:
  assumes "tame R k"
  shows "keeps R (\<lambda>_. True) (AppendAnnotations k m r)" "keeps R (\<lambda>_. True) (AppendLabels k m r)"
  unfolding AppendAnnotations_def AppendLabels_def Let_def
  by (intro keeps_UpdateObjectE assms keeps_bind [OF keeps_lift [where Q = "\<lambda>_. True"]] TrueI)+

lemma keeps_createSNSNamespace:
  fixes E :: "('w, 'q) env"
  assumes "quiet R (api_ns E)"
  shows "keeps R (\<lambda>_. True) (createSNSNamespace E p r)"
  unfolding createSNSNamespace_def syncNSLabelsAnnotations_def Let_def
  by (intro keeps_bind [where Q = "\<lambda>_. True"] keeps_ret keeps_reads keeps_if keeps_Append keeps_EnsureCreate assms quiet_tame [OF assms] TrueI)

end

locale sns_frame = hns_frame R for R :: "('w, 'q) hns \<Rightarrow> ('w, 'q) hns \<Rightarrow> bool" +
  fixes E :: "('w, 'q) env" and ok :: "'q subnamespace object_context \<Rightarrow> bool"
    and parent :: "namespace object_context \<Rightarrow> bool"
  assumes quiet_apis: "quiet R (api_rq E)" "quiet R (api_crq E)" "quiet R (api_lr E)"
    and R_namespace: "parent p \<Longrightarrow> ok r \<Longrightarrow> keeps R (\<lambda>_. True) (createSNSNamespace E p r)"
    and R_events: "R s (s\<lparr>snsEvents := ks\<rparr>)" "R s (s\<lparr>nsEvents := ns\<rparr>)" "R s (s\<lparr>gauges := gs\<rparr>)"
    and R_db: "ok r \<Longrightarrow> R s (snd (EnsureSNSInDB E r s))"
    and R_update: "(\<And>obj. upd (oc_object r) = OK obj \<Longrightarrow> ok (r\<lparr>oc_object := obj\<rparr>)) \<Longrightarrow>
          keeps R ok (UpdateObjectE (api_sns E) upd r)"
    and ok_fields:
      "ok r \<Longrightarrow> ok (r\<lparr>oc_object := (oc_object r)\<lparr>meta_annotations := m\<rparr>\<rparr>)"
      "ok r \<Longrightarrow> ok (r\<lparr>oc_object := (oc_object r)\<lparr>meta_labels := m\<rparr>\<rparr>)"
      "ok r \<Longrightarrow> ok (r\<lparr>oc_object := (oc_object r)\<lparr>sns_hard := h\<rparr>\<rparr>)"
      "ok r \<Longrightarrow> ok (r\<lparr>oc_object := (oc_object r)\<lparr>sns_namespaces := n, sns_allocated := a, sns_free := f\<rparr>\<rparr>)"
begin

lemma keeps_AppendAnnotations: "ok r \<Longrightarrow> keeps R ok (AppendAnnotations (api_sns E) m r)"
  unfolding AppendAnnotations_def Let_def
  by (rule R_update) (auto intro: ok_fields(1))

lemma keeps_events:
  "keeps R (\<lambda>_. True) (enqueueSNSEvent a b)" "keeps R (\<lambda>_. True) (enqueueSNSNamespaceEvent a)"
  "keeps R (\<lambda>_. True) (observe g a b c q)"
  unfolding enqueueSNSEvent_def enqueueSNSNamespaceEvent_def observe_def
  by (intro keeps_modify R_events TrueI)+

lemma keeps_db: "ok r \<Longrightarrow> keeps R (\<lambda>_. True) (EnsureSNSInDB E r)"
  by (simp add: keeps_def R_db)

lemma keeps_SetSNSResourcePoolLabel: "ok r \<Longrightarrow> keeps R ok (SetSNSResourcePoolLabel E p r)"
  unfolding SetSNSResourcePoolLabel_def
  by (rule keeps_bind [OF keeps_reads], rule R_update)
    (auto simp: set_pool_label_def intro: ok_fields(2))

lemmas keeps_intros = keeps_bind [where Q = "\<lambda>_. True"] keeps_ret keeps_fail keeps_reads keeps_wrapf keeps_replacef
  keeps_EnsureCreate keeps_EnsureDelete keeps_UpdateObjectE keeps_Append keeps_events keeps_db quiet_apis
  quiet_apis [THEN quiet_tame] TrueI

lemma keeps_defaults:
  "keeps R (\<lambda>_. True) (CreateDefaultSNSResourceQuota E r)" "keeps R (\<lambda>_. True) (CreateDefaultSNSLimitRange E r)"
  unfolding CreateDefaultSNSResourceQuota_def CreateDefaultSNSLimitRange_def Let_def by (intro keeps_intros)+

lemma keeps_quota:
  "keeps R (\<lambda>_. True) (quota_EnsureCreate E q)" "keeps R (\<lambda>_. True) (quota_EnsureDelete E q)"
  "keeps R (\<lambda>_. True) (UpdateQuotaObject E q h b)"
  unfolding UpdateQuotaObject_def by (cases q; simp; intro keeps_intros impI conjI)+

lemma keeps_ensure_quota_object: "keeps R (\<lambda>_. True) (ensure_quota_object E r b h)"
  unfolding ensure_quota_object_def by (intro keeps_intros keeps_if keeps_quota)

lemma keeps_updateSubnamespaceSpec: "ok r \<Longrightarrow> keeps R ok (updateSubnamespaceSpec E r h)"
  unfolding updateSubnamespaceSpec_def by (rule R_update) (auto intro: ok_fields(3))

lemma keeps_EnsureSubnamespaceObject: "ok r \<Longrightarrow> keeps R (\<lambda>p. ok (snd p)) (EnsureSubnamespaceObject E r b)"
  unfolding EnsureSubnamespaceObject_def Let_def
  by (intro keeps_if keeps_intros keeps_quota keeps_ensure_quota_object
      keeps_bind [OF keeps_updateSubnamespaceSpec]) simp_all

lemma keeps_setupSNS:
  assumes "\<And>obj. setControllerReference E (oc_object p) (oc_object r) = Inr obj \<Longrightarrow>
      ok (r\<lparr>oc_object := obj\<rparr>) \<and> ok (r\<lparr>oc_object := obj\<lparr>sns_namespaceRef := oc_name r, sns_phase := Missing\<rparr>\<rparr>)"
  shows "keeps R (\<lambda>_. True) (setupSNS E p r)"
  unfolding setupSNS_def Let_def
  by (intro keeps_sum keeps_fail keeps_bind [OF keeps_replacef [OF R_update]] keeps_ret TrueI)
    (auto simp: setup_update_def dest: assms)

lemma keeps_init_finish:
  assumes "ok r" "\<And>r. ok r \<Longrightarrow> ok (r\<lparr>oc_object := (oc_object r)\<lparr>sns_phase := Created\<rparr>\<rparr>)"
  shows "keeps R (\<lambda>_. True) (init_finish E p b r)"
  unfolding init_finish_def Let_def
  by (intro keeps_bind [OF keeps_wrapf [OF keeps_defaults(2)]] keeps_bind [OF keeps_wrapf [OF keeps_AppendAnnotations]]
      keeps_bind [OF keeps_replacef [OF keeps_db]] keeps_bind [OF keeps_replacef [OF R_update]] keeps_ret)
    (auto simp: set_phase_def intro: assms)

lemma keeps_init_quota:
  assumes "ok r" "\<And>r. ok r \<Longrightarrow> ok (r\<lparr>oc_object := (oc_object r)\<lparr>sns_phase := Created\<rparr>\<rparr>)"
  shows "keeps R (\<lambda>_. True) (init_quota E p r)"
proof -
  have label: "keeps R ok (if SNSLabel (oc_object r) = ''''
      then wrapf f as (SetSNSResourcePoolLabel E p r) else ret r)" for f as
    by (intro keeps_if keeps_wrapf keeps_SetSNSResourcePoolLabel keeps_ret assms(1))
  show ?thesis
    unfolding init_quota_def Let_def
    by (intro keeps_bind [OF label]
        keeps_bind [OF keeps_wrapf [OF keeps_reads]] keeps_bind [OF keeps_wrapf [OF keeps_lift [where Q = "\<lambda>_. True"]]]
        keeps_if keeps_bind [OF keeps_wrapf [OF keeps_EnsureSubnamespaceObject]] keeps_prod keeps_ret
        keeps_bind [OF keeps_wrapf [OF keeps_defaults(1)]] keeps_init_finish) (auto intro: assms(2))
qed

lemma keeps_init:
  assumes "ok r" "\<And>r. ok r \<Longrightarrow> ok (r\<lparr>oc_object := (oc_object r)\<lparr>sns_phase := Created\<rparr>\<rparr>)" "parent p"
  shows "keeps R (\<lambda>_. True) (init E p r)"
  unfolding init_def
  by (intro keeps_bind [OF keeps_wrapf [OF R_namespace]] keeps_init_quota) (auto intro: assms)

lemma keeps_updateSNSMetrics: "keeps R (\<lambda>_. True) (updateSNSMetrics E a b c d t)"
  unfolding updateSNSMetrics_def ObserveSNSAllocatedResource_def ObserveSNSFreeResource_def ObserveSNSTotalResource_def Let_def
  by (intro keeps_for_each keeps_intros)

lemma keeps_enqueueChildren:
  "keeps R (\<lambda>_. True) (enqueueChildrenRPToSNSConversionEvents E r cs)"
  "keeps R (\<lambda>_. True) (enqueueChildrenSNSToRPConversionEvents E r cs)"
  unfolding enqueueChildrenRPToSNSConversionEvents_def enqueueChildrenSNSToRPConversionEvents_def Let_def
  by (intro keeps_for_each keeps_intros keeps_if keeps_lift)+

lemma keeps_updateSNSResourcesStatus: "ok r \<Longrightarrow> keeps R ok (updateSNSResourcesStatus E r n a f)"
  unfolding updateSNSResourcesStatus_def by (rule R_update) (auto intro: ok_fields(4))

lemma ok_annotate: "annotate k v r = OK r' \<Longrightarrow> ok r \<Longrightarrow> ok r'"
  by (auto simp: annotate_def obind_OK_iff intro: ok_fields(1))

lemma ok_annotateSNS: "annotateSNS E w r pns psns b = OK r' \<Longrightarrow> ok r \<Longrightarrow> ok r'"
  by (auto simp: annotateSNS_def obind_OK_iff Let_def split: if_splits dest!: ok_annotate)

lemma keeps_syncSNSAnnotations: "ok r \<Longrightarrow> keeps R ok (syncSNSAnnotations E r pns psns b)"
  unfolding syncSNSAnnotations_def
  by (rule keeps_bind [OF keeps_reads_value [where Q = ok]]) (auto intro: keeps_AppendAnnotations ok_annotateSNS)

lemma keeps_quota_sync:
  assumes "ok r"
  shows "keeps R (\<lambda>p. ok (snd p)) (syncQuotaObject E r b)" "keeps R (\<lambda>p. ok (snd p)) (sync_quota E r b)"
proof -
  show sync: "keeps R (\<lambda>p. ok (snd p)) (syncQuotaObject E r b)"
    unfolding syncQuotaObject_def
    by (intro keeps_option keeps_intros keeps_defaults keeps_quota keeps_prod
        keeps_bind [OF keeps_EnsureSubnamespaceObject]) (use assms in simp_all)
  show "keeps R (\<lambda>p. ok (snd p)) (sync_quota E r b)"
    unfolding sync_quota_def by (intro keeps_option keeps_intros keeps_if keeps_quota sync)
qed

lemma keeps_sync_finish:
  assumes "ok r"
  shows "keeps R (\<lambda>_. True) (sync_finish E p cs reqs al fr b pool r)"
proof -
  have status: "keeps R ok (if c then wrapf f as (updateSNSResourcesStatus E r n a fr) else ret r)" if "ok r" for c f as r n a fr
    by (intro keeps_if keeps_wrapf keeps_updateSNSResourcesStatus keeps_ret that)
  show ?thesis
    unfolding sync_finish_def Let_def
    by (intro keeps_bind [OF keeps_wrapf [OF keeps_reads]] keeps_bind [OF keeps_wrapf [OF keeps_syncSNSAnnotations]]
        keeps_bind [OF keeps_wrapf [OF keeps_db]] keeps_bind [OF keeps_reads] keeps_bind [OF status]
        keeps_bind [OF keeps_updateSNSMetrics] keeps_bind [OF keeps_events(1)] keeps_bind [OF keeps_events(2)]
        keeps_bind [OF keeps_wrapf [OF keeps_enqueueChildren(1)]] keeps_bind [OF keeps_if [where Q = "\<lambda>_. True"]]
        keeps_wrapf keeps_enqueueChildren keeps_ret TrueI assms)
qed

lemma keeps_sync:
  assumes "ok r"
  shows "keeps R (\<lambda>_. True) (sync E p r)"
proof -
  have clear: "keeps R ok (if c then bind (wrapf f as (deleteNonUpperResourcePoolCRQ E r))
        (\<lambda>_. wrapf f' as' (UpdateObjectE (api_sns E) clear_spec r)) else ret r)" if "ok r" for c f as f' as' r
    unfolding deleteNonUpperResourcePoolCRQ_def
    by (intro keeps_if keeps_intros keeps_quota R_update that) (auto simp: clear_spec_def intro: ok_fields(3) that)
  have quota: "keeps R (\<lambda>p. ok (snd p)) (if c then sync_quota E r b else ret (False, r))" for c b
    by (intro keeps_if keeps_quota_sync keeps_ret) (simp_all add: assms)
  show ?thesis
    unfolding sync_def Let_def
    by (intro keeps_bind [OF keeps_wrapf [OF keeps_reads]] keeps_bind [OF keeps_wrapf [OF keeps_SetSNSResourcePoolLabel]]
        keeps_bind [OF keeps_wrapf [OF keeps_lift [where Q = "\<lambda>_. True"]]] keeps_prod keeps_if keeps_ret TrueI
        keeps_bind [OF quota] keeps_bind [OF clear] keeps_sync_finish assms) (auto intro: assms)
qed

lemma keeps_phase_func:
  assumes "phase_func E phase = Some f" "ok r" "parent p"
    and "\<And>obj. phase = NonePhase \<Longrightarrow> setControllerReference E (oc_object p) (oc_object r) = Inr obj \<Longrightarrow>
      ok (r\<lparr>oc_object := obj\<rparr>) \<and> ok (r\<lparr>oc_object := obj\<lparr>sns_namespaceRef := oc_name r, sns_phase := Missing\<rparr>\<rparr>)"
    and "\<And>r. phase = Missing \<or> phase = Migrated \<Longrightarrow> ok r \<Longrightarrow> ok (r\<lparr>oc_object := (oc_object r)\<lparr>sns_phase := Created\<rparr>\<rparr>)"
  shows "keeps R (\<lambda>_. True) (f p r)"
  using assms keeps_sync [OF assms(2)]
  by (auto simp: phase_func_def split: if_splits intro!: keeps_init keeps_setupSNS)

end

text \<open>\<^verbatim>\<open>Reconcile\<close> runs the handler of the phase it reads on the object it reads.\<close>

lemma Reconcile_start:
  "Reconcile E req s =
     (case New (api_sns E) (world s) req empty_sns of
        Panic \<Rightarrow> (Panic, s)
      | Err e \<Rightarrow> (Err (Errorf ''failed to get object %q: %v'' [key_string req, error_text e]), s)
      | OK sns \<Rightarrow>
          if \<not> oc_present sns then (OK False, s)
          else (case New (api_ns E) (world s) (nskey (oc_namespace sns)) empty_meta of
                  Panic \<Rightarrow> (Panic, s) | Err e \<Rightarrow> (Err e, s)
                | OK p \<Rightarrow>
                    (if \<not> oc_present p then
                       fail (Errorf ''failed to find %q, the parent namespace of subnamespace %q, it may have been deleted''
                               [oc_namespace sns, key_name req])
                     else (case phase_func E (sns_phase (oc_object sns)) of None \<Rightarrow> panic | Some f \<Rightarrow> f p sns)) s))"
  by (simp add: Reconcile_def IsPresent_def Let_def bind_reads go_defs split: outcome.split)

lemma Reconcile_cases:
  obtains (nothing) "snd (Reconcile E req s) = s"
    | (handled) sns p f where "New (api_sns E) (world s) req empty_sns = OK sns" "oc_present sns"
        "phase_func E (sns_phase (oc_object sns)) = Some f" "Reconcile E req s = f p sns s"
        "New (api_ns E) (world s) (nskey (oc_namespace sns)) empty_meta = OK p" "oc_present p"
proof (cases "snd (Reconcile E req s) = s")
  case True
  then show ?thesis by (rule nothing)
next
  case False
  then obtain sns p f where "New (api_sns E) (world s) req empty_sns = OK sns" "oc_present sns"
      "phase_func E (sns_phase (oc_object sns)) = Some f" "Reconcile E req s = f p sns s"
      "New (api_ns E) (world s) (nskey (oc_namespace sns)) empty_meta = OK p" "oc_present p"
    by (auto simp: Reconcile_start fail_def panic_def split: outcome.splits if_splits option.splits)
  then show ?thesis by (rule handled)
qed

subsection \<open>The phase machine\<close>

inductive sns_step :: "phase \<Rightarrow> phase \<Rightarrow> bool" where
  setup_step: "sns_step NonePhase Missing"
| init_step: "sns_step Missing Created"
| migrated_step: "sns_step Migrated Created"

inductive_simps sns_step_Created [simp]: "sns_step Created q"

text \<open>
  The laws the phase theorem rests on: the subnamespaces obey the laws of the API server, a write
  to another kind leaves them alone, and \<^verbatim>\<open>SetControllerReference\<close> sets owners only.
\<close>

definition sns_laws :: "('w, 'q) env \<Rightarrow> ('w \<Rightarrow> objkey \<Rightarrow> 'q subnamespace option) \<Rightarrow> bool" where
  "sns_laws E view \<longleftrightarrow> lawful (api_sns E) view \<and>
     leaves (api_ns E) view \<and> leaves (api_rq E) view \<and> leaves (api_crq E) view \<and> leaves (api_lr E) view \<and>
     (\<forall>ns obj obj'. setControllerReference E ns obj = Inr obj' \<longrightarrow> (\<exists>owners. obj' = obj\<lparr>meta_owners := owners\<rparr>))"

lemma sns_laws_leaves:
  "sns_laws E view \<Longrightarrow> leaves (api_ns E) view" "sns_laws E view \<Longrightarrow> leaves (api_rq E) view"
  "sns_laws E view \<Longrightarrow> leaves (api_crq E) view" "sns_laws E view \<Longrightarrow> leaves (api_lr E) view"
  by (simp_all add: sns_laws_def)

definition phase_frame ::
  "('w, 'q) env \<Rightarrow> ('w \<Rightarrow> objkey \<Rightarrow> 'q subnamespace option) \<Rightarrow> objkey \<Rightarrow> phase set \<Rightarrow>
   ('w, 'q) hns \<Rightarrow> ('w, 'q) hns \<Rightarrow> bool" where
  "phase_frame E view key P s s' \<longleftrightarrow> (sns_laws E view \<longrightarrow>
     (\<forall>k. k \<noteq> key \<longrightarrow> view (world s') k = view (world s) k) \<and>
     (view (world s) key = None \<longrightarrow> view (world s') key = None) \<and>
     (\<forall>obj. view (world s) key = Some obj \<longrightarrow>
        (\<exists>obj'. view (world s') key = Some obj' \<and> sns_phase obj' \<in> insert (sns_phase obj) P)))"

definition phase_ok ::
  "('w, 'q) env \<Rightarrow> ('w \<Rightarrow> objkey \<Rightarrow> 'q subnamespace option) \<Rightarrow> objkey \<Rightarrow> phase set \<Rightarrow>
   'q subnamespace object_context \<Rightarrow> bool" where
  "phase_ok E view key P r \<longleftrightarrow>
     (sns_laws E view \<longrightarrow> obj_key (oc_object r) = key \<and> sns_phase (oc_object r) \<in> P)"

lemma phase_frame_same: "(sns_laws E view \<Longrightarrow> view (world s') = view (world s)) \<Longrightarrow> phase_frame E view key P s s'"
  by (auto simp: phase_frame_def)

lemma phase_frame_trans:
  "phase_frame E view key P s t \<Longrightarrow> phase_frame E view key P t u \<Longrightarrow> phase_frame E view key P s u"
  unfolding phase_frame_def by (simp, metis insert_iff)

lemma leaves_quiet: "(\<And>s s'. (L \<Longrightarrow> view (world s') = view (world s)) \<Longrightarrow> R s s') \<Longrightarrow> (L \<Longrightarrow> leaves k view) \<Longrightarrow> quiet R k"
  by (auto simp: quiet_def leaves_def)

lemma EnsureSNSInDB_world: "world (snd (EnsureSNSInDB E r s)) = world s"
  by (auto simp: EnsureSNSInDB_cases AddNS_def bind_reads wrapf_def catch_def fail_def on_forest_def
      split: outcome.splits prod.splits if_splits)

lemma stored_phase: "stored a b \<Longrightarrow> sns_phase b = sns_phase a"
proof -
  assume "stored a b"
  then have "sns_phase (b\<lparr>meta_version := meta_version a\<rparr>) = sns_phase a" by (simp only: stored_def)
  then show ?thesis by simp
qed

lemma sns_update_view:
  assumes "sns_laws E view" "k_update (api_sns E) obj w = (a, w')"
  shows "case a of Inl e \<Rightarrow> view w' = view w
    | Inr obj' \<Rightarrow> obj_key obj' = obj_key obj \<and> sns_phase obj' = sns_phase obj \<and>
        view w' = (view w)(obj_key obj \<mapsto> obj') \<and> view w (obj_key obj) \<noteq> None"
proof -
  have law: "lawful_write view (k_update (api_sns E))"
    using assms(1) by (simp add: sns_laws_def lawful_writeD(1))
  show ?thesis
  proof (cases a)
    case (Inl e)
    then show ?thesis using lawful_write_ErrD [OF law, of obj w e w'] assms(2) by simp
  next
    case (Inr obj')
    then show ?thesis
      using lawful_write_OKD [OF law, of obj w obj' w'] assms(2) by (auto dest: stored_key stored_phase)
  qed
qed

text \<open>An update of a subnamespace, in terms of the view before and after.\<close>

lemma UpdateObjectE_sns_frame:
  fixes R :: "('w, 'q) hns \<Rightarrow> ('w, 'q) hns \<Rightarrow> bool"
  assumes "\<And>obj. upd (oc_object r) = OK obj \<Longrightarrow> ok (r\<lparr>oc_object := obj\<rparr>)"
    and "\<And>s. R s s"
    and "\<And>s obj a w'. ok (r\<lparr>oc_object := obj\<rparr>) \<Longrightarrow> k_update (api_sns E) obj (world s) = (a, w') \<Longrightarrow>
           R s (s\<lparr>world := w'\<rparr>) \<and> (\<forall>obj'. a = Inr obj' \<longrightarrow> ok (r\<lparr>oc_object := obj'\<rparr>))"
  shows "keeps R ok (UpdateObjectE (api_sns E) upd r)"
proof (cases "upd (oc_object r)")
  case (OK obj)
  note okay = assms(1) [OF OK]
  show ?thesis
    unfolding keeps_def
  proof (intro allI)
    fix s :: "('w, 'q) hns"
    obtain a w' where aw: "k_update (api_sns E) obj (world s) = (a, w')" by (cases "k_update (api_sns E) obj (world s)")
    show "R s (snd (UpdateObjectE (api_sns E) upd r s)) \<and> (\<forall>r'. fst (UpdateObjectE (api_sns E) upd r s) = OK r' \<longrightarrow> ok r')"
      using assms(3) [OF okay aw] aw okay OK assms(2)
      by (cases a) (auto simp: UpdateObjectE_def UpdateObject_def check_err_def go_defs Let_def)
  qed
qed (auto simp: keeps_def UpdateObjectE_def UpdateObject_def go_defs assms(2))

interpretation phase: sns_frame "phase_frame E view key P" E "phase_ok E view key P" "\<lambda>_. True" for E view key P
proof
  show refl: "phase_frame E view key P s s" for s by (rule phase_frame_same) simp
  show trans: "phase_frame E view key P s t \<Longrightarrow> phase_frame E view key P t u \<Longrightarrow> phase_frame E view key P s u" for s t u
    by (rule phase_frame_trans)
  have "quiet (phase_frame E view key P) (api_ns E)"
    by (rule leaves_quiet [where view = view and L = "sns_laws E view"]) (simp_all add: sns_laws_leaves phase_frame_same)
  then show "keeps (phase_frame E view key P) (\<lambda>_. True) (createSNSNamespace E p r)" for p r
    by (intro hns_frame.keeps_createSNSNamespace) (unfold_locales, rule refl, rule trans)
  show "quiet (phase_frame E view key P) (api_rq E)"
    "quiet (phase_frame E view key P) (api_crq E)" "quiet (phase_frame E view key P) (api_lr E)"
    by (rule leaves_quiet [where view = view and L = "sns_laws E view"];
        simp add: sns_laws_leaves phase_frame_same)+
  show "phase_frame E view key P s (snd (EnsureSNSInDB E r s))" for s r
    by (rule phase_frame_same) (simp add: EnsureSNSInDB_world)
  show "keeps (phase_frame E view key P) (phase_ok E view key P) (UpdateObjectE (api_sns E) upd r)"
    if "\<And>obj. upd (oc_object r) = OK obj \<Longrightarrow> phase_ok E view key P (r\<lparr>oc_object := obj\<rparr>)" for upd r
    by (rule UpdateObjectE_sns_frame, erule that)
      (auto simp: phase_frame_same, auto simp: phase_frame_def phase_ok_def dest!: sns_update_view split: sum.splits)
qed (auto simp: phase_ok_def obj_key_def intro: phase_frame_same)

lemma phase_start:
  assumes "sns_laws E view" "New (api_sns E) (world s) req empty_sns = OK sns" "oc_present sns"
  shows "view (world s) req = Some (oc_object sns)" "obj_key (oc_object sns) = req"
  using New_present [of "api_sns E" view "world s" req empty_sns sns] assms by (auto simp: sns_laws_def)

text \<open>C2: a reconciliation, whatever the cluster answers and however it ends, writes no subnamespace but
  the one it was asked for, neither creates nor deletes it, and leaves its phase or moves it one
  step: from None to Missing, from Missing or Migrated to Created, and never out of Created.\<close>

theorem Reconcile_phase_step:
  assumes "sns_laws E view" "view (world s) req = Some obj"
  shows "(\<forall>k. k \<noteq> req \<longrightarrow> view (world (snd (Reconcile E req s))) k = view (world s) k) \<and>
    (\<exists>obj'. view (world (snd (Reconcile E req s))) req = Some obj' \<and>
       (sns_phase obj' = sns_phase obj \<or> sns_step (sns_phase obj) (sns_phase obj')))"
proof (cases rule: Reconcile_cases [of E req s])
  case nothing
  then show ?thesis using assms(2) by simp
next
  case (handled sns p f)
  note start = phase_start [OF assms(1) handled(1,2)]
  let ?P = "{q. q = sns_phase obj \<or> sns_step (sns_phase obj) q}"
  have obj: "oc_object sns = obj" using start(1) assms(2) by simp
  have "phase_ok E view req ?P sns" using start(2) obj by (simp add: phase_ok_def)
  moreover have "phase_ok E view req ?P (sns\<lparr>oc_object := obj1\<rparr>) \<and>
      phase_ok E view req ?P (sns\<lparr>oc_object := obj1\<lparr>sns_namespaceRef := oc_name sns, sns_phase := Missing\<rparr>\<rparr>)"
    if "sns_phase (oc_object sns) = NonePhase" "setControllerReference E (oc_object p) (oc_object sns) = Inr obj1" for obj1
    using that assms(1) start(2) obj by (fastforce simp: phase_ok_def sns_laws_def obj_key_def intro: sns_step.intros)
  moreover have "phase_ok E view req ?P r \<Longrightarrow> phase_ok E view req ?P (r\<lparr>oc_object := (oc_object r)\<lparr>sns_phase := Created\<rparr>\<rparr>)"
    if "sns_phase (oc_object sns) = Missing \<or> sns_phase (oc_object sns) = Migrated" for r
    using that obj by (auto simp: phase_ok_def obj_key_def intro: sns_step.intros)
  ultimately have "keeps (phase_frame E view req ?P) (\<lambda>_. True) (f p sns)"
    by (intro phase.keeps_phase_func [OF handled(3)] TrueI)
  then have "phase_frame E view req ?P s (snd (Reconcile E req s))"
    using handled(4) by (simp add: keeps_def)
  then show ?thesis using assms by (auto simp: phase_frame_def)
qed

subsection \<open>The namespace database across a reconciliation\<close>

definition forest_frame ::
  "('w, 'q) env \<Rightarrow> ('w \<Rightarrow> objkey \<Rightarrow> 'q subnamespace option) \<Rightarrow> objkey \<Rightarrow> ('w, 'q) hns \<Rightarrow> ('w, 'q) hns \<Rightarrow> bool" where
  "forest_frame E view key s s' \<longleftrightarrow> (sns_laws E view \<longrightarrow> key_name key \<noteq> '''' \<longrightarrow> forest_ok (crqForest s) \<longrightarrow>
     forest_ok (crqForest s') \<and>
     (\<forall>n. n \<noteq> key_name key \<or> Key (crqForest s) n \<noteq> '''' \<longrightarrow> Key (crqForest s') n = Key (crqForest s) n))"

definition names ::
  "('w, 'q) env \<Rightarrow> ('w \<Rightarrow> objkey \<Rightarrow> 'q subnamespace option) \<Rightarrow> objkey \<Rightarrow> 'q subnamespace object_context \<Rightarrow> bool" where
  "names E view key r \<longleftrightarrow> (sns_laws E view \<longrightarrow> obj_key (oc_object r) = key)"

lemma forest_frame_same: "crqForest s' = crqForest s \<Longrightarrow> forest_frame E view key s s'"
  by (simp add: forest_frame_def)

interpretation forest: sns_frame "forest_frame E view key" E "names E view key" "\<lambda>_. True" for E view key
proof
  show trans: "forest_frame E view key s t \<Longrightarrow> forest_frame E view key t u \<Longrightarrow> forest_frame E view key s u" for s t u
    unfolding forest_frame_def by metis
  show "keeps (forest_frame E view key) (\<lambda>_. True) (createSNSNamespace E p r)" for p r
  proof (rule hns_frame.keeps_createSNSNamespace)
    show "hns_frame (forest_frame E view key)" by unfold_locales (simp add: forest_frame_same, rule trans)
    show "quiet (forest_frame E view key) (api_ns E)" by (simp add: quiet_def forest_frame_same)
  qed
  show "forest_frame E view key s (snd (EnsureSNSInDB E r s))" if "names E view key r" for s r
    using EnsureSNSInDB_forest [of s r E] that
    by (fastforce simp: forest_frame_def names_def obj_key_def nnkey_def)
  show "keeps (forest_frame E view key) (names E view key) (UpdateObjectE (api_sns E) upd r)"
    if "\<And>obj. upd (oc_object r) = OK obj \<Longrightarrow> names E view key (r\<lparr>oc_object := obj\<rparr>)" for upd r
    by (rule UpdateObjectE_sns_frame, erule that)
      (auto simp: forest_frame_same names_def dest: sns_update_view)
qed (auto simp: names_def obj_key_def quiet_def intro: forest_frame_same)

lemma Reconcile_forest_frame:
  assumes "sns_laws E view"
  shows "forest_frame E view req s (snd (Reconcile E req s))"
proof (cases rule: Reconcile_cases [of E req s])
  case nothing
  then show ?thesis by (simp add: forest_frame_same)
next
  case (handled sns p f)
  note start = phase_start [OF assms handled(1,2)]
  then have "names E view req sns" by (simp add: names_def)
  moreover have "names E view req (sns\<lparr>oc_object := obj\<rparr>) \<and>
      names E view req (sns\<lparr>oc_object := obj\<lparr>sns_namespaceRef := oc_name sns, sns_phase := Missing\<rparr>\<rparr>)"
    if "setControllerReference E (oc_object p) (oc_object sns) = Inr obj" for obj
    using that assms start(2) by (fastforce simp: names_def sns_laws_def obj_key_def)
  ultimately have "keeps (forest_frame E view req) (\<lambda>_. True) (f p sns)"
    by (intro forest.keeps_phase_func [OF handled(3)]) (simp_all add: names_def obj_key_def)
  then show ?thesis using handled(4) by (simp add: keeps_def)
qed

text \<open>C12: a reconciliation keeps the invariant of the namespace database and changes the key of no
  namespace that has one; only the reconciled subnamespace can enter it.\<close>

theorem Reconcile_keeps_forest:
  assumes "sns_laws E view" "key_name req \<noteq> ''''" "forest_ok (crqForest s)"
  shows "forest_ok (crqForest (snd (Reconcile E req s))) \<and>
    (\<forall>n. n \<noteq> key_name req \<or> Key (crqForest s) n \<noteq> '''' \<longrightarrow>
       Key (crqForest (snd (Reconcile E req s))) n = Key (crqForest s) n)"
  using Reconcile_forest_frame [OF assms(1), of req s] assms by (simp add: forest_frame_def)

text \<open>A subnamespace whose phase is none of the four known ones makes the controller panic, once its
  namespace is there.\<close>

lemma Reconcile_unknown_phase:
  assumes "New (api_sns E) (world s) req empty_sns = OK sns" "oc_present sns"
    and "New (api_ns E) (world s) (nskey (oc_namespace sns)) empty_meta = OK p" "oc_present p"
    and "sns_phase (oc_object sns) \<notin> {NonePhase, Missing, Migrated, Created}"
  shows "Reconcile E req s = (Panic, s)"
  using assms by (auto simp: Reconcile_start phase_func_def panic_def)

subsection \<open>Instances\<close>

lemma mem_sns_laws: "sns_laws mem_env (mem_view mem_sns)"
  using mem_env_lawful mem_env_leaves unfolding sns_laws_def by (auto simp: mem_env_def)

definition sample_e :: "phase \<Rightarrow> mem" where
  "sample_e phase = sample\<lparr>mem_sns := mk_sns ''c'' ''e'' phase [(''cpu'', 1)] # mem_sns sample\<rparr>"

lemma sample_e_reads:
  "mem_view mem_sns (sample_e Missing) (nnkey ''c'' ''e'') = Some (mk_sns ''c'' ''e'' Missing [(''cpu'', 1)])"
  "sns_phase (mk_sns ''c'' ''e'' p h) = p"
  by code_simp (simp add: mk_sns_def)

theorem Reconcile_phase_step_witness:
  "\<exists>obj'. mem_view mem_sns (world (snd (Reconcile mem_env (nnkey ''c'' ''e'') (mem_state (sample_e Missing) sample_forest))))
       (nnkey ''c'' ''e'') = Some obj' \<and> (sns_phase obj' = Missing \<or> sns_step Missing (sns_phase obj'))"
proof -
  have "world (mem_state (sample_e Missing) sample_forest) = sample_e Missing" by (simp add: mem_state_def)
  then show ?thesis
    using Reconcile_phase_step [OF mem_sns_laws, where s = "mem_state (sample_e Missing) sample_forest" and req = "nnkey ''c'' ''e''" and obj =
        "mk_sns ''c'' ''e'' Missing [(''cpu'', 1)]"] sample_e_reads
    by simp
qed

text \<open>Run to the end, that reconciliation creates the namespace, enters the hierarchy of \<open>b\<close> and
  reaches Created; the next one requeues nothing.\<close>

lemma sample_e_created:
  "(case Reconcile mem_env (nnkey ''c'' ''e'') (mem_state (sample_e Missing) sample_forest) of
      (res, s) \<Rightarrow> res = OK False \<and> map sns_phase (filter (\<lambda>o'. meta_name o' = ''e'') (mem_sns (world s))) = [Created] \<and>
        Key (crqForest s) ''e'' = ''b'' \<and> map meta_name (mem_ns (world s)) = [''root'', ''a'', ''b'', ''c'', ''d'', ''e''])"
  by code_simp

theorem Reconcile_keeps_forest_witness:
  "forest_ok (crqForest (snd (Reconcile mem_env (nnkey ''c'' ''e'') (mem_state (sample_e Missing) sample_forest))))"
proof -
  have "crqForest (mem_state (sample_e Missing) sample_forest) = sample_forest" by (simp add: mem_state_def)
  moreover have "key_name (nnkey ''c'' ''e'') \<noteq> ''''" by (simp add: nnkey_def)
  ultimately show ?thesis
    using Reconcile_keeps_forest [OF mem_sns_laws, where s = "mem_state (sample_e Missing) sample_forest" and req = "nnkey ''c'' ''e''"]
      sample_forest_ok by simp
qed

lemma Reconcile_unknown_phase_instance:
  "fst (Reconcile mem_env (nnkey ''c'' ''e'') (mem_state (sample_e Complete) [])) = Panic"
proof -
  have "New (api_sns mem_env) (sample_e Complete) (nnkey ''c'' ''e'') empty_sns =
      OK (ctx (mk_sns ''c'' ''e'' Complete [(''cpu'', 1)]))"
    "New (api_ns mem_env) (sample_e Complete) (nskey (oc_namespace (ctx (mk_sns ''c'' ''e'' Complete [(''cpu'', 1)])))) empty_meta =
      OK (ctx (mk_ns ''c'' ''b'' ''root/a/b/c'' ''3''))"
    by code_simp+
  then show ?thesis
    using Reconcile_unknown_phase [where E = mem_env and s = "mem_state (sample_e Complete) []" and req = "nnkey ''c'' ''e''" and
        sns = "ctx (mk_sns ''c'' ''e'' Complete [(''cpu'', 1)])" and p = "ctx (mk_ns ''c'' ''b'' ''root/a/b/c'' ''3'')"] sample_e_reads(2)
    by (simp add: mem_state_def ctx_def)
qed

end
