(* ===== verification/UpdateQuota.thy ===== *)
theory UpdateQuota
  imports SnsReconciler
begin

section \<open>The UpdateQuota controller and webhooks\<close>

text \<open>
  \<^verbatim>\<open>internal/updatequota\<close>. An UpdateQuota moves resources from one namespace to another along
  the tree: they are subtracted on the way up to the common ancestor and added on the way down.
  Contexts that go on being used after a failed update are returned together with the error.
\<close>

subsection \<open>upqutils.go\<close>

definition ComposeUPQ ::
  "string \<Rightarrow> string \<Rightarrow> string \<Rightarrow> string \<Rightarrow> 'q resource_list \<Rightarrow> 'q updatequota" where
  "ComposeUPQ upqName sourceNS destNS description resources =
     empty_upq\<lparr>meta_name := upqName, meta_namespace := sourceNS,
       meta_annotations := Some [(DescriptionKey, description)],
       upq_hard := resources, upq_dest := destNS, upq_source := sourceNS\<rparr>"

subsection \<open>controller.go: one subnamespace\<close>

text \<open>
  The closures of \<^verbatim>\<open>addSnsQuota\<close> and \<^verbatim>\<open>subSnsQuota\<close>: every resource of the subnamespace is
  set to its value plus or minus the requested one, in 64-bit arithmetic.
\<close>

definition shift_hard ::
  "('w, 'q) env \<Rightarrow> (int \<Rightarrow> int \<Rightarrow> int) \<Rightarrow> 'q resource_list \<Rightarrow> 'q resource_list \<Rightarrow> 'q resource_list" where
  "shift_hard E f quotaHard hard =
     (let Q = qty E in
      map_option (map (\<lambda>(r, before).
        (r, q_set Q (i64 (f (q_value Q before) (q_value Q (mgetd (q_zero Q) quotaHard r)))) before))) hard)"

definition add_hard :: "('w, 'q) env \<Rightarrow> 'q resource_list \<Rightarrow> 'q subnamespace \<Rightarrow> 'q subnamespace outcome" where
  "add_hard E quotaHard obj = OK (obj\<lparr>sns_hard := shift_hard E (+) quotaHard (sns_hard obj)\<rparr>)"

definition sub_hard :: "('w, 'q) env \<Rightarrow> 'q resource_list \<Rightarrow> 'q subnamespace \<Rightarrow> 'q subnamespace outcome" where
  "sub_hard E quotaHard obj = OK (obj\<lparr>sns_hard := shift_hard E (-) quotaHard (sns_hard obj)\<rparr>)"

text \<open>\<^verbatim>\<open>ensureSnsEqualQuota\<close>: at most \<open>MaxRetries\<close> polls of the quota object; the comparison
  \<^verbatim>\<open>!=\<close> is that of the quantity structs. Running out of retries is not an error.\<close>

definition hard_synced ::
  "('w, 'q) env \<Rightarrow> 'q resource_list \<Rightarrow> 'q resource_list \<Rightarrow> bool" where
  "hard_synced E snsHard quotaHard =
     list_all (\<lambda>r. mgetd (q_zero (qty E)) snsHard r = mgetd (q_zero (qty E)) quotaHard r)
              (map fst (mentries quotaHard))"

fun equal_quota_loop ::
  "('w, 'q) env \<Rightarrow> nat \<Rightarrow> 'q subnamespace object_context \<Rightarrow> (('w, 'q) hns, unit) prog" where
  "equal_quota_loop E 0 sns = ret ()"
| "equal_quota_loop E (Suc n) sns =
     bind (reads (\<lambda>s. SubnamespaceObject E (world s) sns)) (\<lambda>quotaObject.
     let ok = hard_synced E (sns_hard (oc_object sns)) (GetQuotaObjectSpec quotaObject) in
     bind (modify (\<lambda>s. s\<lparr>world := sleep E SleepTimeout (world s)\<rparr>)) (\<lambda>_.
     if ok then ret () else equal_quota_loop E n sns))"

definition ensureSnsEqualQuota ::
  "('w, 'q) env \<Rightarrow> 'q subnamespace object_context \<Rightarrow> (('w, 'q) hns, unit) prog" where
  "ensureSnsEqualQuota E sns = equal_quota_loop E MaxRetries sns"

definition addSnsQuota ::
  "('w, 'q) env \<Rightarrow> 'q resource_list \<Rightarrow> 'q subnamespace object_context \<Rightarrow> (('w, 'q) hns, unit) prog" where
  "addSnsQuota E quotaHard sns =
     bind (EnsureUpdateObject E (api_sns E) (add_hard E quotaHard) False sns) (ensureSnsEqualQuota E)"

definition subSnsQuota ::
  "('w, 'q) env \<Rightarrow> 'q resource_list \<Rightarrow> 'q subnamespace object_context \<Rightarrow> (('w, 'q) hns, unit) prog" where
  "subSnsQuota E quotaHard sns =
     bind (EnsureUpdateObject E (api_sns E) (sub_hard E quotaHard) False sns) (ensureSnsEqualQuota E)"

subsection \<open>controller.go: a path\<close>

text \<open>The subnamespaces on the path below the ancestor, as (parent, name), and their contexts.\<close>

definition path_below :: "string \<Rightarrow> namespace object_context \<Rightarrow> (string \<times> string) list outcome" where
  "path_below ancestorNS ns =
     (let namespaces = Split (CHR ''/'') (mstr (meta_annotations (oc_object ns)) DisplayNameKey) in
     obind (IndexOf ancestorNS namespaces) (\<lambda>index.
       let snsArr = drop index namespaces in OK (zip snsArr (drop 1 snsArr))))"

definition sns_contexts ::
  "('w, 'q) env \<Rightarrow> 'w \<Rightarrow> (string \<times> string) list \<Rightarrow> 'q subnamespace object_context list outcome" where
  "sns_contexts E w path = omap (\<lambda>(parent, nm). New (api_sns E) w (nnkey parent nm) empty_sns) path"

definition getSnsListDown ::
  "('w, 'q) env \<Rightarrow> 'w \<Rightarrow> string \<Rightarrow> namespace object_context \<Rightarrow> 'q subnamespace object_context list outcome" where
  "getSnsListDown E w ancestorNS ns = obind (path_below ancestorNS ns) (sns_contexts E w)"

definition getSnsListUp ::
  "('w, 'q) env \<Rightarrow> 'w \<Rightarrow> namespace object_context \<Rightarrow> string \<Rightarrow> 'q subnamespace object_context list outcome" where
  "getSnsListUp E w ns ancestorNS = obind (path_below ancestorNS ns) (\<lambda>path. sns_contexts E w (rev path))"

definition moveResourcesDown ::
  "('w, 'q) env \<Rightarrow> string \<Rightarrow> namespace object_context \<Rightarrow> 'q updatequota object_context \<Rightarrow> (('w, 'q) hns, unit) prog" where
  "moveResourcesDown E ancestorNS ns upqObject =
     bind (reads (\<lambda>s. getSnsListDown E (world s) ancestorNS ns)) (\<lambda>snsListDown.
     for_each snsListDown (\<lambda>sns.
       wrapf ''updating the quota down the hierarchy failed at namespace %q: %v'' [oc_name sns]
         (addSnsQuota E (upq_hard (oc_object upqObject)) sns)))"

definition moveResourcesUp ::
  "('w, 'q) env \<Rightarrow> string \<Rightarrow> namespace object_context \<Rightarrow> 'q updatequota object_context \<Rightarrow> (('w, 'q) hns, unit) prog" where
  "moveResourcesUp E ancestorNS ns upqObject =
     bind (reads (\<lambda>s. getSnsListUp E (world s) ns ancestorNS)) (\<lambda>snsListUp.
     for_each snsListUp (\<lambda>sns.
       wrapf ''updating the quota up the hierarchy failed at namespace %q: %v'' [oc_name sns]
         (subSnsQuota E (upq_hard (oc_object upqObject)) sns)))"

subsection \<open>controller.go: the reconciler\<close>

definition upq_status :: "phase \<Rightarrow> string \<Rightarrow> 'q updatequota \<Rightarrow> 'q updatequota outcome" where
  "upq_status phase reason obj = OK (obj\<lparr>upq_phase := phase, upq_reason := reason\<rparr>)"

definition updateUPQStatus ::
  "('w, 'q) env \<Rightarrow> 'q updatequota object_context \<Rightarrow> phase \<Rightarrow> string \<Rightarrow>
   (('w, 'q) hns, 'q updatequota object_context \<times> go_error option) prog" where
  "updateUPQStatus E upqObject phase reason =
     bind (UpdateObject (api_upq E) (upq_status phase reason) upqObject) (\<lambda>(upqObject, err).
     ret (upqObject,
          map_option (\<lambda>e. Errorf ''failed updating the status of object %q: %v'' [oc_name upqObject, error_text e]) err))"

text \<open>\<^verbatim>\<open>updateErr := updateUPQStatus(upqObject, danav1.Error, err.Error())\<close>, then the error to
  return: that of the status update if it failed, else \<open>e\<close>.\<close>

definition upq_failure ::
  "('w, 'q) env \<Rightarrow> 'q updatequota object_context \<Rightarrow> go_error \<Rightarrow> go_error \<Rightarrow>
   (('w, 'q) hns, 'q updatequota object_context \<times> go_error option) prog" where
  "upq_failure E upqObject err e =
     bind (updateUPQStatus E upqObject ErrorPhase (error_text err)) (\<lambda>(upqObject, updateErr).
     ret (upqObject, Some (case updateErr of Some ue \<Rightarrow> ue | None \<Rightarrow> e)))"

definition isNSAncestor :: "string \<Rightarrow> string \<Rightarrow> bool" where
  "isNSAncestor ns ancestor \<longleftrightarrow> ns = ancestor"

text \<open>A step of the reconciler: on an error the status is set and the wrapped error returned.\<close>

definition upq_step ::
  "('w, 'q) env \<Rightarrow> 'q updatequota object_context \<Rightarrow> string \<Rightarrow> (('w, 'q) hns, unit) prog \<Rightarrow>
   (('w, 'q) hns, 'q updatequota object_context \<times> go_error option) prog" where
  "upq_step E upqObject f m =
     bind (attempt m) (\<lambda>r.
       case r of
         Inl err \<Rightarrow> upq_failure E upqObject err (Errorf f [error_text err])
       | Inr _ \<Rightarrow> ret (upqObject, None))"

definition moveBetweenBranches ::
  "('w, 'q) env \<Rightarrow> string \<Rightarrow> 'q updatequota object_context \<Rightarrow> namespace object_context \<Rightarrow>
   namespace object_context \<Rightarrow> (('w, 'q) hns, 'q updatequota object_context \<times> go_error option) prog" where
  "moveBetweenBranches E ancestorNSName upqObject sourceNS destNS =
     bind (upq_step E upqObject ''failed move resources up: %v''
             (moveResourcesUp E ancestorNSName sourceNS upqObject)) (\<lambda>(upqObject, err).
     case err of
       Some e \<Rightarrow> ret (upqObject, Some e)
     | None \<Rightarrow>
         upq_step E upqObject ''failed move resources down: %v''
           (moveResourcesDown E ancestorNSName destNS upqObject))"

text \<open>How \<^verbatim>\<open>%q\<close> prints a slice of strings.\<close>

definition quote_slice :: "string list \<Rightarrow> string" where
  "quote_slice xs = ''['' @ Join (CHR '' '') (map (\<lambda>x. CHR 0x22 # x @ [CHR 0x22]) xs) @ '']''"

text \<open>The end of \<^verbatim>\<open>reconcile\<close>, once the resources have been moved.\<close>

definition upq_complete ::
  "('w, 'q) env \<Rightarrow> 'q updatequota object_context \<Rightarrow> (('w, 'q) hns, unit) prog" where
  "upq_complete E upqObject =
     bind (updateUPQStatus E upqObject Complete '''') (\<lambda>(upqObject, err).
       case err of
         None \<Rightarrow> ret ()
       | Some e \<Rightarrow> bind (upq_failure E upqObject e e) (\<lambda>p. bind (check_err p) (\<lambda>_. ret ())))"

definition upq_reconcile ::
  "('w, 'q) env \<Rightarrow> 'q updatequota object_context \<Rightarrow> (('w, 'q) hns, unit) prog" where
  "upq_reconcile E upqObject =
     (let sourceNSName = upq_source (oc_object upqObject); destNSName = upq_dest (oc_object upqObject) in
     bind (wrapf ''failed to get object %q: %v'' [sourceNSName]
             (reads (\<lambda>s. New (api_ns E) (world s) (nskey sourceNSName) empty_meta))) (\<lambda>sourceNS.
     bind (wrapf ''failed to get object %q: %v'' [destNSName]
             (reads (\<lambda>s. New (api_ns E) (world s) (nskey destNSName) empty_meta))) (\<lambda>destNS.
     let sourceNSSliced = DisplayNameSlice sourceNS; destNSSliced = DisplayNameSlice destNS in
     bind (wrapf ''failed to find ancestor namespace of %v and %v: %v''
             [quote_slice sourceNSSliced, quote_slice destNSSliced]
             (lift (GetAncestor sourceNSSliced destNSSliced))) (\<lambda>(ancestorNSName, _).
     bind (if isNSAncestor sourceNSName ancestorNSName then
             upq_step E upqObject ''failed move resources down: %v''
               (moveResourcesDown E ancestorNSName destNS upqObject)
           else if isNSAncestor destNSName ancestorNSName then
             upq_step E upqObject ''failed move resources up: %v''
               (moveResourcesUp E ancestorNSName sourceNS upqObject)
           else
             bind (moveBetweenBranches E ancestorNSName upqObject sourceNS destNS) (\<lambda>(upqObject, err).
             case err of
               None \<Rightarrow> ret (upqObject, None)
             | Some e \<Rightarrow>
                 upq_failure E upqObject e
                   (Errorf ''failed to move resources between branches: %v'' [error_text e]))) (\<lambda>p.
     bind (check_err p) (\<lambda>upqObject.
     upq_complete E upqObject))))))"

definition upq_Reconcile :: "('w, 'q) env \<Rightarrow> objkey \<Rightarrow> (('w, 'q) hns, unit) prog" where
  "upq_Reconcile E req =
     bind (wrapf ''failed to get object %q: %v'' [key_string req]
             (reads (\<lambda>s. New (api_upq E) (world s) req empty_upq))) (\<lambda>upqObject.
     if \<not> IsPresent upqObject then ret ()
     else if ShouldReconcile (upq_phase (oc_object upqObject)) then upq_reconcile E upqObject
     else ret ())"

subsection \<open>createvalidator.go\<close>

definition validateRootNSQuotaObject ::
  "('w, 'q) env \<Rightarrow> 'w \<Rightarrow> namespace object_context \<Rightarrow> response outcome" where
  "validateRootNSQuotaObject E w ns =
     or_errored InternalServerError (RootNSObject E w ns) (\<lambda>quotaObject.
     if \<not> IsPresent quotaObject then OK (Denied ''quota object %q does not exist'' [oc_name ns])
     else OK (Allowed ''''))"

text \<open>When the subnamespace cannot be read, the log call takes the name of the nil context and
  panics before the error response is made.\<close>

definition validateNonRootNSQuotaObject ::
  "('w, 'q) env \<Rightarrow> 'w \<Rightarrow> namespace object_context \<Rightarrow> response outcome" where
  "validateNonRootNSQuotaObject E w ns =
     (case SNSFromNamespace E w ns of
        Panic \<Rightarrow> Panic
      | Err err \<Rightarrow> Panic
      | OK None \<Rightarrow> Panic
      | OK (Some sns) \<Rightarrow>
          or_errored InternalServerError (SubnamespaceObject E w sns) (\<lambda>quotaObject.
          if \<not> quota_present quotaObject then OK (Denied ''quota object %q does not exist'' [oc_name sns])
          else OK (Allowed '''')))"

definition validateNSQuotaObject ::
  "('w, 'q) env \<Rightarrow> 'w \<Rightarrow> namespace object_context \<Rightarrow> response outcome" where
  "validateNSQuotaObject E w ns =
     (if IsRoot (oc_object ns) then validateRootNSQuotaObject E w ns
      else validateNonRootNSQuotaObject E w ns)"

definition upq_handleCreate ::
  "('w, 'q) env \<Rightarrow> 'w \<Rightarrow> 'q updatequota object_context \<Rightarrow> string \<Rightarrow> response outcome" where
  "upq_handleCreate E w upqObject username =
     (let sourceNSName = upq_source (oc_object upqObject); destNSName = upq_dest (oc_object upqObject) in
     or_errored BadRequest (New (api_ns E) w (nskey sourceNSName) empty_meta) (\<lambda>sourceNS.
     or_errored BadRequest (New (api_ns E) w (nskey destNSName) empty_meta) (\<lambda>destNS.
     guard (ValidateNamespaceExist sourceNS) (
     guard (ValidateNamespaceExist destNS) (
     let sourceNSSliced = DisplayNameSlice sourceNS; destNSSliced = DisplayNameSlice destNS in
     or_errored BadRequest (GetAncestor sourceNSSliced destNSSliced) (\<lambda>(ancestorNSName, isAncestorRoot).
     guard (if isAncestorRoot \<and> \<not> IsRoot (oc_object sourceNS) \<and> \<not> IsRoot (oc_object destNS)
            then ValidateSecondaryRoot E w sourceNSSliced destNSSliced else OK (Allowed '''')) (
     guard (ValidatePermissions E w sourceNSSliced sourceNSName destNSName ancestorNSName username True) (
     guard (validateNSQuotaObject E w sourceNS) (
     guard (validateNSQuotaObject E w destNS) (
     OK (Allowed '''')))))))))))"

subsection \<open>validator.go and mutator.go\<close>

definition upq_Handle ::
  "('w, 'q) env \<Rightarrow> 'w \<Rightarrow> 'q updatequota admission_request \<Rightarrow> response outcome" where
  "upq_Handle E w req =
     or_errored BadRequest (New (api_upq E) w (nskey '''') empty_upq) (\<lambda>upqObject.
     or_errored BadRequest (decode_into (req_object req) upqObject) (\<lambda>upqObject.
     guard (if req_operation req = OpCreate then upq_handleCreate E w upqObject (req_user req)
            else OK (Allowed '''')) (
     guard (if req_operation req = OpUpdate then
              (case req_oldObject req of
                 Inl err \<Rightarrow> OK (Errored BadRequest err)
               | Inr oldUPQ \<Rightarrow>
                   if \<not> (upq_phase oldUPQ = '''' \<and> upq_reason oldUPQ = '''')
                   then OK (Denied ''it is forbidden to update an object of type %q'' [''Updatequota''])
                   else OK (Allowed ''''))
            else OK (Allowed '''')) (
     OK (Allowed ''all validations passed'')))))"

text \<open>A mutating webhook answers with the patch from the request's object to a changed one; the
  patch itself is computed by the library.\<close>

datatype 'o mutation = PatchTo 'o | MutationErrored nat go_error

definition UpdateRequester :: "'q updatequota \<Rightarrow> string \<Rightarrow> 'q updatequota" where
  "UpdateRequester obj requester =
     obj\<lparr>meta_annotations := Some (AList.update ''requester'' requester (mentries (meta_annotations obj)))\<rparr>"

definition upq_mutator_Handle :: "'q updatequota admission_request \<Rightarrow> 'q updatequota mutation" where
  "upq_mutator_Handle req =
     (case req_object req of
        Inl err \<Rightarrow> MutationErrored BadRequest err
      | Inr upq \<Rightarrow> PatchTo (UpdateRequester upq (req_user req)))"

end
