(* ===== verification/QuotaMoves.thy ===== *)
theory QuotaMoves
  imports UpdateQuota
begin

section \<open>What an UpdateQuota does to the tree\<close>

text \<open>
  The quota of a subnamespace is shifted by a request in 64-bit arithmetic; the shifts of
  \<^verbatim>\<open>addSnsQuota\<close> and \<^verbatim>\<open>subSnsQuota\<close> undo each other. A move shifts each subnamespace of
  the path once and no other one; the polling that follows each update ends after at most
  \<open>MaxRetries\<close> rounds. What the webhook has made sure of before a move is stated at the end.
\<close>

subsection \<open>Shifts that undo each other\<close>

text \<open>\<^verbatim>\<open>Value\<close> is a 64-bit integer, and \<^verbatim>\<open>Set\<close> makes it the given one.\<close>

definition value_laws :: "'q quantity_ops \<Rightarrow> bool" where
  "value_laws Q \<longleftrightarrow> (\<forall>q. in_i64 (q_value Q q)) \<and> (\<forall>n q. in_i64 n \<longrightarrow> q_value Q (q_set Q n q) = n)"

lemma value_lawsD:
  assumes "value_laws Q"
  shows "i64 (q_value Q q) = q_value Q q" "q_value Q (q_set Q (i64 n) q) = i64 n"
    "q_value Q (q_set Q (q_value Q q') q) = q_value Q q'"
  using assms by (simp_all add: value_laws_def)

definition hard_values :: "('w, 'q) env \<Rightarrow> 'q resource_list \<Rightarrow> (string \<times> int) list" where
  "hard_values E hard = map (\<lambda>(r, q). (r, q_value (qty E) q)) (mentries hard)"

locale undone_by =
  fixes f g :: "int \<Rightarrow> int \<Rightarrow> int"
  assumes undo: "i64 (g (i64 (f a b)) b) = i64 a"
begin

lemma shift_hard_undo:
  assumes "value_laws (qty E)"
  shows "hard_values E (shift_hard E g request (shift_hard E f request hard)) = hard_values E hard"
  using value_lawsD [OF assms]
  by (cases hard) (auto simp: hard_values_def shift_hard_def Let_def case_prod_beta undo)

end

interpretation add_sub: undone_by "(+)" "(-)"
  by unfold_locales simp

interpretation sub_add: undone_by "(-)" "(+)"
  by unfold_locales simp

text \<open>C32: giving a subnamespace resources and taking them back, or taking and giving them back, restores the
  value of every resource, even when the 64-bit arithmetic wraps around.\<close>

theorem sns_quota_roundtrip:
  assumes "value_laws (qty E)" "add_hard E request obj = OK raised" "sub_hard E request raised = OK restored"
    and "sub_hard E request obj = OK lowered" "add_hard E request lowered = OK again"
  shows "hard_values E (sns_hard restored) = hard_values E (sns_hard obj) \<and>
    hard_values E (sns_hard again) = hard_values E (sns_hard obj)"
  using assms add_sub.shift_hard_undo [OF assms(1)] sub_add.shift_hard_undo [OF assms(1)]
  by (auto simp: add_hard_def sub_hard_def)

subsection \<open>Polling\<close>

lemma equal_quota_loop_step:
  "equal_quota_loop E (Suc n) sns s =
     (case SubnamespaceObject E (world s) sns of
        Err e \<Rightarrow> (Err e, s) | Panic \<Rightarrow> (Panic, s)
      | OK q \<Rightarrow>
          (if hard_synced E (sns_hard (oc_object sns)) (GetQuotaObjectSpec q) then ret () else equal_quota_loop E n sns)
            (s\<lparr>world := sleep E SleepTimeout (world s)\<rparr>))"
  by (simp add: go_defs Let_def split: outcome.split)

lemma equal_quota_loop_state:
  "\<exists>k \<le> n. snd (equal_quota_loop E n sns s) = s\<lparr>world := (sleep E SleepTimeout ^^ k) (world s)\<rparr>"
proof (induction n arbitrary: s)
  case 0
  then show ?case by (simp add: ret_def)
next
  case (Suc n)
  let ?s = "s\<lparr>world := sleep E SleepTimeout (world s)\<rparr>"
  obtain k where k: "k \<le> n" "snd (equal_quota_loop E n sns ?s) = ?s\<lparr>world := (sleep E SleepTimeout ^^ k) (world ?s)\<rparr>"
    using Suc.IH [of ?s] by blast
  have "snd (equal_quota_loop E (Suc n) sns s) \<in> (\<lambda>k. s\<lparr>world := (sleep E SleepTimeout ^^ k) (world s)\<rparr>) ` {0, 1, Suc k}"
    unfolding equal_quota_loop_step using k(2) by (simp add: ret_def funpow_swap1 split: outcome.split)
  then show ?case using k(1) by auto
qed

text \<open>C33: the wait for the quota object to follow the subnamespace sleeps at most \<open>MaxRetries\<close> times and
  changes nothing else; it gives up without an error, and fails only where a read of the quota fails.\<close>

theorem ensureSnsEqualQuota_bounded:
  "(\<exists>k \<le> MaxRetries. snd (ensureSnsEqualQuota E sns s) = s\<lparr>world := (sleep E SleepTimeout ^^ k) (world s)\<rparr>) \<and>
   ((\<forall>w. \<exists>q. SubnamespaceObject E w sns = OK q) \<longrightarrow> fst (ensureSnsEqualQuota E sns s) = OK ())"
proof
  show "\<exists>k \<le> MaxRetries. snd (ensureSnsEqualQuota E sns s) = s\<lparr>world := (sleep E SleepTimeout ^^ k) (world s)\<rparr>"
    unfolding ensureSnsEqualQuota_def by (rule equal_quota_loop_state)
  have "fst (equal_quota_loop E n sns s) = OK ()" if "\<forall>w. \<exists>q. SubnamespaceObject E w sns = OK q" for n
  proof (induction n arbitrary: s)
    case (Suc n)
    have "\<exists>q. SubnamespaceObject E (world s) sns = OK q" using that by simp
    then show ?case using Suc unfolding equal_quota_loop_step by (auto simp: ret_def)
  qed (simp add: ret_def)
  then show "(\<forall>w. \<exists>q. SubnamespaceObject E w sns = OK q) \<longrightarrow> fst (ensureSnsEqualQuota E sns s) = OK ()"
    by (simp add: ensureSnsEqualQuota_def)
qed

subsection \<open>One subnamespace\<close>

text \<open>While the operator sleeps nobody else writes subnamespaces.\<close>

definition move_laws :: "('w, 'q) env \<Rightarrow> ('w \<Rightarrow> objkey \<Rightarrow> 'q subnamespace option) \<Rightarrow> bool" where
  "move_laws E view \<longleftrightarrow> lawful (api_sns E) view \<and> (\<forall>ms w. view (sleep E ms w) = view w)"

text \<open>The stored object is the old one with its quota shifted by the request.\<close>

definition shifted ::
  "('w, 'q) env \<Rightarrow> (int \<Rightarrow> int \<Rightarrow> int) \<Rightarrow> 'q resource_list \<Rightarrow> 'q subnamespace \<Rightarrow> 'q subnamespace option \<Rightarrow> bool" where
  "shifted E f request old new \<longleftrightarrow>
     (\<exists>obj. new = Some obj \<and> stored (old\<lparr>sns_hard := shift_hard E f request (sns_hard old)\<rparr>) obj)"

lemma wait_keeps_view:
  assumes "move_laws E view"
  shows "view (world (snd (ensureSnsEqualQuota E sns s))) = view (world s)"
proof -
  have "view ((sleep E SleepTimeout ^^ k) w) = view w" for k w
    using assms by (induction k arbitrary: w) (simp_all add: move_laws_def)
  moreover obtain k where "snd (ensureSnsEqualQuota E sns s) = s\<lparr>world := (sleep E SleepTimeout ^^ k) (world s)\<rparr>"
    using equal_quota_loop_state [of MaxRetries E sns s] unfolding ensureSnsEqualQuota_def by blast
  ultimately show ?thesis by simp
qed

lemma hard_keeps_identity: "keeps_identity (add_hard E request)" "keeps_identity (sub_hard E request)"
  by (auto simp: keeps_identity_def add_hard_def sub_hard_def obj_key_def)

text \<open>The two shifts of a subnamespace, as one fact.\<close>

definition shift_sns ::
  "('w, 'q) env \<Rightarrow> bool \<Rightarrow> 'q resource_list \<Rightarrow> 'q subnamespace object_context \<Rightarrow> (('w, 'q) hns, unit) prog" where
  "shift_sns E down = (if down then addSnsQuota E else subSnsQuota E)"

abbreviation direction :: "bool \<Rightarrow> int \<Rightarrow> int \<Rightarrow> int" where
  "direction down \<equiv> if down then (+) else (-)"

lemma shift_sns_effect:
  fixes s :: "('w, 'q) hns"
  assumes "move_laws E view" "oc_present r" "view (world s) (obj_key (oc_object r)) = Some (oc_object r)"
    and "shift_sns E down request r s = (OK u, s')"
  shows "\<exists>obj. view (world s') = (view (world s))(obj_key (oc_object r) := obj) \<and>
     shifted E (direction down) request (oc_object r) obj"
proof -
  let ?upd = "if down then add_hard E request else sub_hard E request"
  have run: "bind (EnsureUpdateObject E (api_sns E) ?upd False r) (ensureSnsEqualQuota E) s = (OK u, s')"
    using assms(4) by (simp add: shift_sns_def addSnsQuota_def subSnsQuota_def split: if_splits)
  then obtain r1 s1 where r1: "forceUpdate (api_sns E) (deadline_attempts E) ?upd False r s = (OK r1, s1)"
    "ensureSnsEqualQuota E r1 s1 = (OK u, s')"
    by (auto simp: bind_OK_iff EnsureUpdateObject_def)
  have law: "lawful (api_sns E) view" using assms(1) by (simp add: move_laws_def)
  have idn: "keeps_identity ?upd" by (simp add: hard_keeps_identity)
  have "current_or_stale (oc_object r) r" using assms(2) by (simp add: current_or_stale_def)
  from forceUpdate_once [OF law idn this assms(3) r1(1)] obtain obj where
    "?upd (oc_object r) = OK obj" "stored obj (oc_object r1)"
    "view (world s1) = (view (world s))(obj_key (oc_object r) \<mapsto> oc_object r1)" by blast
  moreover have "view (world s') = view (world s1)"
    using wait_keeps_view [OF assms(1), of r1 s1] r1(2) by simp
  ultimately show ?thesis
    by (intro exI [of _ "Some (oc_object r1)"]) (auto simp: shifted_def add_hard_def sub_hard_def split: if_splits)
qed

subsection \<open>A path\<close>

lemma shift_path_effect:
  fixes s :: "('w, 'q) hns"
  assumes "move_laws E view"
    and "for_each rs (\<lambda>r. wrapf fmt (args r) (shift_sns E down request r)) s = (OK u, s')"
    and "distinct (map (\<lambda>r. obj_key (oc_object r)) rs)"
    and "\<And>r. r \<in> set rs \<Longrightarrow> oc_present r \<and> view (world s) (obj_key (oc_object r)) = Some (oc_object r)"
  shows "(\<forall>k. k \<notin> (\<lambda>r. obj_key (oc_object r)) ` set rs \<longrightarrow> view (world s') k = view (world s) k) \<and>
    (\<forall>r \<in> set rs. shifted E (direction down) request (oc_object r) (view (world s') (obj_key (oc_object r))))"
  using assms(2-4)
proof (induction rs arbitrary: s)
  case Nil
  then show ?case by (simp add: ret_def)
next
  case (Cons r rs)
  from Cons.prems(1) obtain u1 s1 where
    one: "shift_sns E down request r s = (OK u1, s1)" and
    rest: "for_each rs (\<lambda>r. wrapf fmt (args r) (shift_sns E down request r)) s1 = (OK u, s')"
    by (auto simp: bind_OK_iff wrapf_OK_iff)
  obtain obj where obj: "view (world s1) = (view (world s))(obj_key (oc_object r) := obj)"
    "shifted E (direction down) request (oc_object r) obj"
    using shift_sns_effect [OF assms(1) _ _ one] Cons.prems(3) [of r] by auto
  have "oc_present r' \<and> view (world s1) (obj_key (oc_object r')) = Some (oc_object r')" if "r' \<in> set rs" for r'
    using that Cons.prems(2) Cons.prems(3) [of r'] obj(1) by (auto simp: image_iff)
  from Cons.IH [OF rest _ this] Cons.prems(2) have
    IH: "\<forall>k. k \<notin> (\<lambda>r. obj_key (oc_object r)) ` set rs \<longrightarrow> view (world s') k = view (world s1) k"
    "\<forall>r \<in> set rs. shifted E (direction down) request (oc_object r) (view (world s') (obj_key (oc_object r)))" by auto
  have "obj_key (oc_object r) \<notin> (\<lambda>r. obj_key (oc_object r)) ` set rs" using Cons.prems(2) by auto
  then have "view (world s') (obj_key (oc_object r)) = obj" using IH(1) obj(1) by simp
  then show ?case using IH obj by auto
qed

abbreviation edge_key :: "string \<times> string \<Rightarrow> objkey" where
  "edge_key e \<equiv> nnkey (fst e) (snd e)"

text \<open>The contexts of a path, when every subnamespace on it exists.\<close>

lemma sns_contexts_read:
  assumes "lawful (api_sns E) view" "sns_contexts E w path = OK rs"
    and "\<And>e. e \<in> set path \<Longrightarrow> view w (edge_key e) \<noteq> None"
  shows "map (\<lambda>r. obj_key (oc_object r)) rs = map edge_key path \<and>
    (\<forall>r \<in> set rs. oc_present r \<and> view w (obj_key (oc_object r)) = Some (oc_object r))"
  using assms(2,3)
proof (induction path arbitrary: rs)
  case Nil
  then show ?case by (simp add: sns_contexts_def)
next
  case (Cons e path)
  then obtain r rs' where r: "New (api_sns E) w (edge_key e) empty_sns = OK r" "sns_contexts E w path = OK rs'" "rs = r # rs'"
    by (auto simp: sns_contexts_def obind_OK_iff case_prod_beta)
  from r(1) have "oc_present r"
  proof (cases rule: New_cases)
    case (absent err)
    then show ?thesis using lawful_NotFoundD [OF assms(1)] Cons.prems(2) [of e] by auto
  qed
  note head = New_present [OF assms(1) r(1) this] this
  have tail: "map (\<lambda>r. obj_key (oc_object r)) rs' = map edge_key path"
    "\<forall>r \<in> set rs'. oc_present r \<and> view w (obj_key (oc_object r)) = Some (oc_object r)"
    using Cons.IH [OF r(2)] Cons.prems(2) by simp_all
  have key: "obj_key (oc_object r) = edge_key e" by (rule conjunct2 [OF head(1)])
  have "view w (obj_key (oc_object r)) = Some (oc_object r)" unfolding key by (rule conjunct1 [OF head(1)])
  then have "\<forall>r \<in> set (r # rs'). oc_present r \<and> view w (obj_key (oc_object r)) = Some (oc_object r)"
    unfolding list.set ball_simps using head(2) tail(2) by blast
  moreover have "map (\<lambda>r. obj_key (oc_object r)) (r # rs') = map edge_key (e # path)"
    by (simp only: list.map key tail(1))
  ultimately show ?case unfolding r(3) by blast
qed

text \<open>A move along a path, up or down.\<close>

lemma move_effect:
  fixes s :: "('w, 'q) hns"
  assumes "move_laws E view" "sns_contexts E (world s) path = OK rs"
    and "for_each rs (\<lambda>r. wrapf fmt (args r) (shift_sns E down request r)) s = (OK u, s')"
    and "distinct (map edge_key path)" "\<And>e. e \<in> set path \<Longrightarrow> view (world s) (edge_key e) \<noteq> None"
  shows "(\<forall>k. k \<notin> edge_key ` set path \<longrightarrow> view (world s') k = view (world s) k) \<and>
    (\<forall>e \<in> set path. \<forall>obj. view (world s) (edge_key e) = Some obj \<longrightarrow>
       shifted E (direction down) request obj (view (world s') (edge_key e)))"
proof -
  have law: "lawful (api_sns E) view" using assms(1) by (simp add: move_laws_def)
  note read = sns_contexts_read [OF law assms(2,5)]
  have keys: "(\<lambda>r. obj_key (oc_object r)) ` set rs = edge_key ` set path"
    using arg_cong [OF conjunct1 [OF read], of set] by simp
  have eff: "(\<forall>k. k \<notin> edge_key ` set path \<longrightarrow> view (world s') k = view (world s) k) \<and>
    (\<forall>r \<in> set rs. shifted E (direction down) request (oc_object r) (view (world s') (obj_key (oc_object r))))"
    using shift_path_effect [OF assms(1,3)] read assms(4) keys by auto
  moreover have "shifted E (direction down) request obj (view (world s') (edge_key e))"
    if "e \<in> set path" and obj: "view (world s) (edge_key e) = Some obj" for e obj
  proof -
    have "edge_key e \<in> (\<lambda>r. obj_key (oc_object r)) ` set rs" unfolding keys using that(1) by (rule imageI)
    then obtain r where r: "edge_key e = obj_key (oc_object r)" "r \<in> set rs" by (rule imageE)
    have "view (world s) (edge_key e) = Some (oc_object r)" using read r(2) unfolding r(1) by blast
    then have "oc_object r = obj" using obj by (simp only: option.inject)
    then show ?thesis using eff r(2) unfolding r(1) by blast
  qed
  ultimately show ?thesis by blast
qed

subsection \<open>The moves of the reconciler\<close>

text \<open>Whoever is on the path is shifted, everybody else is left alone.\<close>

definition path_shifted ::
  "('w, 'q) env \<Rightarrow> (int \<Rightarrow> int \<Rightarrow> int) \<Rightarrow> 'q resource_list \<Rightarrow> (string \<times> string) list \<Rightarrow>
   (objkey \<Rightarrow> 'q subnamespace option) \<Rightarrow> (objkey \<Rightarrow> 'q subnamespace option) \<Rightarrow> bool" where
  "path_shifted E f request path before after \<longleftrightarrow>
     (\<forall>k. k \<notin> edge_key ` set path \<longrightarrow> after k = before k) \<and>
     (\<forall>e \<in> set path. \<forall>obj. before (edge_key e) = Some obj \<longrightarrow> shifted E f request obj (after (edge_key e)))"

lemma moveResourcesDown_shifts:
  fixes s :: "('w, 'q) hns"
  assumes "move_laws E view" "path_below anc ns = OK path" "distinct (map edge_key path)"
    and "\<And>e. e \<in> set path \<Longrightarrow> view (world s) (edge_key e) \<noteq> None"
    and "moveResourcesDown E anc ns upq s = (OK u, s')"
  shows "path_shifted E (+) (upq_hard (oc_object upq)) path (view (world s)) (view (world s'))"
proof -
  from assms(2,5) obtain rs where rs: "sns_contexts E (world s) path = OK rs"
    "for_each rs (\<lambda>r. wrapf ''updating the quota down the hierarchy failed at namespace %q: %v'' [oc_name r]
       (shift_sns E True (upq_hard (oc_object upq)) r)) s = (OK u, s')"
    by (auto simp: moveResourcesDown_def getSnsListDown_def bind_OK_iff reads_def shift_sns_def)
  show ?thesis
    using move_effect [OF assms(1) rs assms(3,4)] by (simp add: path_shifted_def)
qed

lemma moveResourcesUp_shifts:
  fixes s :: "('w, 'q) hns"
  assumes "move_laws E view" "path_below anc ns = OK path" "distinct (map edge_key path)"
    and "\<And>e. e \<in> set path \<Longrightarrow> view (world s) (edge_key e) \<noteq> None"
    and "moveResourcesUp E anc ns upq s = (OK u, s')"
  shows "path_shifted E (-) (upq_hard (oc_object upq)) path (view (world s)) (view (world s'))"
proof -
  from assms(2,5) obtain rs where rs: "sns_contexts E (world s) (rev path) = OK rs"
    "for_each rs (\<lambda>r. wrapf ''updating the quota up the hierarchy failed at namespace %q: %v'' [oc_name r]
       (shift_sns E False (upq_hard (oc_object upq)) r)) s = (OK u, s')"
    by (auto simp: moveResourcesUp_def getSnsListUp_def bind_OK_iff reads_def shift_sns_def)
  have "distinct (map edge_key (rev path))" using assms(3) by (simp add: rev_map [symmetric])
  then show ?thesis
    using move_effect [OF assms(1) rs] assms(4) by (simp add: path_shifted_def)
qed

lemma upq_step_done:
  assumes "upq_step E upq f m s = (OK (upq', None), s')"
  shows "upq' = upq \<and> (\<exists>u. m s = (OK u, s'))"
  using assms
  by (cases "m s" rule: prod.exhaust; cases "fst (m s)")
    (auto simp: upq_step_def attempt_def upq_failure_def bind_def ret_def split: prod.splits outcome.splits)

text \<open>C10: when a move between two branches reports no error, every subnamespace on the way from the source up
  to the common ancestor has lost the requested amounts, every one on the way down to the destination has
  gained them, each exactly once, and no other subnamespace has changed.\<close>

theorem moveBetweenBranches_effect:
  fixes s :: "('w, 'q) hns"
  assumes "move_laws E view" "path_below anc source = OK up" "path_below anc dest = OK down"
    and "distinct (map edge_key (up @ down))"
    and "\<And>e. e \<in> set (up @ down) \<Longrightarrow> view (world s) (edge_key e) \<noteq> None"
    and "moveBetweenBranches E anc upq source dest s = (OK (upq', None), s')"
  shows "(\<forall>k. k \<notin> edge_key ` set (up @ down) \<longrightarrow> view (world s') k = view (world s) k) \<and>
    (\<forall>e \<in> set up. \<forall>obj. view (world s) (edge_key e) = Some obj \<longrightarrow>
       shifted E (-) (upq_hard (oc_object upq)) obj (view (world s') (edge_key e))) \<and>
    (\<forall>e \<in> set down. \<forall>obj. view (world s) (edge_key e) = Some obj \<longrightarrow>
       shifted E (+) (upq_hard (oc_object upq)) obj (view (world s') (edge_key e)))"
proof -
  from assms(6) obtain p1 s1 where
    "upq_step E upq ''failed move resources up: %v'' (moveResourcesUp E anc source upq) s = (OK (p1, None), s1)"
    "upq_step E p1 ''failed move resources down: %v'' (moveResourcesDown E anc dest p1) s1 = (OK (upq', None), s')"
    by (auto simp: moveBetweenBranches_def bind_OK_iff ret_def split: option.splits)
  then obtain u u' where runs: "moveResourcesUp E anc source upq s = (OK u, s1)"
    "moveResourcesDown E anc dest upq s1 = (OK u', s')"
    by (metis upq_step_done)
  have dist: "distinct (map edge_key up)" "distinct (map edge_key down)"
    "edge_key ` set up \<inter> edge_key ` set down = {}"
    using assms(4) by auto
  have first: "path_shifted E (-) (upq_hard (oc_object upq)) up (view (world s)) (view (world s1))"
    by (rule moveResourcesUp_shifts [OF assms(1,2) dist(1) _ runs(1)]) (use assms(5) in simp)
  have same: "view (world s1) (edge_key e) = view (world s) (edge_key e)" if "e \<in> set down" for e
    using first dist(3) imageI [OF that, of edge_key] unfolding path_shifted_def by blast
  have second: "path_shifted E (+) (upq_hard (oc_object upq)) down (view (world s1)) (view (world s'))"
    by (rule moveResourcesDown_shifts [OF assms(1,3) dist(2) _ runs(2)]) (use assms(5) same in simp)
  have after: "view (world s') (edge_key e) = view (world s1) (edge_key e)" if "e \<in> set up" for e
    using second dist(3) imageI [OF that, of edge_key] unfolding path_shifted_def by blast
  have "view (world s') k = view (world s) k" if "k \<notin> edge_key ` set (up @ down)" for k
    using that first second by (simp add: path_shifted_def image_Un)
  moreover have "shifted E (-) (upq_hard (oc_object upq)) obj (view (world s') (edge_key e))"
    if "e \<in> set up" "view (world s) (edge_key e) = Some obj" for e obj
    unfolding after [OF that(1)] using first that unfolding path_shifted_def by blast
  moreover have "shifted E (+) (upq_hard (oc_object upq)) obj (view (world s') (edge_key e))"
    if "e \<in> set down" "view (world s) (edge_key e) = Some obj" for e obj
    using second that(1) that(2) [folded same [OF that(1)]] unfolding path_shifted_def by blast
  ultimately show ?thesis by blast
qed

subsection \<open>Paths\<close>

lemma IndexOf_last:
  assumes "distinct (common @ p)" "common \<noteq> []"
  shows "IndexOf (last common) (common @ p) = OK (length common - 1)"
proof -
  have nth: "(common @ p) ! (length common - 1) = last common"
    using assms(2) by (simp add: last_conv_nth nth_append)
  have "length common - 1 < length (common @ p)" using assms(2) by (cases common) auto
  from IndexOf_nth [OF assms(1) this] nth show ?thesis by simp
qed

lemma path_below_edges:
  assumes "mstr (meta_annotations (oc_object ns)) DisplayNameKey = Join (CHR ''/'') (common @ p)"
    and "distinct (common @ p)" "common \<noteq> []" "\<And>n. n \<in> set (common @ p) \<Longrightarrow> CHR ''/'' \<notin> set n"
  shows "path_below (last common) ns = OK (zip (last common # p) p)"
proof -
  have "Split (CHR ''/'') (Join (CHR ''/'') (common @ p)) = common @ p"
    by (rule Split_Join) (use assms(3,4) in auto)
  moreover obtain front where "common = front @ [last common]" using assms(3) append_butlast_last_id by metis
  then have "drop (length common - 1) (common @ p) = last common # p"
    by (metis append.assoc append_Cons append_Nil append_eq_conv_conj length_append_singleton diff_Suc_1)
  moreover have "Suc (length common - Suc 0) = length common" using assms(3) by simp
  ultimately show ?thesis
    using assms(1) IndexOf_last [OF assms(2,3)] by (simp add: path_below_def Let_def)
qed

lemma zip_edges: "map snd (zip (a # p) p) = p"
  by (simp add: map_snd_zip_take)

text \<open>For two namespaces whose paths part after a common prefix, the subnamespaces below the last common
  namespace are the edges of the two remaining paths, and no subnamespace is on both.\<close>

lemma path_below_branches:
  assumes "mstr (meta_annotations (oc_object source)) DisplayNameKey = Join (CHR ''/'') (common @ p)"
    and "mstr (meta_annotations (oc_object dest)) DisplayNameKey = Join (CHR ''/'') (common @ q)"
    and "distinct (common @ p @ q)" "common \<noteq> []" "\<And>n. n \<in> set (common @ p @ q) \<Longrightarrow> CHR ''/'' \<notin> set n"
  shows "path_below (last common) source = OK (zip (last common # p) p) \<and>
    path_below (last common) dest = OK (zip (last common # q) q) \<and>
    distinct (map edge_key (zip (last common # p) p @ zip (last common # q) q))"
proof (intro conjI)
  show "path_below (last common) source = OK (zip (last common # p) p)"
    by (rule path_below_edges [OF assms(1)]) (use assms(3-5) in auto)
  show "path_below (last common) dest = OK (zip (last common # q) q)"
    by (rule path_below_edges [OF assms(2)]) (use assms(3-5) in auto)
  let ?edges = "zip (last common # p) p @ zip (last common # q) q"
  have "map key_name (map edge_key ?edges) = map snd ?edges" by (simp add: nnkey_def)
  also have "\<dots> = p @ q" by (simp only: map_append zip_edges)
  finally have "distinct (map key_name (map edge_key ?edges))" using assms(3) by simp
  then show "distinct (map edge_key ?edges)" using distinct_map [of key_name "map edge_key ?edges"] by blast
qed

subsection \<open>What an admitted UpdateQuota guarantees\<close>

lemma ancestor_inner_SomeD: "ancestor_inner x i dest n = Some (a, r) \<Longrightarrow> a = x \<and> (\<exists>j < n. dest ! j = x)"
  by (induction n) (auto simp: less_Suc_eq split: if_splits)

lemma ancestor_outer_SomeD: "ancestor_outer source dest n = Some (a, r) \<Longrightarrow> (\<exists>i < n. source ! i = a) \<and> a \<in> set dest"
proof (induction n)
  case (Suc n)
  then show ?case
    by (cases "ancestor_inner (source ! n) n dest (length dest)") (auto dest!: ancestor_inner_SomeD dest: nth_mem simp: less_Suc_eq)
qed simp

lemma GetAncestor_shared: "GetAncestor source dest = OK (a, r) \<Longrightarrow> a \<in> set source \<and> a \<in> set dest"
  by (auto simp: GetAncestor_def dest!: ancestor_outer_SomeD split: option.splits)

definition has_quota :: "('w, 'q) env \<Rightarrow> 'w \<Rightarrow> namespace object_context \<Rightarrow> bool" where
  "has_quota E w ns \<longleftrightarrow>
     (if IsRoot (oc_object ns) then \<exists>quota. RootNSObject E w ns = OK quota \<and> oc_present quota
      else \<exists>sns quota. SNSFromNamespace E w ns = OK (Some sns) \<and> SubnamespaceObject E w sns = OK quota \<and> quota_present quota)"

definition may_move :: "('w, 'q) env \<Rightarrow> 'w \<Rightarrow> string \<Rightarrow> string list \<Rightarrow> string \<Rightarrow> string \<Rightarrow> string \<Rightarrow> bool" where
  "may_move E w user path source dest ancestor \<longleftrightarrow> ValidatePermittedGroups E w user = OK True \<or>
     permissionsExist E w user ancestor = OK True \<or>
     permissionsExist E w user source = OK True \<and> (permissionsExist E w user dest = OK True \<or> dest \<in> set path)"

definition same_secondary_root :: "('w, 'q) env \<Rightarrow> 'w \<Rightarrow> string list \<Rightarrow> string list \<Rightarrow> bool" where
  "same_secondary_root E w path path' \<longleftrightarrow> (\<exists>a b ns ns'. index1 path = OK a \<and> index1 path' = OK b \<and>
     New (api_ns E) w (nskey a) empty_meta = OK ns \<and> New (api_ns E) w (nskey b) empty_meta = OK ns' \<and>
     (a = b \<or> \<not> IsSecondaryRoot (oc_object ns) \<and> \<not> IsSecondaryRoot (oc_object ns')))"

lemma admitted_steps:
  "allows (validateNSQuotaObject E w ns) \<Longrightarrow> has_quota E w ns"
  "allows (ValidatePermissions E w path source dest ancestor user True) \<Longrightarrow> may_move E w user path source dest ancestor"
  "allows (ValidateSecondaryRoot E w path path') \<Longrightarrow> same_secondary_root E w path path'"
proof -
  show "allows (validateNSQuotaObject E w ns) \<Longrightarrow> has_quota E w ns"
    by (auto simp: validateNSQuotaObject_def validateRootNSQuotaObject_def validateNonRootNSQuotaObject_def has_quota_def
        IsPresent_def split: if_splits outcome.splits option.splits)
  show "allows (ValidatePermissions E w path source dest ancestor user True) \<Longrightarrow> may_move E w user path source dest ancestor"
    by (auto simp: ValidatePermissions_def may_move_def Let_def split: if_splits)
  show "allows (ValidateSecondaryRoot E w path path') \<Longrightarrow> same_secondary_root E w path path'"
    by (auto simp: ValidateSecondaryRoot_def same_secondary_root_def allows_obind split: if_splits)
qed

text \<open>C18: an admitted UpdateQuota moves between two existing namespaces that both have a quota object. They share an
  ancestor, on the paths of both; the user is in a permitted group or has permissions on that ancestor, on both ends, or on
  the source when the destination is above it. Where they share only the root, and neither
  end is the root itself, neither is in a hierarchy of its own under a secondary root that the other is not in; moves
  from or to the root, such as migrations make, are exempt from that rule.\<close>

theorem upq_handleCreate_sound:
  assumes "allows (upq_handleCreate E w upq user)"
    and "New (api_ns E) w (nskey (upq_source (oc_object upq))) empty_meta = OK source"
    and "New (api_ns E) w (nskey (upq_dest (oc_object upq))) empty_meta = OK dest"
  shows "oc_present source \<and> oc_present dest \<and> has_quota E w source \<and> has_quota E w dest \<and>
    (\<exists>ancestor only_root. GetAncestor (DisplayNameSlice source) (DisplayNameSlice dest) = OK (ancestor, only_root) \<and>
       ancestor \<in> set (DisplayNameSlice source) \<inter> set (DisplayNameSlice dest) \<and>
       may_move E w user (DisplayNameSlice source) (upq_source (oc_object upq)) (upq_dest (oc_object upq)) ancestor \<and>
       (only_root \<and> \<not> IsRoot (oc_object source) \<and> \<not> IsRoot (oc_object dest) \<longrightarrow>
          same_secondary_root E w (DisplayNameSlice source) (DisplayNameSlice dest)))"
proof -
  obtain ancestor only_root where anc: "GetAncestor (DisplayNameSlice source) (DisplayNameSlice dest) = OK (ancestor, only_root)"
    and steps: "allows (ValidateNamespaceExist source)" "allows (ValidateNamespaceExist dest)"
      "allows (ValidatePermissions E w (DisplayNameSlice source) (upq_source (oc_object upq)) (upq_dest (oc_object upq)) ancestor user True)"
      "allows (validateNSQuotaObject E w source)" "allows (validateNSQuotaObject E w dest)"
      "only_root \<and> \<not> IsRoot (oc_object source) \<and> \<not> IsRoot (oc_object dest) \<Longrightarrow>
         allows (ValidateSecondaryRoot E w (DisplayNameSlice source) (DisplayNameSlice dest))"
    using assms unfolding upq_handleCreate_def Let_def by (auto split: if_splits)
  have "oc_present source" "oc_present dest"
    using steps(1,2) by (auto simp: ValidateNamespaceExist_def IsPresent_def split: if_splits)
  then show ?thesis
    using anc GetAncestor_shared [OF anc] admitted_steps(1) [OF steps(4)] admitted_steps(1) [OF steps(5)]
      admitted_steps(2) [OF steps(3)] admitted_steps(3) [OF steps(6)] by blast
qed

subsection \<open>Instances\<close>

definition wrap_env :: "(mem, int \<times> string) env" where
  "wrap_env = mem_env\<lparr>qty := mem_qty\<lparr>q_value := \<lambda>q. i64 (mem_value q)\<rparr>\<rparr>"

lemma wrap_value_laws: "value_laws (qty wrap_env)"
proof -
  have "(1000 * n + 999) div 1000 = n" "- ((999 - 1000 * n) div 1000) = n" for n :: int
    using div_mult_self1 [of 1000 999 n] div_mult_self1 [of 1000 999 "- n"] by (simp_all add: algebra_simps)
  then have "mem_value (1000 * n, fmt) = n" for n fmt by (simp only: mem_value_def fst_conv if_cancel)
  then show ?thesis by (simp add: value_laws_def wrap_env_def mem_qty_def)
qed

theorem sns_quota_roundtrip_witness:
  "\<exists>raised restored. add_hard wrap_env (Some [(''cpu'', (5000, ''''))]) (mk_sns ''a'' ''b'' Created [(''cpu'', 2 ^ 63 - 1)]) = OK raised \<and>
     sub_hard wrap_env (Some [(''cpu'', (5000, ''''))]) raised = OK restored \<and>
     hard_values wrap_env (sns_hard restored) = [(''cpu'', 2 ^ 63 - 1)]"
proof -
  let ?b = "mk_sns ''a'' ''b'' Created [(''cpu'', 2 ^ 63 - 1)]" and ?q = "Some [(''cpu'', (5000, ''''))]"
  obtain raised restored lowered again where run: "add_hard wrap_env ?q ?b = OK raised" "sub_hard wrap_env ?q raised = OK restored"
    "sub_hard wrap_env ?q ?b = OK lowered" "add_hard wrap_env ?q lowered = OK again"
    by (simp add: add_hard_def sub_hard_def)
  moreover have "hard_values wrap_env (sns_hard ?b) = [(''cpu'', 2 ^ 63 - 1)]" by code_simp
  ultimately show ?thesis using sns_quota_roundtrip [OF wrap_value_laws run] by auto
qed

theorem ensureSnsEqualQuota_bounded_witness:
  "\<exists>k \<le> MaxRetries. snd (ensureSnsEqualQuota mem_env (ctx (mk_sns ''a'' ''d'' Created [])) (mem_state sample [])) =
     (mem_state sample [])\<lparr>world := (sleep mem_env SleepTimeout ^^ k) sample\<rparr>"
  using ensureSnsEqualQuota_bounded [of mem_env "ctx (mk_sns ''a'' ''d'' Created [])" "mem_state sample []"]
  by (simp add: mem_state_def)

definition sample_move :: mem where
  "sample_move = sample\<lparr>mem_crq := [mk_crq ''b'' [], mk_crq ''d'' []]\<rparr>"

definition sample_upq :: "(int \<times> string) updatequota object_context" where
  "sample_upq = ctx (ComposeUPQ ''move'' ''b'' ''d'' '''' (Some [(''cpu'', (1000, ''DecimalSI''))]))"

abbreviation sample_b :: "namespace object_context" where
  "sample_b \<equiv> ctx (mk_ns ''b'' ''a'' ''root/a/b'' ''2'')"

abbreviation sample_dns :: "namespace object_context" where
  "sample_dns \<equiv> ctx (mk_ns ''d'' ''a'' ''root/a/d'' ''2'')"

lemma mem_move_laws: "move_laws mem_env (mem_view mem_sns)"
  using mem_env_lawful(2) by (simp add: move_laws_def mem_env_def)

lemma sample_move_runs:
  "fst (moveBetweenBranches mem_env ''a'' sample_upq sample_b sample_dns (mem_state sample_move [])) = OK (sample_upq, None)"
  "path_below ''a'' sample_b = OK [(''a'', ''b'')]" "path_below ''a'' sample_dns = OK [(''a'', ''d'')]"
  "mem_view mem_sns sample_move (nnkey ''a'' ''b'') = Some (mk_sns ''a'' ''b'' Created [(''cpu'', 5)])"
  "mem_view mem_sns sample_move (nnkey ''a'' ''d'') = Some (mk_sns ''a'' ''d'' Created [(''cpu'', 3)])"
  by code_simp+

theorem moveBetweenBranches_effect_witness:
  "shifted mem_env (-) (Some [(''cpu'', (1000, ''DecimalSI''))]) (mk_sns ''a'' ''b'' Created [(''cpu'', 5)])
     (mem_view mem_sns (world (snd (moveBetweenBranches mem_env ''a'' sample_upq sample_b sample_dns (mem_state sample_move []))))
        (nnkey ''a'' ''b''))"
proof -
  let ?s = "mem_state sample_move []" and ?run = "moveBetweenBranches mem_env ''a'' sample_upq sample_b sample_dns"
  have run: "?run ?s = (OK (sample_upq, None), snd (?run ?s))" using sample_move_runs(1) by (metis prod.collapse)
  have w: "world ?s = sample_move" by (simp add: mem_state_def)
  have dist: "distinct (map edge_key ([(''a'', ''b'')] @ [(''a'', ''d'')]))" by (simp add: nnkey_def)
  have hard: "upq_hard (oc_object sample_upq) = Some [(''cpu'', (1000, ''DecimalSI''))]"
    by (simp add: sample_upq_def ctx_def ComposeUPQ_def)
  have there: "mem_view mem_sns (world ?s) (edge_key e) \<noteq> None" if "e \<in> set ([(''a'', ''b'')] @ [(''a'', ''d'')])" for e
    using that sample_move_runs(4,5) by (auto simp: w)
  show ?thesis
    using moveBetweenBranches_effect [OF mem_move_laws sample_move_runs(2,3) dist there run] sample_move_runs(4)
    by (simp add: w hard)
qed

lemma path_below_branches_instance:
  "path_below ''a'' sample_b = OK [(''a'', ''b'')] \<and> path_below ''a'' sample_dns = OK [(''a'', ''d'')]"
proof -
  have "mstr (meta_annotations (oc_object sample_b)) DisplayNameKey = Join (CHR ''/'') ([''root'', ''a''] @ [''b''])"
    "mstr (meta_annotations (oc_object sample_dns)) DisplayNameKey = Join (CHR ''/'') ([''root'', ''a''] @ [''d''])"
    by code_simp+
  moreover have "CHR ''/'' \<notin> set n" if "n \<in> set ([''root'', ''a''] @ [''b''] @ [''d''])" for n using that by auto
  ultimately show ?thesis
    using path_below_branches [of sample_b "[''root'', ''a'']" "[''b'']" sample_dns "[''d'']"] by simp
qed

text \<open>Ann moves a unit of cpu from \<open>b\<close> to \<open>d\<close>.\<close>

lemma sample_upq_admitted:
  "upq_handleCreate mem_env sample sample_upq ''ann'' = OK (Allowed '''')"
  "New (api_ns mem_env) sample (nskey (upq_source (oc_object sample_upq))) empty_meta = OK sample_b"
  "New (api_ns mem_env) sample (nskey (upq_dest (oc_object sample_upq))) empty_meta = OK sample_dns"
  "GetAncestor (DisplayNameSlice sample_b) (DisplayNameSlice sample_dns) = OK (''a'', False)"
  "upq_source (oc_object sample_upq) = ''b''" "upq_dest (oc_object sample_upq) = ''d''"
  by code_simp+

theorem upq_handleCreate_sound_witness:
  "has_quota mem_env sample sample_b \<and> may_move mem_env sample ''ann'' (DisplayNameSlice sample_b) ''b'' ''d'' ''a''"
proof -
  have "allows (upq_handleCreate mem_env sample sample_upq ''ann'')" by (simp add: sample_upq_admitted(1))
  from upq_handleCreate_sound [OF this sample_upq_admitted(2,3)] show ?thesis
    unfolding sample_upq_admitted(4-6) by auto
qed

end
