(* ===== verification/SnsStatus.thy ===== *)
theory SnsStatus
  imports QuotaMoves
begin

section \<open>The accounting in the status of a subnamespace\<close>

text \<open>
  On every synchronisation the controller writes into the status of a subnamespace what its
  children request, the sum of the requests per resource, and what is left of its own quota. The
  sums are 64-bit integers that wrap around.
\<close>

text \<open>\<^verbatim>\<open>resource.NewQuantity(n, resource.BinarySI)\<close> has the value \<^verbatim>\<open>n\<close>, and the zero value is 0.\<close>

definition status_laws :: "'q quantity_ops \<Rightarrow> bool" where
  "status_laws Q \<longleftrightarrow> value_laws Q \<and> q_value Q (q_zero Q) = 0 \<and>
     (\<forall>n. in_i64 n \<longrightarrow> q_value Q (q_newBinarySI Q n) = n)"

lemma status_lawsD:
  assumes "status_laws Q"
  shows "i64 (q_value Q q) = q_value Q q" "q_value Q (q_zero Q) = 0" "q_value Q (q_newBinarySI Q (i64 n)) = i64 n"
  using assms value_lawsD [of Q] by (simp_all add: status_laws_def)

definition requested :: "('w, 'q) env \<Rightarrow> 'q resource_list \<Rightarrow> string \<Rightarrow> int" where
  "requested E hard r = q_value (qty E) (mgetd (q_zero (qty E)) hard r)"

lemma requested_add_request:
  assumes "status_laws (qty E)"
  shows "requested E (Some (add_request E request k allocated)) r =
    (if r = k then i64 (requested E (Some request) r + requested E (Some allocated) r)
     else requested E (Some allocated) r)"
  by (simp add: requested_def add_request_def Let_def mgetd_def mget_def mentries_def status_lawsD [OF assms])

lemma requested_add_requests:
  assumes "status_laws (qty E)" "distinct ks"
  shows "requested E (Some (fold (add_request E request) ks allocated)) r =
    (if r \<in> set ks then i64 (requested E (Some request) r + requested E (Some allocated) r)
     else requested E (Some allocated) r)"
  using assms(2)
  by (induction ks arbitrary: allocated) (auto simp: requested_add_request [OF assms(1)])

lemma requested_absent:
  assumes "status_laws (qty E)" "r \<notin> set (map fst (mentries hard))"
  shows "requested E hard r = 0"
proof -
  have "mget hard r = None" using assms(2) by (simp add: mget_def map_of_eq_None_iff)
  then show ?thesis by (simp add: requested_def mgetd_def status_lawsD [OF assms(1)])
qed

lemma requested_mentries [simp]: "requested E (Some (mentries hard)) = requested E hard"
proof
  have "mentries (Some (mentries hard)) = mentries hard" by (simp add: mentries_def)
  then show "requested E (Some (mentries hard)) r = requested E hard r" for r
    by (simp only: requested_def mgetd_def mget_def)
qed

lemma requested_add_child:
  assumes "status_laws (qty E)" "wf_map hard"
  shows "requested E (Some (fold (add_request E (mentries hard)) (map fst (mentries hard)) allocated)) r =
    i64 (requested E hard r + requested E (Some allocated) r)"
proof (cases "r \<in> set (map fst (mentries hard))")
  case True
  then show ?thesis using requested_add_requests [OF assms] by simp
next
  case False
  have "i64 (requested E (Some allocated) r) = requested E (Some allocated) r"
    by (simp add: requested_def status_lawsD [OF assms(1)])
  then show ?thesis using False requested_add_requests [OF assms] requested_absent [OF assms(1) False] by simp
qed

lemma requested_add_children:
  assumes "status_laws (qty E)" "\<And>c. c \<in> set children \<Longrightarrow> wf_map (sns_hard c)"
  shows "requested E (Some (fold (\<lambda>c. fold (add_request E (mentries (sns_hard c))) (map fst (mentries (sns_hard c))))
      children allocated)) r =
    i64 (requested E (Some allocated) r + (\<Sum>c\<leftarrow>children. requested E (sns_hard c) r))"
  using assms(2)
proof (induction children arbitrary: allocated)
  case Nil
  then show ?case by (simp add: requested_def status_lawsD [OF assms(1)])
next
  case (Cons c children)
  let ?next = "fold (add_request E (mentries (sns_hard c))) (map fst (mentries (sns_hard c))) allocated"
  have "requested E (Some ?next) r = i64 (requested E (sns_hard c) r + requested E (Some allocated) r)"
    using Cons.prems requested_add_child [OF assms(1)] by simp
  then show ?case using Cons.IH [of ?next] Cons.prems by (simp add: algebra_simps)
qed

lemma put_all_function: "r \<in> set ks \<Longrightarrow> map_of (put_all (map (\<lambda>k. (k, f k)) ks) dst) r = Some (f r)"
proof (induction ks arbitrary: dst)
  case (Cons k ks)
  then show ?case
    by (cases "r \<in> set ks") (auto simp: map_of_put_all_notin image_image)
qed simp

text \<open>C20: the status of a subnamespace accounts for its quota: every child is listed with its request, the
  allocated amount of a resource is the sum of what the children request, and allocated and free amounts of
  every resource of the quota add up to the quota, all in 64-bit arithmetic.\<close>

theorem status_accounts:
  assumes "status_laws (qty E)" "\<And>c. c \<in> set children \<Longrightarrow> wf_map (sns_hard c)"
    and "getResourcesAllocatedToSNSChildren E children = (requests, allocated)"
    and "getFreeToAllocateSNSResources E sns allocated = free"
  shows "requests = map (\<lambda>c. (meta_name c, sns_hard c)) children \<and>
    (\<forall>r. requested E (Some allocated) r = i64 (\<Sum>c\<leftarrow>children. requested E (sns_hard c) r)) \<and>
    (\<forall>r \<in> set (map fst (mentries (sns_hard (oc_object sns)))).
       i64 (requested E (Some allocated) r + requested E (Some free) r) = requested E (sns_hard (oc_object sns)) r)"
proof (intro conjI allI ballI)
  show "requests = map (\<lambda>c. (meta_name c, sns_hard c)) children"
    using assms(3) by (simp add: getResourcesAllocatedToSNSChildren_def)
  fix r
  have "requested E (Some []) r = 0" by (rule requested_absent [OF assms(1)]) (simp add: mentries_def)
  then show "requested E (Some allocated) r = i64 (\<Sum>c\<leftarrow>children. requested E (sns_hard c) r)"
    using requested_add_children [OF assms(1,2), where allocated = "[]" and r = r] assms(3)
    by (auto simp: getResourcesAllocatedToSNSChildren_def)
next
  fix r assume r: "r \<in> set (map fst (mentries (sns_hard (oc_object sns))))"
  have "requested E (Some free) r = i64 (requested E (sns_hard (oc_object sns)) r - requested E (Some allocated) r)"
  proof -
    have "mget (Some free) r = Some (q_newBinarySI (qty E)
        (i64 (requested E (sns_hard (oc_object sns)) r - requested E (Some allocated) r)))"
      using put_all_function [OF r] unfolding assms(4) [symmetric] getFreeToAllocateSNSResources_def Let_def mget_def
        mentries_def [of "Some _"] requested_def option.case .
    then show ?thesis by (simp add: requested_def mgetd_def [of _ "Some free"] status_lawsD [OF assms(1)])
  qed
  then show "i64 (requested E (Some allocated) r + requested E (Some free) r) = requested E (sns_hard (oc_object sns)) r"
    by (simp add: requested_def status_lawsD [OF assms(1)])
qed

lemma wrap_status_laws: "status_laws (qty wrap_env)"
proof -
  have "mem_value (1000 * n, fmt) = n" for n fmt
    using div_mult_self1 [of 1000 999 n] div_mult_self1 [of 1000 999 "- n"] by (simp add: mem_value_def algebra_simps)
  moreover have "q_value (qty wrap_env) (q_zero (qty wrap_env)) = 0" by code_simp
  ultimately show ?thesis
    using wrap_value_laws by (simp add: status_laws_def) (simp add: wrap_env_def mem_qty_def)
qed

theorem status_accounts_witness:
  "requested wrap_env (Some (snd (getResourcesAllocatedToSNSChildren wrap_env
      [mk_sns ''a'' ''b'' Created [(''cpu'', 5)], mk_sns ''a'' ''d'' Created [(''cpu'', 3), (''pods'', 2)]]))) ''cpu'' = 8"
proof -
  let ?cs = "[mk_sns ''a'' ''b'' Created [(''cpu'', 5)], mk_sns ''a'' ''d'' Created [(''cpu'', 3), (''pods'', 2)]]"
  have wf: "\<And>c. c \<in> set ?cs \<Longrightarrow> wf_map (sns_hard c)" by (auto simp: mk_sns_def mentries_def)
  have "(\<Sum>c\<leftarrow>?cs. requested wrap_env (sns_hard c) ''cpu'') = 8" by code_simp
  moreover have "requested wrap_env (Some (snd (getResourcesAllocatedToSNSChildren wrap_env ?cs))) ''cpu'' =
      i64 (\<Sum>c\<leftarrow>?cs. requested wrap_env (sns_hard c) ''cpu'')"
    by (rule spec [OF conjunct1 [OF conjunct2 [OF status_accounts [OF wrap_status_laws wf prod.collapse [symmetric] refl]]]])
  moreover have "i64 8 = 8" by code_simp
  ultimately show ?thesis by (simp only:)
qed

end
