(* ===== verification/Migration.thy ===== *)
theory Migration
  imports SnsStatus
begin

section \<open>The MigrationHierarchy controller and webhooks\<close>

text \<open>
  \<^verbatim>\<open>internal/migrationhierarchy\<close>. A migration moves a subnamespace and all that is below it under
  a new parent: resources are lent by the root and moved to the new parent by an UpdateQuota, the
  subnamespace is created anew under the new parent and deleted under the old one, labels and
  annotations of the namespaces below are rewritten level by level, the forest is updated, and the
  resources are taken back from the old parent.
\<close>

subsection \<open>resources.go\<close>

text \<open>The closures of \<^verbatim>\<open>addRootQuota\<close> and \<^verbatim>\<open>subRootQuota\<close>: here the loop runs over the
  requested resources, and a resource the root lacks is entered.\<close>

definition shift_root_entry ::
  "('w, 'q) env \<Rightarrow> (int \<Rightarrow> int \<Rightarrow> int) \<Rightarrow> 'q resource_list \<Rightarrow> string \<Rightarrow> 'q resource_list \<Rightarrow> 'q resource_list outcome" where
  "shift_root_entry E f quotaHard r hard =
     (let Q = qty E; before = mgetd (q_zero Q) hard r; request = mgetd (q_zero Q) quotaHard r
      in mput r (q_set Q (i64 (f (q_value Q before) (q_value Q request))) before) hard)"

fun shift_root ::
  "('w, 'q) env \<Rightarrow> (int \<Rightarrow> int \<Rightarrow> int) \<Rightarrow> 'q resource_list \<Rightarrow> string list \<Rightarrow> 'q resource_list \<Rightarrow> 'q resource_list outcome" where
  "shift_root E f quotaHard [] hard = OK hard"
| "shift_root E f quotaHard (r # rs) hard =
     obind (shift_root_entry E f quotaHard r hard) (shift_root E f quotaHard rs)"

definition root_update ::
  "('w, 'q) env \<Rightarrow> (int \<Rightarrow> int \<Rightarrow> int) \<Rightarrow> 'q resource_list \<Rightarrow> 'q resource_quota \<Rightarrow> 'q resource_quota outcome" where
  "root_update E f quotaHard obj =
     obind (shift_root E f quotaHard (map fst (mentries quotaHard)) (rq_hard obj)) (\<lambda>hard.
       OK (obj\<lparr>rq_hard := hard\<rparr>))"

definition addRootQuota ::
  "('w, 'q) env \<Rightarrow> 'q resource_quota object_context \<Rightarrow> 'q resource_list \<Rightarrow> (('w, 'q) hns, unit) prog" where
  "addRootQuota E rootNSQuotaObj quotaHard =
     bind (EnsureUpdateObject E (api_rq E) (root_update E (+) quotaHard) False rootNSQuotaObj) (\<lambda>_. ret ())"

definition subRootQuota ::
  "('w, 'q) env \<Rightarrow> 'q resource_quota object_context \<Rightarrow> 'q resource_list \<Rightarrow> (('w, 'q) hns, unit) prog" where
  "subRootQuota E rootNSQuotaObj quotaHard =
     bind (EnsureUpdateObject E (api_rq E) (root_update E (-) quotaHard) False rootNSQuotaObj) (\<lambda>_. ret ())"

definition increaseRootResources ::
  "('w, 'q) env \<Rightarrow> string \<Rightarrow> 'q resource_list \<Rightarrow> (('w, 'q) hns, unit) prog" where
  "increaseRootResources E rootNSName sourceResources =
     bind (wrapf ''failed to get root namespace quota object: %v'' []
             (reads (\<lambda>s. RootNSObjectFromName E (world s) rootNSName))) (\<lambda>rootNSQuotaObj.
     wrapf ''failed to add resources to root namespace quota object: %v'' []
       (addRootQuota E rootNSQuotaObj sourceResources))"

definition decreaseRootResources ::
  "('w, 'q) env \<Rightarrow> string \<Rightarrow> 'q resource_list \<Rightarrow> (('w, 'q) hns, unit) prog" where
  "decreaseRootResources E rootNSName sourceResources =
     bind (wrapf ''failed to get root namespace quota object: %v'' []
             (reads (\<lambda>s. RootNSObjectFromName E (world s) rootNSName))) (\<lambda>rootNSQuotaObj.
     wrapf ''failed to subtract resources from root namespace quota object: %v'' []
       (subRootQuota E rootNSQuotaObj sourceResources))"

definition createUpdateQuota ::
  "('w, 'q) env \<Rightarrow> migration_hierarchy object_context \<Rightarrow> string \<Rightarrow> string \<Rightarrow> string \<Rightarrow> 'q resource_list \<Rightarrow>
   (('w, 'q) hns, unit) prog" where
  "createUpdateQuota E mhObject upqName sourceNS destNS resources =
     (let description = ''Automatically created by migration. Migration name: '' @ oc_name mhObject;
          upq = ComposeUPQ upqName sourceNS destNS description resources in
     bind (reads (\<lambda>s. New (api_upq E) (world s) (nskey '''') upq)) (\<lambda>upqObject.
     bind (CreateObject (api_upq E) upqObject) (\<lambda>_. ret ())))"

definition createMigrationUPQ ::
  "('w, 'q) env \<Rightarrow> migration_hierarchy object_context \<Rightarrow> 'q resource_list \<Rightarrow> string \<Rightarrow> string \<Rightarrow> (('w, 'q) hns, unit) prog" where
  "createMigrationUPQ E mhObject sourceResources sourceNS destNS =
     wrapf ''failed to create updateQuota for migration %q: %v'' [oc_name mhObject]
       (createUpdateQuota E mhObject (oc_name mhObject) sourceNS destNS sourceResources)"

definition getUpdateQuotaStatus ::
  "('w, 'q) env \<Rightarrow> 'w \<Rightarrow> migration_hierarchy object_context \<Rightarrow> string \<Rightarrow> phase outcome" where
  "getUpdateQuotaStatus E w mhObject upqNamespace =
     (let upqName = oc_name mhObject in
     case New (api_upq E) w (nnkey upqNamespace upqName) empty_upq of
       Panic \<Rightarrow> Panic
     | Err err \<Rightarrow> Err (Errorf ''failed getting updatequota object %q: %v'' [upqName, error_text err])
     | OK upqObj \<Rightarrow> OK (upq_phase (oc_object upqObj)))"

definition monitorMigrationUPQ ::
  "('w, 'q) env \<Rightarrow> 'w \<Rightarrow> migration_hierarchy object_context \<Rightarrow> string \<Rightarrow> result outcome" where
  "monitorMigrationUPQ E w mhObject ns =
     (case getUpdateQuotaStatus E w mhObject ns of
        Panic \<Rightarrow> Panic
      | Err err \<Rightarrow> Err (Errorf ''failed getting updateQuota object status %q: %v'' [oc_name mhObject, error_text err])
      | OK upqPhase \<Rightarrow>
          if upqPhase = ErrorPhase
          then Err (Errorf ''failed to do updateQuota for migration %q, phase Error'' [oc_name mhObject])
          else if upqPhase \<noteq> Complete then OK True
          else OK False)"

subsection \<open>controller.go: polling\<close>

text \<open>\<^verbatim>\<open>ensureSnsEqualAnnotations\<close> and \<^verbatim>\<open>ensureSnsEqualLabels\<close> poll the namespace; a failed read
  gives a nil context, dereferenced.\<close>

fun equal_map_loop ::
  "('w, 'q) env \<Rightarrow> nat \<Rightarrow> (namespace \<Rightarrow> strmap) \<Rightarrow> string \<Rightarrow> (string \<times> string) list \<Rightarrow> (('w, 'q) hns, unit) prog" where
  "equal_map_loop E 0 sel nsName wanted = ret ()"
| "equal_map_loop E (Suc n) sel nsName wanted =
     bind (reads (\<lambda>s. otry (New (api_ns E) (world s) (nskey nsName) empty_meta))) (\<lambda>ns.
       case ns of
         None \<Rightarrow> panic
       | Some ns \<Rightarrow>
           let ok = list_all (\<lambda>k. mstr (sel (oc_object ns)) k = mstr (Some wanted) k) (map fst wanted) in
           bind (modify (\<lambda>s. s\<lparr>world := sleep E SleepTimeout (world s)\<rparr>)) (\<lambda>_.
           if ok then ret () else equal_map_loop E n sel nsName wanted))"

definition ensureSnsEqualAnnotations ::
  "('w, 'q) env \<Rightarrow> namespace object_context \<Rightarrow> (string \<times> string) list \<Rightarrow> (('w, 'q) hns, unit) prog" where
  "ensureSnsEqualAnnotations E childNS annotations =
     equal_map_loop E MaxRetries meta_annotations (oc_name childNS) annotations"

definition ensureSnsEqualLabels ::
  "('w, 'q) env \<Rightarrow> namespace object_context \<Rightarrow> (string \<times> string) list \<Rightarrow> (('w, 'q) hns, unit) prog" where
  "ensureSnsEqualLabels E childNS labels =
     equal_map_loop E MaxRetries meta_labels (oc_name childNS) labels"

subsection \<open>related.go\<close>

text \<open>\<^verbatim>\<open>updateCRQSelector\<close>: the closure handed to \<^verbatim>\<open>retry.RetryOnConflict\<close>, and the call.\<close>

definition set_crq_selector ::
  "('w, 'q) env \<Rightarrow> string \<Rightarrow> strmap \<Rightarrow> 'w \<Rightarrow> go_error option \<times> 'w" where
  "set_crq_selector E nm crqAnnotation w =
     (case k_get (api_crq E) (nskey nm) w of
        Inl err \<Rightarrow> (if IsNotFound err then None else Some err, w)
      | Inr crq \<Rightarrow>
          (case k_update (api_crq E) (crq\<lparr>crq_selector := crqAnnotation\<rparr>) w of
             (Inl err, w') \<Rightarrow> (Some err, w')
           | (Inr _, w') \<Rightarrow> (None, w')))"

definition updateCRQSelector ::
  "('w, 'q) env \<Rightarrow> namespace object_context \<Rightarrow> namespace object_context \<Rightarrow> string \<Rightarrow> (('w, 'q) hns, unit) prog" where
  "updateCRQSelector E childNS parentNS nsName =
     (let childNamespaceDepth = Itoa (i64 (Depth (oc_object parentNS) + 1));
          crqAnnotation = Some [(CrqSelectorKey @ ''-'' @ childNamespaceDepth, nsName)] in
     (\<lambda>s. case retryOnConflict E (set_crq_selector E (oc_name childNS) crqAnnotation) (world s) of
            (None, w') \<Rightarrow> (OK (), s\<lparr>world := w'\<rparr>)
          | (Some err, w') \<Rightarrow> (Err err, s\<lparr>world := w'\<rparr>)))"

definition UpdateNSBasedOnParent ::
  "('w, 'q) env \<Rightarrow> namespace object_context \<Rightarrow> namespace object_context \<Rightarrow>
   (('w, 'q) hns, namespace object_context) prog" where
  "UpdateNSBasedOnParent E parentNS childNS =
     (let nsName = oc_name childNS;
          labels = LabelsBasedOnParent parentNS nsName;
          annotations = AnnotationsBasedOnParent parentNS nsName in
     bind (AppendAnnotations (api_ns E) (Some annotations) childNS) (\<lambda>childNS.
     bind (AppendLabels (api_ns E) (Some labels) childNS) (\<lambda>childNS.
     bind (reads (\<lambda>s. IsNSResourcePool E (world s) childNS)) (\<lambda>isChildNSResourcePool.
     bind (reads (\<lambda>s. IsNSUpperResourcePool E (world s) childNS)) (\<lambda>isChildNSUpperResourcePool.
     bind (if \<not> isChildNSResourcePool \<or> isChildNSUpperResourcePool
           then updateCRQSelector E childNS parentNS nsName else ret ()) (\<lambda>_.
     bind (ensureSnsEqualAnnotations E childNS annotations) (\<lambda>_.
     bind (ensureSnsEqualLabels E childNS labels) (\<lambda>_.
     ret childNS))))))))"

text \<open>The recursion over the descendants; \<open>n\<close> is the depth of stack left. A child whose namespace
  cannot be read is a nil context, dereferenced.\<close>

fun UpdateAllNSChildrenOfNs ::
  "('w, 'q) env \<Rightarrow> nat \<Rightarrow> namespace object_context \<Rightarrow> (('w, 'q) hns, unit) prog" where
  "UpdateAllNSChildrenOfNs E 0 parentNS = panic"
| "UpdateAllNSChildrenOfNs E (Suc n) parentNS =
     bind (reads (\<lambda>s. NewList (api_sns E) (world s) (InNamespace (oc_name parentNS)))) (\<lambda>snsChildren.
     for_each snsChildren (\<lambda>sns.
       bind (reads (\<lambda>s. otry (New (api_ns E) (world s) (nskey (meta_name sns)) empty_meta))) (\<lambda>ns.
       case ns of
         None \<Rightarrow> panic
       | Some ns \<Rightarrow>
           bind (UpdateNSBasedOnParent E parentNS ns) (\<lambda>ns.
           UpdateAllNSChildrenOfNs E n ns))))"

definition mh_role_update :: "string \<Rightarrow> namespace \<Rightarrow> namespace outcome" where
  "mh_role_update role obj =
     obind (mput RoleKey role (meta_labels obj)) (\<lambda>labels. OK (obj\<lparr>meta_labels := labels\<rparr>))"

definition updateRole ::
  "('w, 'q) env \<Rightarrow> namespace object_context \<Rightarrow> string \<Rightarrow> (('w, 'q) hns, namespace object_context) prog" where
  "updateRole E sns role = UpdateObjectE (api_ns E) (mh_role_update role) sns"

definition updateRelatedObjects ::
  "('w, 'q) env \<Rightarrow> namespace object_context \<Rightarrow> namespace object_context \<Rightarrow> (('w, 'q) hns, unit) prog" where
  "updateRelatedObjects E toNS ns =
     (let nsName = oc_name ns; toName = oc_name toNS in
     bind (wrapf ''failed updating the labels and annotations of namespace %q according to its parent %q: %v''
             [nsName, toName] (UpdateNSBasedOnParent E toNS ns)) (\<lambda>ns.
     bind (wrapf ''failed updating labels and annotations of child namespaces of sunamespace %q: %v'' [nsName]
             (UpdateAllNSChildrenOfNs E (stack_limit E) ns)) (\<lambda>_.
     bind (wrapf ''failed updating role of subnamespace %q: %v'' [toName]
             (updateRole E toNS NoRole)) (\<lambda>_.
     ret ()))))"

subsection \<open>controller.go: moving the subnamespace\<close>

definition ComposeSNS ::
  "string \<Rightarrow> string \<Rightarrow> 'q resource_list \<Rightarrow> (string \<times> string) list \<Rightarrow> 'q subnamespace" where
  "ComposeSNS nm ns quota labels =
     empty_sns\<lparr>meta_name := nm, meta_namespace := ns, meta_labels := Some labels, sns_hard := quota\<rparr>"

definition createSNS ::
  "('w, 'q) env \<Rightarrow> 'q subnamespace object_context \<Rightarrow> string \<Rightarrow> string \<Rightarrow>
   (('w, 'q) hns, 'q subnamespace object_context) prog" where
  "createSNS E sns currentNamespace toNamespace =
     (let snsName = oc_name sns;
          resources = sns_hard (oc_object sns);
          labels = [(ResourcePoolKey, mstr (meta_labels (oc_object sns)) ResourcePoolKey)];
          composedNewSNS = (ComposeSNS currentNamespace toNamespace resources labels)\<lparr>sns_phase := Migrated\<rparr> in
     bind (reads (\<lambda>s. New (api_sns E) (world s) (nskey snsName) composedNewSNS)) (\<lambda>newSNS.
     wrapf ''creating the subnamespace under the destination namespace failed: %w'' []
       (EnsureCreate (api_sns E) newSNS)))"

definition createNewSNS ::
  "('w, 'q) env \<Rightarrow> 'q subnamespace object_context \<Rightarrow> string \<Rightarrow> string \<Rightarrow>
   (('w, 'q) hns, 'q subnamespace object_context) prog" where
  "createNewSNS E sns currentNamespace toNamespace = createSNS E sns currentNamespace toNamespace"

definition deleteSNS ::
  "('w, 'q) env \<Rightarrow> 'q subnamespace object_context \<Rightarrow> (('w, 'q) hns, unit) prog" where
  "deleteSNS E sns =
     bind (wrapf ''deleting the subnamespace failed: %w'' [] (EnsureDelete (api_sns E) sns)) (\<lambda>_. ret ())"

definition deleteOldSNS ::
  "('w, 'q) env \<Rightarrow> 'q subnamespace object_context \<Rightarrow> 'q subnamespace object_context \<Rightarrow> string \<Rightarrow>
   (('w, 'q) hns, unit) prog" where
  "deleteOldSNS E oldSNS newSNS toNamespace =
     (if mstr (meta_annotations (oc_object oldSNS)) ParentKey = toNamespace then ret ()
      else
      bind (attempt (deleteSNS E oldSNS)) (\<lambda>r.
        case r of
          Inr _ \<Rightarrow> ret ()
        | Inl err \<Rightarrow>
            bind (wrapf ''failed deleting new subnamespace %q: %v'' [oc_name newSNS] (deleteSNS E newSNS)) (\<lambda>_.
            fail (Errorf ''failed deleting old subnamespace %q: %v'' [oc_name oldSNS, error_text err]))))"

definition addSnsToSnsEvent :: "string \<Rightarrow> string \<Rightarrow> (('w, 'q) hns, unit) prog" where
  "addSnsToSnsEvent snsName snsNamespace =
     modify (\<lambda>s. s\<lparr>snsEvents := snsEvents s @ [nnkey snsNamespace snsName]\<rparr>)"

definition enqueueOriginalParent :: "('w, 'q) env \<Rightarrow> string \<Rightarrow> (('w, 'q) hns, unit) prog" where
  "enqueueOriginalParent E sourceSNSParentName =
     bind (wrapf ''failed getting namespace object %q: %v'' [sourceSNSParentName]
             (reads (\<lambda>s. New (api_ns E) (world s) (nskey sourceSNSParentName) empty_meta))) (\<lambda>sourceSNSParentNS.
     addSnsToSnsEvent sourceSNSParentName (Parent (oc_object sourceSNSParentNS)))"

definition enqueueSNSDescendants ::
  "('w, 'q) env \<Rightarrow> 'q subnamespace object_context \<Rightarrow> (('w, 'q) hns, unit) prog" where
  "enqueueSNSDescendants E sns =
     bind (reads (\<lambda>s. GetAllChildren_sns E (world s) (stack_limit E) (Some sns))) (\<lambda>snsDescendants.
     for_each snsDescendants (\<lambda>sns. addSnsToSnsEvent (oc_name sns) (oc_namespace sns)))"

subsection \<open>controller.go: the reconciler\<close>

definition mh_status :: "phase \<Rightarrow> string \<Rightarrow> migration_hierarchy \<Rightarrow> migration_hierarchy outcome" where
  "mh_status phase reason obj = OK (obj\<lparr>mh_phase := phase, mh_reason := reason\<rparr>)"

definition updateMHStatus ::
  "('w, 'q) env \<Rightarrow> migration_hierarchy object_context \<Rightarrow> phase \<Rightarrow> string \<Rightarrow>
   (('w, 'q) hns, migration_hierarchy object_context \<times> go_error option) prog" where
  "updateMHStatus E mhObject phase reason =
     bind (UpdateObject (api_mh E) (mh_status phase reason) mhObject) (\<lambda>(mhObject, err).
     ret (mhObject,
          map_option (\<lambda>e. Errorf ''failed updating the status of object %q: %v'' [oc_name mhObject, error_text e]) err))"

text \<open>A step that may fail: on an error the status is set to Error and the wrapped error (or the
  error of the status update) is returned.\<close>

definition mh_step ::
  "('w, 'q) env \<Rightarrow> migration_hierarchy object_context \<Rightarrow> string \<Rightarrow> string list \<Rightarrow> (('w, 'q) hns, 'a) prog \<Rightarrow>
   (('w, 'q) hns, 'a) prog" where
  "mh_step E mhObject f args m =
     catch m (\<lambda>err.
       bind (updateMHStatus E mhObject ErrorPhase (error_text err)) (\<lambda>p.
       bind (check_err p) (\<lambda>_.
       fail (Errorf f (args @ [error_text err])))))"

text \<open>\<^verbatim>\<open>exists, _, _ := quota.DoesSubnamespaceObjectExist(oldSNS)\<close>\<close>

definition quota_exists ::
  "('w, 'q) env \<Rightarrow> 'w \<Rightarrow> 'q subnamespace object_context \<Rightarrow> bool outcome" where
  "quota_exists E w sns =
     obind (otry (DoesSubnamespaceObjectExist E w sns)) (\<lambda>r.
       OK (case r of Some (Some _) \<Rightarrow> True | _ \<Rightarrow> False))"

text \<open>The phase None of \<^verbatim>\<open>reconcile\<close>: lend the resources and go to InProgress.\<close>

definition mh_start ::
  "('w, 'q) env \<Rightarrow> migration_hierarchy object_context \<Rightarrow> bool \<Rightarrow> string \<Rightarrow> 'q resource_list \<Rightarrow>
   'q subnamespace object_context \<Rightarrow> (('w, 'q) hns, migration_hierarchy object_context) prog" where
  "mh_start E mhObject sourceQuotaObjExists rootNSName sourceResources toSNS =
     bind (if sourceQuotaObjExists then
             bind (mh_step E mhObject ''failed increasing root resources for migration %q: %v'' [oc_name mhObject]
                     (increaseRootResources E rootNSName sourceResources)) (\<lambda>_.
             mh_step E mhObject ''failed create updateQuota for migration %q: %v'' [oc_name mhObject]
               (createMigrationUPQ E mhObject sourceResources rootNSName
                  (mstr (meta_annotations (oc_object toSNS)) CrqPointerKey)))
           else ret ()) (\<lambda>_.
     bind (updateMHStatus E mhObject InProgress '''') check_err)"

text \<open>\<^verbatim>\<open>reconcile\<close> from the creation of the new subnamespace on.\<close>

definition mh_complete ::
  "('w, 'q) env \<Rightarrow> migration_hierarchy object_context \<Rightarrow> (('w, 'q) hns, result) prog" where
  "mh_complete E mhObject =
     bind (updateMHStatus E mhObject Complete '''') (\<lambda>(mhObject, err).
       case err of
         None \<Rightarrow> ret False
       | Some e \<Rightarrow>
           bind (updateMHStatus E mhObject ErrorPhase (error_text e)) (\<lambda>p.
           bind (check_err p) (\<lambda>_. fail e)))"

definition mh_migrate ::
  "('w, 'q) env \<Rightarrow> migration_hierarchy object_context \<Rightarrow> string \<Rightarrow> string \<Rightarrow> namespace object_context \<Rightarrow>
   'q subnamespace object_context \<Rightarrow> namespace object_context \<Rightarrow> bool \<Rightarrow> string \<Rightarrow> 'q resource_list \<Rightarrow>
   (('w, 'q) hns, result) prog" where
  "mh_migrate E mhObject currentNamespace toNamespace ns oldSNS toNS sourceQuotaObjExists rootNSName sourceResources =
     (let sourceSNSParentName = Parent (oc_object ns) in
     bind (mh_step E mhObject ''failed creating subnamespace %q under namespace %q: %v'' [currentNamespace, toNamespace]
             (createNewSNS E oldSNS currentNamespace toNamespace)) (\<lambda>newSNS.
     bind (mh_step E mhObject ''failed deleting old subnamespace %q: %v'' [oc_name oldSNS]
             (deleteOldSNS E oldSNS newSNS toNamespace)) (\<lambda>_.
     bind (mh_step E mhObject ''failed to update related objects: %v'' []
             (updateRelatedObjects E toNS ns)) (\<lambda>_.
     bind (mh_step E mhObject ''failed migrating subnamespace %q in namespacedb: %v'' [oc_name ns]
             (MigrateNSHierarchy E (oc_name ns) (oc_name toNS))) (\<lambda>_.
     bind (mh_step E mhObject ''failed to enqueue %q: %v'' [sourceSNSParentName]
             (enqueueOriginalParent E sourceSNSParentName)) (\<lambda>_.
     bind (enqueueSNSDescendants E newSNS) (\<lambda>_.
     bind (if sourceQuotaObjExists then
             bind (mh_step E mhObject ''failed to create updateQuota for migration %q: %v'' [oc_name mhObject]
                     (createMigrationUPQ E mhObject sourceResources sourceSNSParentName rootNSName)) (\<lambda>_.
             mh_step E mhObject ''failed decreasing root resources for migration: %v'' []
               (decreaseRootResources E rootNSName sourceResources))
           else ret ()) (\<lambda>_.
     mh_complete E mhObject))))))))"

definition mh_reconcile ::
  "('w, 'q) env \<Rightarrow> migration_hierarchy object_context \<Rightarrow> (('w, 'q) hns, result) prog" where
  "mh_reconcile E mhObject =
     (let phase = mh_phase (oc_object mhObject);
          currentNamespace = mh_current (oc_object mhObject); toNamespace = mh_to (oc_object mhObject) in
     bind (mh_step E mhObject ''failed getting namespace object %q: %v'' [currentNamespace]
             (reads (\<lambda>s. New (api_ns E) (world s) (nskey currentNamespace) empty_meta))) (\<lambda>ns.
     let sourceSNSParentName = Parent (oc_object ns) in
     bind (mh_step E mhObject ''failed getting subnamespace object %q: %v'' [currentNamespace]
             (reads (\<lambda>s. New (api_sns E) (world s) (nnkey sourceSNSParentName currentNamespace) empty_sns))) (\<lambda>oldSNS.
     bind (mh_step E mhObject ''failed getting quota object %q: %v'' [currentNamespace]
             (reads (\<lambda>s. NamespaceObject E (world s) ns))) (\<lambda>sourceQuotaObj.
     let sourceResources = GetQuotaObjectSpec sourceQuotaObj; rootNSName = hd (DisplayNameSlice ns) in
     bind (reads (\<lambda>s. quota_exists E (world s) oldSNS)) (\<lambda>sourceQuotaObjExists.
     bind (mh_step E mhObject ''failed to get namespace %q: %v'' [toNamespace]
             (reads (\<lambda>s. New (api_ns E) (world s) (nskey toNamespace) empty_meta))) (\<lambda>toNS.
     bind (mh_step E mhObject ''failed getting subnamespace object %q: %v'' [toNamespace]
             (reads (\<lambda>s. New (api_sns E) (world s) (nnkey (Parent (oc_object toNS)) toNamespace) empty_sns))) (\<lambda>toSNS.
     bind (if phase = NonePhase
           then mh_start E mhObject sourceQuotaObjExists rootNSName sourceResources toSNS
           else ret mhObject) (\<lambda>mhObject.
     bind (if sourceQuotaObjExists then
             mh_step E mhObject ''failed to add migration resources: %v'' []
               (reads (\<lambda>s. monitorMigrationUPQ E (world s) mhObject rootNSName))
           else ret False) (\<lambda>res.
     if res then ret res
     else mh_migrate E mhObject currentNamespace toNamespace ns oldSNS toNS sourceQuotaObjExists rootNSName
            sourceResources)))))))))"

definition mh_Reconcile :: "('w, 'q) env \<Rightarrow> objkey \<Rightarrow> (('w, 'q) hns, result) prog" where
  "mh_Reconcile E req =
     bind (wrapf ''failed to get object %q: %v'' [key_string req]
             (reads (\<lambda>s. New (api_mh E) (world s) (nskey (key_name req)) empty_mh))) (\<lambda>mhObject.
     if \<not> IsPresent mhObject then ret False
     else if ShouldReconcile (mh_phase (oc_object mhObject)) then mh_reconcile E mhObject
     else ret False)"

subsection \<open>createvalidator.go\<close>

record MigrationHierarchyValidator =
  mv_NamespaceDB :: forest
  mv_MaxSNS :: int

definition validateCurrentNSAndToNSEqual :: "string \<Rightarrow> string \<Rightarrow> response outcome" where
  "validateCurrentNSAndToNSEqual currentNSName toNSName =
     (if currentNSName = toNSName
      then OK (Denied ''it's forbidden to migrate a Subnamespace to be under itself'' [])
      else OK (Allowed ''''))"

definition validateMigrationLoop :: "string list \<Rightarrow> string \<Rightarrow> response outcome" where
  "validateMigrationLoop toNSSliced currentNSName =
     (if ContainsString toNSSliced currentNSName
      then OK (Denied ''it's forbidden to migrate a Subnamespace to be under its own descendant since it would create a loop'' [])
      else OK (Allowed ''''))"

definition validateSNSToRPMigration :: "bool \<Rightarrow> bool \<Rightarrow> response outcome" where
  "validateSNSToRPMigration isCurrentNSResourcePool isToNSResourcePool =
     (if \<not> isCurrentNSResourcePool \<and> isToNSResourcePool
      then OK (Denied ''it's forbidden to migrate from a Subnamespace to a ResourcePool. You can convert the subnamespace to a ResourcePool and try again'' [])
      else OK (Allowed ''''))"

definition validateNonUpperRPToSNSMigration :: "bool \<Rightarrow> bool \<Rightarrow> response outcome" where
  "validateNonUpperRPToSNSMigration isCurrentUpperResourcePool isToNSResourcePool =
     (if \<not> isCurrentUpperResourcePool \<and> \<not> isToNSResourcePool
      then OK (Denied ''it's forbidden to migrate a non-upper ResourcePool to be under a Subnamespace'' [])
      else OK (Allowed ''''))"

definition getNSChildrenNum :: "('w, 'q) env \<Rightarrow> 'w \<Rightarrow> string \<Rightarrow> nat outcome" where
  "getNSChildrenNum E w nsname =
     obind (Get (api_crq E) w (nskey nsname)) (\<lambda>crq. OK (length (crq_namespaces crq)))"

definition mh_validateKeyCountInDB ::
  "('w, 'q) env \<Rightarrow> 'w \<Rightarrow> MigrationHierarchyValidator \<Rightarrow> string \<Rightarrow> string \<Rightarrow> response outcome" where
  "mh_validateKeyCountInDB E w v toNSKey currentNSName =
     or_denied (getNSChildrenNum E w currentNSName) (\<lambda>childrenNum.
     if int (KeyCount (mv_NamespaceDB v) toNSKey + childrenNum) \<ge> mv_MaxSNS v
     then OK (Denied ''it's forbidden to create more than %v namespaces under hierarchy %q'' [Itoa (mv_MaxSNS v), toNSKey])
     else OK (Allowed ''''))"

definition mh_handleCreate ::
  "('w, 'q) env \<Rightarrow> 'w \<Rightarrow> MigrationHierarchyValidator \<Rightarrow> migration_hierarchy object_context \<Rightarrow> string \<Rightarrow> response outcome" where
  "mh_handleCreate E w v mhObject reqUser =
     (let currentNSName = mh_current (oc_object mhObject); toNSName = mh_to (oc_object mhObject) in
     or_errored BadRequest (New (api_ns E) w (nskey currentNSName) empty_meta) (\<lambda>currentNS.
     or_errored BadRequest (New (api_ns E) w (nskey toNSName) empty_meta) (\<lambda>toNS.
     guard (validateCurrentNSAndToNSEqual currentNSName toNSName) (
     guard (ValidateNamespaceExist currentNS) (
     guard (ValidateNamespaceExist toNS) (
     guard (ValidateToNamespaceName currentNS toNSName) (
     let currentNSSliced = DisplayNameSlice currentNS; toNSSliced = DisplayNameSlice toNS in
     or_errored BadRequest (GetAncestor currentNSSliced toNSSliced) (\<lambda>(ancestorNSName, isAncestorRoot).
     guard (validateMigrationLoop toNSSliced currentNSName) (
     guard (if isAncestorRoot \<and> \<not> IsRoot (oc_object currentNS) \<and> \<not> IsRoot (oc_object toNS)
            then ValidateSecondaryRoot E w currentNSSliced toNSSliced else OK (Allowed '''')) (
     guard (ValidatePermissions E w currentNSSliced currentNSName toNSName ancestorNSName reqUser False) (
     or_errored BadRequest (IsNSResourcePool E w currentNS) (\<lambda>isCurrentNSResourcePool.
     or_errored BadRequest (IsNSResourcePool E w toNS) (\<lambda>isToNSResourcePool.
     guard (validateSNSToRPMigration isCurrentNSResourcePool isToNSResourcePool) (
     guard (if isCurrentNSResourcePool then
              or_errored BadRequest (IsNSUpperResourcePool E w currentNS) (\<lambda>isNSUpperResourcePool.
              validateNonUpperRPToSNSMigration isNSUpperResourcePool isToNSResourcePool)
            else OK (Allowed '''')) (
     guard (if \<not> isCurrentNSResourcePool \<and> \<not> isToNSResourcePool \<and>
               Key (mv_NamespaceDB v) currentNSName \<noteq> '''' \<and> Key (mv_NamespaceDB v) toNSName \<noteq> ''''
            then mh_validateKeyCountInDB E w v (Key (mv_NamespaceDB v) toNSName) currentNSName
            else OK (Allowed '''')) (
     OK (Allowed '''')))))))))))))))))"

subsection \<open>validator.go and mutator.go\<close>

definition mh_Handle ::
  "('w, 'q) env \<Rightarrow> 'w \<Rightarrow> MigrationHierarchyValidator \<Rightarrow> migration_hierarchy admission_request \<Rightarrow> response outcome" where
  "mh_Handle E w v req =
     or_errored BadRequest (New (api_mh E) w (nskey '''') empty_mh) (\<lambda>mhObject.
     or_errored BadRequest (decode_into (req_object req) mhObject) (\<lambda>mhObject.
     guard (if req_operation req = OpCreate then mh_handleCreate E w v mhObject (req_user req)
            else OK (Allowed '''')) (
     guard (if req_operation req = OpUpdate then
              (case req_oldObject req of
                 Inl err \<Rightarrow> OK (Errored BadRequest err)
               | Inr oldMH \<Rightarrow>
                   if \<not> (mh_current (oc_object mhObject) = mh_current oldMH \<and> mh_to (oc_object mhObject) = mh_to oldMH)
                   then OK (Denied ''it is forbidden to update an object of type %q'' [''MigrationHierarchy''])
                   else OK (Allowed ''''))
            else OK (Allowed '''')) (
     OK (Allowed ''all validations passed'')))))"

definition mh_UpdateRequester :: "migration_hierarchy \<Rightarrow> string \<Rightarrow> migration_hierarchy" where
  "mh_UpdateRequester migrationHierarchyObject requester =
     migrationHierarchyObject\<lparr>meta_annotations :=
       Some (AList.update ''requester'' requester (mentries (meta_annotations migrationHierarchyObject)))\<rparr>"

definition mh_mutator_Handle :: "migration_hierarchy admission_request \<Rightarrow> migration_hierarchy mutation" where
  "mh_mutator_Handle req =
     (case req_object req of
        Inl err \<Rightarrow> MutationErrored BadRequest err
      | Inr migrationHierarchy \<Rightarrow> PatchTo (mh_UpdateRequester migrationHierarchy (req_user req)))"

subsection \<open>buildconfig: mutator.go\<close>

text \<open>\<^verbatim>\<open>internal/buildconfig\<close>: a BuildConfig without resource requests gets default ones.\<close>

record 'q build_config =
  bc_requests :: "'q resource_list"
  bc_limits :: "'q resource_list"

definition setDefaultValues :: "('w, 'q) env \<Rightarrow> 'q build_config \<Rightarrow> 'q build_config outcome" where
  "setDefaultValues E buildConfig =
     (if length (mentries (bc_requests buildConfig)) = 0 then
        obind (MustParse E ''1'') (\<lambda>cpu.
        obind (MustParse E ''2Gi'') (\<lambda>memory.
        let defaults = Some [(''cpu'', cpu), (''memory'', memory)]
        in OK (buildConfig\<lparr>bc_requests := defaults, bc_limits := defaults\<rparr>)))
      else OK buildConfig)"

definition bc_Handle ::
  "('w, 'q) env \<Rightarrow> 'q build_config admission_request \<Rightarrow> 'q build_config mutation outcome" where
  "bc_Handle E req =
     (case req_object req of
        Inl err \<Rightarrow> OK (MutationErrored BadRequest err)
      | Inr buildConfig \<Rightarrow> obind (setDefaultValues E buildConfig) (\<lambda>bc. OK (PatchTo bc)))"

subsection \<open>What an admitted migration guarantees\<close>

text \<open>A namespace inside a hierarchy (not its key), whose descendants, itself included, are \<open>children\<close>, before its
  migration in the namespace database to the hierarchy of \<open>dest\<close>.\<close>

definition moves_inside ::
  "('w, 'q) env \<Rightarrow> ('w, 'q) hns \<Rightarrow> string \<Rightarrow> string \<Rightarrow> namespace object_context list \<Rightarrow> bool" where
  "moves_inside E s n dest children \<longleftrightarrow> forest_ok (crqForest s) \<and>
     Key (crqForest s) n \<noteq> '''' \<and> Key (crqForest s) n \<noteq> n \<and> Key (crqForest s) dest \<noteq> '''' \<and>
     (\<exists>ns. New (api_ns E) (world s) (nskey n) empty_meta = OK ns \<and>
        GetAllChildren_ns E (world s) (stack_limit E) (Some ns) = OK children) \<and>
     distinct (map oc_name children) \<and>
     list_all (\<lambda>c. c \<noteq> '''' \<and> c \<noteq> Key (crqForest s) n \<and> Key (crqForest s) c = Key (crqForest s) n) (map oc_name children)"

lemma migrated_count:
  assumes "moves_inside E s n dest children"
  shows "\<exists>F. MigrateNSHierarchy E n dest s = (OK (), s\<lparr>crqForest := F\<rparr>) \<and> forest_ok F \<and>
    KeyCount F (Key (crqForest s) dest) \<le> KeyCount (crqForest s) (Key (crqForest s) dest) + length children"
proof -
  obtain ns where ns: "New (api_ns E) (world s) (nskey n) empty_meta = OK ns"
    "GetAllChildren_ns E (world s) (stack_limit E) (Some ns) = OK children"
    using assms by (auto simp: moves_inside_def)
  have "forest_ok (crqForest s)" "Key (crqForest s) n \<noteq> ''''" "Key (crqForest s) n \<noteq> n" "Key (crqForest s) dest \<noteq> ''''"
    "distinct (map oc_name children)"
    "\<And>c. c \<in> set (map oc_name children) \<Longrightarrow> c \<noteq> '''' \<and> c \<noteq> Key (crqForest s) n \<and> Key (crqForest s) c = Key (crqForest s) n"
    using assms by (auto simp: moves_inside_def list_all_iff)
  from MigrateNSHierarchy_moved [OF this(1-4) ns this(5,6)] obtain F where
    F: "MigrateNSHierarchy E n dest s = (OK (), s\<lparr>crqForest := F\<rparr>)" "forest_ok F"
    "\<forall>key. KeyCount F key \<le> KeyCount (crqForest s) key + of_bool (key = Key (crqForest s) dest) * length children" by blast
  have "KeyCount F (Key (crqForest s) dest) \<le> KeyCount (crqForest s) (Key (crqForest s) dest) +
      of_bool (Key (crqForest s) dest = Key (crqForest s) dest) * length children" by (rule spec [OF F(3)])
  then show ?thesis using F(1,2) by (intro exI [of _ F]) simp
qed

text \<open>C16: an admitted migration names two existing namespaces, and hanging the first below the second makes no
  loop: it is not the destination, not on the destination's path, and the new path repeats no name. It changes
  the parent, it puts no plain subnamespace into a ResourcePool and no inner ResourcePool under a plain
  subnamespace. The limit on the size of a hierarchy is checked only between two namespaces that are no ResourcePools and
  have keys: there the destination's hierarchy is still below the limit after the migration in the namespace database, when the
  namespace is not itself a key and its ClusterResourceQuota lists at least the namespaces that move.\<close>

theorem mh_handleCreate_sound:
  fixes E :: "('w, 'q) env"
  assumes "allows (mh_handleCreate E w v mh user)"
    and "New (api_ns E) w (nskey (mh_current (oc_object mh))) empty_meta = OK current"
    and "New (api_ns E) w (nskey (mh_to (oc_object mh))) empty_meta = OK to"
    and "IsNSResourcePool E w current = OK pool" "IsNSResourcePool E w to = OK toPool"
  shows "oc_present current \<and> oc_present to \<and> mh_current (oc_object mh) \<noteq> mh_to (oc_object mh) \<and>
    mh_to (oc_object mh) \<noteq> Parent (oc_object current) \<and>
    (distinct (DisplayNameSlice to) \<longrightarrow> distinct (DisplayNameSlice to @ [mh_current (oc_object mh)])) \<and>
    (toPool \<longrightarrow> pool) \<and> (pool \<and> \<not> toPool \<longrightarrow> IsNSUpperResourcePool E w current = OK True) \<and>
    (\<not> pool \<and> \<not> toPool \<and> Key (mv_NamespaceDB v) (mh_current (oc_object mh)) \<noteq> '''' \<and>
       Key (mv_NamespaceDB v) (mh_to (oc_object mh)) \<noteq> '''' \<longrightarrow>
     (\<exists>crq. Get (api_crq E) w (nskey (mh_current (oc_object mh))) = OK crq \<and>
       int (KeyCount (mv_NamespaceDB v) (Key (mv_NamespaceDB v) (mh_to (oc_object mh))) + length (crq_namespaces crq))
         < mv_MaxSNS v \<and>
       (\<forall>(s :: ('w, 'q) hns) children. crqForest s = mv_NamespaceDB v \<and>
          moves_inside E s (mh_current (oc_object mh)) (mh_to (oc_object mh)) children \<and>
          length children \<le> length (crq_namespaces crq) \<longrightarrow>
          (\<exists>F. MigrateNSHierarchy E (mh_current (oc_object mh)) (mh_to (oc_object mh)) s = (OK (), s\<lparr>crqForest := F\<rparr>) \<and>
             forest_ok F \<and> int (KeyCount F (Key (mv_NamespaceDB v) (mh_to (oc_object mh)))) < mv_MaxSNS v))))"
proof -
  let ?cur = "mh_current (oc_object mh)" and ?to = "mh_to (oc_object mh)"
  note steps = assms(1) [unfolded mh_handleCreate_def Let_def allows_or_errored allows_guard assms(2-5)
    outcome.inject ex_simps simp_thms case_prod_beta]
  have pools: "(toPool \<longrightarrow> pool) \<and> (pool \<and> \<not> toPool \<longrightarrow> IsNSUpperResourcePool E w current = OK True)"
    using steps by (auto simp: validateSNSToRPMigration_def validateNonUpperRPToSNSMigration_def split: if_splits)
  moreover have room: "\<exists>crq. Get (api_crq E) w (nskey ?cur) = OK crq \<and>
      int (KeyCount (mv_NamespaceDB v) (Key (mv_NamespaceDB v) ?to) + length (crq_namespaces crq)) < mv_MaxSNS v"
    if "\<not> pool \<and> \<not> toPool \<and> Key (mv_NamespaceDB v) ?cur \<noteq> '''' \<and> Key (mv_NamespaceDB v) ?to \<noteq> ''''"
    using steps that
    by (auto simp: mh_validateKeyCountInDB_def getNSChildrenNum_def obind_OK_iff allows_if not_le split: if_splits)
  moreover have bound: "\<exists>F. MigrateNSHierarchy E ?cur ?to s = (OK (), s\<lparr>crqForest := F\<rparr>) \<and> forest_ok F \<and>
      int (KeyCount F (Key (mv_NamespaceDB v) ?to)) < mv_MaxSNS v"
    if "int (KeyCount (mv_NamespaceDB v) (Key (mv_NamespaceDB v) ?to) + n) < mv_MaxSNS v" "crqForest s = mv_NamespaceDB v"
      "moves_inside E s ?cur ?to children" "length children \<le> n" for s :: "('w, 'q) hns" and children n
    using migrated_count [OF that(3)] that(1,2,4) by fastforce
  moreover have "oc_present current \<and> oc_present to \<and> ?cur \<noteq> ?to \<and> ?to \<noteq> Parent (oc_object current) \<and>
      ?cur \<notin> set (DisplayNameSlice to)"
    using steps by (auto simp: validateCurrentNSAndToNSEqual_def ValidateNamespaceExist_def ValidateToNamespaceName_def
        validateMigrationLoop_def IsPresent_def split: if_splits)
  moreover have "\<exists>crq. Get (api_crq E) w (nskey ?cur) = OK crq \<and>
      int (KeyCount (mv_NamespaceDB v) (Key (mv_NamespaceDB v) ?to) + length (crq_namespaces crq)) < mv_MaxSNS v \<and>
      (\<forall>(s :: ('w, 'q) hns) children. crqForest s = mv_NamespaceDB v \<and> moves_inside E s ?cur ?to children \<and>
         length children \<le> length (crq_namespaces crq) \<longrightarrow>
         (\<exists>F. MigrateNSHierarchy E ?cur ?to s = (OK (), s\<lparr>crqForest := F\<rparr>) \<and>
            forest_ok F \<and> int (KeyCount F (Key (mv_NamespaceDB v) ?to)) < mv_MaxSNS v))"
    if "\<not> pool \<and> \<not> toPool \<and> Key (mv_NamespaceDB v) ?cur \<noteq> '''' \<and> Key (mv_NamespaceDB v) ?to \<noteq> ''''"
    using room [OF that] bound by blast
  ultimately show ?thesis by (intro conjI impI) simp_all
qed

definition sample_mh :: "migration_hierarchy object_context" where
  "sample_mh = ctx (empty_mh\<lparr>meta_name := ''c-to-d'', mh_current := ''c'', mh_to := ''d''\<rparr>)"

definition sample_mv :: MigrationHierarchyValidator where
  "sample_mv = \<lparr>mv_NamespaceDB = sample_forest, mv_MaxSNS = 50\<rparr>"

abbreviation sample_c :: "namespace object_context" where
  "sample_c \<equiv> ctx (mk_ns ''c'' ''b'' ''root/a/b/c'' ''3'')"

lemma sample_mh_evaluates:
  "allows (mh_handleCreate mem_env sample sample_mv sample_mh ''ann'')"
  "New (api_ns mem_env) sample (nskey (mh_current (oc_object sample_mh))) empty_meta = OK sample_c"
  "New (api_ns mem_env) sample (nskey (mh_to (oc_object sample_mh))) empty_meta = OK sample_dns"
  "IsNSResourcePool mem_env sample sample_c = OK False" "IsNSResourcePool mem_env sample sample_dns = OK False"
  "DisplayNameSlice sample_dns = [''root'', ''a'', ''d'']" "mh_current (oc_object sample_mh) = ''c''"
  subgoal
  proof -
    have "mh_handleCreate mem_env sample sample_mv sample_mh ''ann'' = OK (Allowed '''')" by code_simp
    then show ?thesis by simp
  qed
  by code_simp+

lemma sample_moves_inside:
  "moves_inside mem_env (mem_state sample sample_forest) ''c'' ''d'' [sample_c]"
  "Key (mv_NamespaceDB sample_mv) ''c'' \<noteq> ''''" "Key (mv_NamespaceDB sample_mv) ''d'' = ''d''"
  "crqForest (mem_state sample sample_forest) = mv_NamespaceDB sample_mv" "mv_MaxSNS sample_mv = 50"
  "mh_to (oc_object sample_mh) = ''d''"
proof -
  have s: "crqForest (mem_state sample sample_forest) = sample_forest" "world (mem_state sample sample_forest) = sample"
    by (simp_all add: mem_state_def)
  have "New (api_ns mem_env) sample (nskey ''c'') empty_meta = OK sample_c"
    "GetAllChildren_ns mem_env sample (stack_limit mem_env) (Some sample_c) = OK [sample_c]"
    "map oc_name [sample_c] = [''c'']" "Key sample_forest ''c'' = ''b''" "Key sample_forest ''d'' = ''d''" by code_simp+
  then show "moves_inside mem_env (mem_state sample sample_forest) ''c'' ''d'' [sample_c]"
    using sample_forest_ok by (simp add: moves_inside_def s)
  show "crqForest (mem_state sample sample_forest) = mv_NamespaceDB sample_mv" by (simp add: s sample_mv_def)
qed code_simp+

theorem mh_handleCreate_sound_witness:
  "distinct (DisplayNameSlice sample_dns @ [''c'']) \<and> Parent (oc_object sample_c) \<noteq> mh_to (oc_object sample_mh) \<and>
   (\<exists>F. MigrateNSHierarchy mem_env ''c'' ''d'' (mem_state sample sample_forest) =
      (OK (), (mem_state sample sample_forest)\<lparr>crqForest := F\<rparr>) \<and> forest_ok F \<and> int (KeyCount F ''d'') < 50)"
proof -
  note sound = mh_handleCreate_sound [OF sample_mh_evaluates(1-5), unfolded sample_mh_evaluates(7) sample_moves_inside(3,5,6)]
  have "\<not> False \<and> \<not> False \<and> Key (mv_NamespaceDB sample_mv) ''c'' \<noteq> '''' \<and> ''d'' \<noteq> ''''"
    using sample_moves_inside(2) by simp
  with sound obtain crq where crq: "Get (api_crq mem_env) sample (nskey ''c'') = OK crq"
    "\<forall>s children. crqForest s = mv_NamespaceDB sample_mv \<and> moves_inside mem_env s ''c'' ''d'' children \<and>
       length children \<le> length (crq_namespaces crq) \<longrightarrow>
       (\<exists>F. MigrateNSHierarchy mem_env ''c'' ''d'' s = (OK (), s\<lparr>crqForest := F\<rparr>) \<and> forest_ok F \<and> int (KeyCount F ''d'') < 50)"
    by blast
  have "Get (api_crq mem_env) sample (nskey ''c'') = OK (mk_crq ''c'' [(''cpu'', 2)])" by code_simp
  then have "length [sample_c] \<le> length (crq_namespaces crq)" using crq(1) by (simp add: mk_crq_def)
  with crq(2) sample_moves_inside(1,4) have "\<exists>F. MigrateNSHierarchy mem_env ''c'' ''d'' (mem_state sample sample_forest) =
      (OK (), (mem_state sample sample_forest)\<lparr>crqForest := F\<rparr>) \<and> forest_ok F \<and> int (KeyCount F ''d'') < 50" by blast
  moreover have "distinct (DisplayNameSlice sample_dns)" by (simp add: sample_mh_evaluates(6))
  ultimately show ?thesis using sound unfolding sample_moves_inside(6) by metis
qed

end
