(* ===== verification/Triples.thy ===== *)
theory Triples
  imports Prelude
begin

section \<open>Triples\<close>

text \<open>
  \<open>triple P m Q X\<close>: from a state with \<open>P\<close>, a program that returns a value ends in a state with
  \<open>Q\<close> of that value, and one that returns an error or panics ends in a state with \<open>X\<close>. The rules
  follow the constructs of the programs; a program that stays within a frame keeps what the frame
  keeps.
\<close>

definition triple :: "('s \<Rightarrow> bool) \<Rightarrow> ('s, 'a) prog \<Rightarrow> ('a \<Rightarrow> 's \<Rightarrow> bool) \<Rightarrow> ('s \<Rightarrow> bool) \<Rightarrow> bool" where
  "triple P m Q X \<longleftrightarrow>
     (\<forall>s. P s \<longrightarrow> (case m s of (OK a, s') \<Rightarrow> Q a s' | (Err _, s') \<Rightarrow> X s' | (Panic, s') \<Rightarrow> X s'))"

lemma tripleI:
  assumes "\<And>s a s'. P s \<Longrightarrow> m s = (OK a, s') \<Longrightarrow> Q a s'"
    and "\<And>s e s'. P s \<Longrightarrow> m s = (Err e, s') \<Longrightarrow> X s'"
    and "\<And>s s'. P s \<Longrightarrow> m s = (Panic, s') \<Longrightarrow> X s'"
  shows "triple P m Q X"
  unfolding triple_def using assms by (auto split: prod.split outcome.split)

lemma tripleD:
  assumes "triple P m Q X" "P s"
  shows "m s = (OK a, s') \<Longrightarrow> Q a s'" "m s = (Err e, s') \<Longrightarrow> X s'" "m s = (Panic, s') \<Longrightarrow> X s'"
  using assms unfolding triple_def by fastforce+

text \<open>Whatever the outcome.\<close>

lemma triple_any: "triple P m (\<lambda>_. X) X \<Longrightarrow> P s \<Longrightarrow> X (snd (m s))"
  unfolding triple_def by (cases "m s" rule: prod.exhaust; cases "fst (m s)") force+

lemma triple_conseq:
  "triple P m Q X \<Longrightarrow> (\<And>s. P' s \<Longrightarrow> P s) \<Longrightarrow> (\<And>a s. Q a s \<Longrightarrow> Q' a s) \<Longrightarrow> (\<And>s. X s \<Longrightarrow> X' s) \<Longrightarrow> triple P' m Q' X'"
  by (rule tripleI) (metis tripleD)+

lemma triple_ret: "(\<And>s. P s \<Longrightarrow> Q a s) \<Longrightarrow> triple P (ret a) Q X"
  by (rule tripleI) (auto simp: ret_def)

lemma triple_fail: "(\<And>s. P s \<Longrightarrow> X s) \<Longrightarrow> triple P (fail e) Q X" "(\<And>s. P s \<Longrightarrow> X s) \<Longrightarrow> triple P panic Q X"
  by (rule tripleI; auto simp: fail_def panic_def)+

lemma triple_reads:
  "(\<And>s a. P s \<Longrightarrow> f s = OK a \<Longrightarrow> Q a s) \<Longrightarrow> (\<And>s. P s \<Longrightarrow> X s) \<Longrightarrow> triple P (reads f) Q X"
  by (rule tripleI) (auto simp: reads_def)

lemma triple_bind:
  assumes "triple P m Q X" "\<And>a. triple (Q a) (f a) Q' X"
  shows "triple P (bind m f) Q' X"
  unfolding triple_def
proof (intro allI impI)
  fix s assume "P s"
  obtain r s' where ms: "m s = (r, s')" by (cases "m s")
  show "case bind m f s of (OK b, t) \<Rightarrow> Q' b t | (Err _, t) \<Rightarrow> X t | (Panic, t) \<Rightarrow> X t"
  proof (cases r)
    case (OK a)
    then have "Q a s'" using tripleD(1) [OF assms(1) \<open>P s\<close>] ms by simp
    then show ?thesis using assms(2) [of a] ms OK by (simp add: triple_def bind_step)
  qed (use tripleD(2,3) [OF assms(1) \<open>P s\<close>] ms in \<open>simp_all add: bind_step\<close>)
qed

lemma triple_catch:
  assumes "triple P m Q Y" "\<And>e. triple Y (h e) Q X" "\<And>s. Y s \<Longrightarrow> X s"
  shows "triple P (catch m h) Q X"
  unfolding triple_def
proof (intro allI impI)
  fix s assume "P s"
  obtain r s' where ms: "m s = (r, s')" by (cases "m s")
  show "case catch m h s of (OK b, t) \<Rightarrow> Q b t | (Err _, t) \<Rightarrow> X t | (Panic, t) \<Rightarrow> X t"
  proof (cases r)
    case (Err e)
    then have "Y s'" using tripleD(2) [OF assms(1) \<open>P s\<close>] ms by simp
    then show ?thesis using assms(2) [of e] ms Err by (simp add: triple_def catch_step)
  qed (use tripleD(1,3) [OF assms(1) \<open>P s\<close>] assms(3) ms in \<open>simp_all add: catch_step\<close>)
qed

lemma triple_fact: "(F \<Longrightarrow> triple P m Q X) \<Longrightarrow> triple (\<lambda>s. F \<and> P s) m Q X"
  by (cases F) (simp_all add: triple_def)

lemma triple_wrapf: "triple P m Q X \<Longrightarrow> triple P (wrapf f as m) Q X"
  unfolding wrapf_def by (rule triple_catch) (auto intro: triple_fail)

lemma triple_if: "(c \<Longrightarrow> triple P m Q X) \<Longrightarrow> (\<not> c \<Longrightarrow> triple P n Q X) \<Longrightarrow> triple P (if c then m else n) Q X"
  by simp

lemma triple_keeps:
  assumes "keeps R T m" "\<And>s s'. P s \<Longrightarrow> R s s' \<Longrightarrow> P s'"
  shows "triple P m (\<lambda>_. P) P"
  using keepsD(1) [OF assms(1)] assms(2) by (intro tripleI) (metis snd_conv)+

text \<open>A triple with what the program keeps added to it.\<close>

lemma triple_and_keeps:
  assumes "triple P m Q X" "keeps R T m" "\<And>s s'. V s \<Longrightarrow> R s s' \<Longrightarrow> V s'"
  shows "triple (\<lambda>s. P s \<and> V s) m (\<lambda>a s. Q a s \<and> V s) X"
  using tripleD [OF assms(1)] keepsD(1) [OF assms(2)] assms(3) by (intro tripleI) (metis snd_conv)+

end
