(* ===== verification/MigrationSafety.thy ===== *)
theory MigrationSafety
  imports Migration Triples
begin

section \<open>What a migration does to the subnamespaces\<close>

text \<open>
  Of everything a migration does, only the creation under the new parent and the deletion under
  the old one write subnamespaces. They are ordered so that a failure leaves the subnamespace under
  one of the two parents, with two exceptions. When the deletion of the old one is reported as
  failed although it took effect, the new one is deleted as well, and nothing is left. And when the
  destination is the old parent, the test of \<^verbatim>\<open>deleteOldSNS\<close>, which reads an annotation that nobody
  writes, does not protect the subnamespace.
\<close>

subsection \<open>The parts that leave subnamespaces alone\<close>

locale mh_frame = hns_frame R for R :: "('w, 'q) hns \<Rightarrow> ('w, 'q) hns \<Rightarrow> bool" +
  fixes E :: "('w, 'q) env"
  assumes quiet_kinds: "quiet R (api_ns E)" "quiet R (api_rq E)" "quiet R (api_upq E)" "quiet R (api_mh E)"
    and R_retry: "R s (s\<lparr>world := snd (retryOnConflict E (set_crq_selector E nm sel) (world s))\<rparr>)"
    and R_sleep: "R s (s\<lparr>world := sleep E ms (world s)\<rparr>)"
    and R_events: "R s (s\<lparr>snsEvents := ks\<rparr>)"
    and R_forest: "R s (s\<lparr>crqForest := F\<rparr>)"
begin

lemmas keeps_steps = keeps_bind [where Q = "\<lambda>_. True"] keeps_ret keeps_fail keeps_reads keeps_wrapf keeps_check_err
  keeps_UpdateObject keeps_UpdateObjectE keeps_CreateObject keeps_Append quiet_kinds quiet_kinds [THEN quiet_tame]
  keeps_lift keeps_if keeps_option keeps_sum keeps_prod keeps_for_each TrueI

lemma keeps_forceUpdate:
  assumes "quiet R k"
  shows "keeps R (\<lambda>_. True) (forceUpdate k n upd False r)"
proof (induction n arbitrary: r)
  have attempt: "keeps R (\<lambda>_. True) (update_attempt k x upd False r)" for x r
    by (auto simp: keeps_def update_attempt_def Let_def R_refl split: outcome.splits prod.splits sum.splits
        dest: quietD(2) [OF assms])
  have refresh: "keeps R (\<lambda>_. True) (refresh k r)" for r
    by (auto simp: keeps_def refresh_def R_refl split: sum.splits)
  case 0
  show ?case by (simp, intro keeps_steps attempt)
  case (Suc n)
  then show ?case by (simp, intro keeps_steps attempt refresh)
qed

lemma keeps_root_resources:
  "keeps R (\<lambda>_. True) (increaseRootResources E root q)" "keeps R (\<lambda>_. True) (decreaseRootResources E root q)"
  unfolding increaseRootResources_def decreaseRootResources_def addRootQuota_def subRootQuota_def EnsureUpdateObject_def
  by (intro keeps_steps keeps_forceUpdate)+

lemma keeps_updateMHStatus: "keeps R (\<lambda>_. True) (updateMHStatus E mh p reason)"
  unfolding updateMHStatus_def by (intro keeps_steps)

lemma keeps_mh_step: "keeps R (\<lambda>_. True) m \<Longrightarrow> keeps R (\<lambda>_. True) (mh_step E mh f as m)"
  unfolding mh_step_def by (intro keeps_catch keeps_steps keeps_updateMHStatus)

lemma keeps_createMigrationUPQ: "keeps R (\<lambda>_. True) (createMigrationUPQ E mh q a b)"
  unfolding createMigrationUPQ_def createUpdateQuota_def Let_def by (intro keeps_steps)

lemma keeps_equal_map_loop: "keeps R (\<lambda>_. True) (equal_map_loop E n sel nm wanted)"
  by (induction n) (simp_all add: Let_def, (intro keeps_steps keeps_modify R_sleep; simp)+)

lemma keeps_UpdateNSBasedOnParent: "keeps R (\<lambda>_. True) (UpdateNSBasedOnParent E p c)"
proof -
  have crq: "keeps R (\<lambda>_. True) (updateCRQSelector E c p nm)" for c nm
    unfolding updateCRQSelector_def Let_def keeps_def
    using R_retry by (auto split: prod.splits option.splits) (metis snd_conv)+
  show ?thesis
    unfolding UpdateNSBasedOnParent_def ensureSnsEqualAnnotations_def ensureSnsEqualLabels_def Let_def
    by (intro keeps_steps keeps_equal_map_loop crq)
qed

lemma keeps_UpdateAllNSChildrenOfNs: "keeps R (\<lambda>_. True) (UpdateAllNSChildrenOfNs E n p)"
proof (induction n arbitrary: p)
  case 0
  show ?case by (simp add: keeps_fail)
next
  case (Suc n)
  then show ?case by (simp, intro keeps_steps keeps_UpdateNSBasedOnParent)
qed

lemma keeps_updateRelatedObjects: "keeps R (\<lambda>_. True) (updateRelatedObjects E toNS ns)"
  unfolding updateRelatedObjects_def updateRole_def Let_def
  by (intro keeps_steps keeps_UpdateNSBasedOnParent keeps_UpdateAllNSChildrenOfNs)

lemma keeps_MigrateNSHierarchy: "keeps R (\<lambda>_. True) (MigrateNSHierarchy E a b)"
proof -
  have "keeps R (\<lambda>_. True) (on_forest f)" for f
    by (auto simp: keeps_def on_forest_def R_forest R_refl split: outcome.splits)
  then show ?thesis unfolding MigrateNSHierarchy_def migrate_child_def by (intro keeps_steps)
qed

lemma keeps_enqueue:
  "keeps R (\<lambda>_. True) (enqueueOriginalParent E p)" "keeps R (\<lambda>_. True) (enqueueSNSDescendants E r)"
  unfolding enqueueOriginalParent_def enqueueSNSDescendants_def addSnsToSnsEvent_def
  by (intro keeps_steps keeps_modify R_events)+

lemma keeps_mh_start: "keeps R (\<lambda>_. True) (mh_start E mh ex root q toSNS)"
  unfolding mh_start_def
  by (intro keeps_steps keeps_mh_step keeps_root_resources keeps_createMigrationUPQ keeps_updateMHStatus)

lemma keeps_mh_complete: "keeps R (\<lambda>_. True) (mh_complete E mh)"
  unfolding mh_complete_def by (intro keeps_steps keeps_updateMHStatus)

end

subsection \<open>The laws\<close>

text \<open>
  Subnamespaces obey the laws of the API server; writes to the other kinds leave them alone, and so do \<^verbatim>\<open>time.Sleep\<close> and \<^verbatim>\<open>retry.RetryOnConflict\<close> of a function that
  does. The second part is stated for any abstraction \<open>v\<close> of the cluster.
\<close>

definition others_leave :: "('w, 'q) env \<Rightarrow> ('w \<Rightarrow> 'v) \<Rightarrow> bool" where
  "others_leave E v \<longleftrightarrow>
     leaves (api_ns E) v \<and> leaves (api_rq E) v \<and> leaves (api_crq E) v \<and> leaves (api_upq E) v \<and>
     leaves (api_mh E) v \<and> (\<forall>ms w. v (sleep E ms w) = v w) \<and>
     (\<forall>f w. (\<forall>w. v (snd (f w)) = v w) \<longrightarrow> v (snd (retryOnConflict E f w)) = v w)"

definition mh_laws :: "('w, 'q) env \<Rightarrow> ('w \<Rightarrow> objkey \<Rightarrow> 'q subnamespace option) \<Rightarrow> bool" where
  "mh_laws E view \<longleftrightarrow> lawful (api_sns E) view \<and> others_leave E view"

lemma mh_lawsD:
  assumes "mh_laws E view"
  shows "lawful (api_sns E) view" "readable (api_sns E) view" "others_leave E view"
  using assms by (simp_all add: mh_laws_def lawful_finishes(1))

definition same_sns :: "('w, 'q) env \<Rightarrow> ('w \<Rightarrow> 'v) \<Rightarrow> ('w, 'q) hns \<Rightarrow> ('w, 'q) hns \<Rightarrow> bool" where
  "same_sns E v s s' \<longleftrightarrow> (others_leave E v \<longrightarrow> v (world s') = v (world s))"

lemma set_crq_selector_view:
  assumes "others_leave E v"
  shows "v (snd (set_crq_selector E nm sel w)) = v w"
proof -
  have "leaves (api_crq E) v" using assms by (simp add: others_leave_def)
  then have "k_update (api_crq E) obj w = (a, w') \<Longrightarrow> v w' = v w" for obj a w'
    unfolding leaves_def by (metis snd_conv)
  then show ?thesis by (auto simp: set_crq_selector_def split: sum.split prod.split)
qed

interpretation others: mh_frame "same_sns E v" E for E v
proof
  have quiet: "quiet (same_sns E v) k" if "others_leave E v \<Longrightarrow> leaves k v" for k :: "('a, 'o) kind_api"
    by (rule leaves_quiet [OF _ that, where L = "others_leave E v"]) (auto simp: same_sns_def)
  show "quiet (same_sns E v) (api_ns E)" "quiet (same_sns E v) (api_rq E)"
    "quiet (same_sns E v) (api_upq E)" "quiet (same_sns E v) (api_mh E)"
    by (rule quiet, simp add: others_leave_def)+
  show "same_sns E v s (s\<lparr>world := snd (retryOnConflict E (set_crq_selector E nm sel) (world s))\<rparr>)" for s nm sel
    using set_crq_selector_view [of E v nm sel] by (auto simp: same_sns_def others_leave_def)
  show "same_sns E v s (s\<lparr>world := sleep E ms (world s)\<rparr>)" for s ms
    by (simp add: same_sns_def others_leave_def)
qed (auto simp: same_sns_def)

text \<open>
  For what a failure leaves behind, weaker laws: a create or a delete of a subnamespace that reports an error may have
  taken effect all the same. \<open>lost w\<close> counts the deletions up to \<open>w\<close> of which this is true.
\<close>

definition deletion ::
  "(objkey \<Rightarrow> 'a object_meta_scheme option) \<Rightarrow> objkey \<Rightarrow> (objkey \<Rightarrow> 'a object_meta_scheme option) \<Rightarrow> bool" where
  "deletion v k v' \<longleftrightarrow> v' = v(k := None) \<or>
     (\<exists>cur version. v k = Some cur \<and> v' = v(k \<mapsto> cur\<lparr>meta_deleting := True, meta_version := version\<rparr>))"

definition fault_laws ::
  "('w, 'q) env \<Rightarrow> ('w \<Rightarrow> objkey \<Rightarrow> 'q subnamespace option) \<Rightarrow> ('w \<Rightarrow> nat) \<Rightarrow> bool" where
  "fault_laws E view lost \<longleftrightarrow> readable (api_sns E) view \<and> finishing_create view (k_create (api_sns E)) \<and>
     (\<forall>obj w a w'. k_create (api_sns E) obj w = (a, w') \<longrightarrow> lost w \<le> lost w') \<and>
     (\<forall>obj w w'. k_delete (api_sns E) obj w = (None, w') \<longrightarrow>
        deletion (view w) (obj_key obj) (view w') \<and> lost w \<le> lost w') \<and>
     (\<forall>obj w e w'. k_delete (api_sns E) obj w = (Some e, w') \<longrightarrow>
        view w' = view w \<and> lost w \<le> lost w' \<or>
        deletion (view w) (obj_key obj) (view w') \<and> lost w < lost w') \<and>
     others_leave E (\<lambda>w. (view w, lost w))"

lemma mh_laws_fault:
  assumes "mh_laws E view"
  shows "fault_laws E view (\<lambda>_. 0)"
proof -
  have "finishing_create view (k_create (api_sns E))" "readable (api_sns E) view"
    using finishesD(1,2) [OF lawful_finishes(2) [OF mh_lawsD(1) [OF assms]]] by simp_all
  moreover have "others_leave E (\<lambda>w. (view w, 0 :: nat))"
    using mh_lawsD(3) [OF assms] by (simp add: others_leave_def leaves_def)
  ultimately show ?thesis
    using mh_lawsD(1) [OF assms] by (simp add: fault_laws_def lawful_def deletion_def)
qed

subsection \<open>Creation, then deletion\<close>

lemma sns_key: "readable (api_sns E) view \<Longrightarrow> view w k = Some obj \<Longrightarrow> obj_key obj = k"
  by (simp add: readable_def)

lemma deleteSNS_view:
  assumes "mh_laws E view" "deleteSNS E r s = (x, s')"
  shows "(\<forall>k. k \<noteq> obj_key (oc_object r) \<longrightarrow> view (world s') k = view (world s) k) \<and>
    (x \<noteq> OK () \<longrightarrow> view (world s') = view (world s)) \<and> x \<noteq> Panic"
proof -
  have law: "lawful (api_sns E) view" using assms(1) by (simp add: mh_laws_def)
  obtain e w' where d: "k_delete (api_sns E) (oc_object r) (world s) = (e, w')"
    by (cases "k_delete (api_sns E) (oc_object r) (world s)")
  have failed: "view w' = view (world s)" if "e = Some err" for err
    using law d that unfolding lawful_def by blast
  have "k \<noteq> obj_key (oc_object r) \<Longrightarrow> view w' k = view (world s) k" for k
  proof (cases e)
    case None
    then have "view w' = (view (world s))(obj_key (oc_object r) := None) \<or>
        (\<exists>cur v. view w' = (view (world s))(obj_key (oc_object r) \<mapsto> cur\<lparr>meta_deleting := True, meta_version := v\<rparr>))"
      using law d unfolding lawful_def by metis
    then show "k \<noteq> obj_key (oc_object r) \<Longrightarrow> view w' k = view (world s) k" by auto
  qed (simp add: failed)
  then show ?thesis
    using assms(2) d failed
    by (cases e) (auto simp: deleteSNS_def EnsureDelete_def DeleteObject_def IsPresent_def wrapf_def catch_def bind_def
        ret_def fail_def split: if_splits)
qed

lemma stored_sns: "stored obj obj' \<Longrightarrow> sns_phase obj' = sns_phase obj \<and> sns_hard obj' = sns_hard obj"
  unfolding stored_def by (cases obj; cases obj') simp

lemma createNewSNS_view:
  fixes s :: "('w, 'q) hns"
  assumes "mh_laws E view" "createNewSNS E old current to s = (x, s')" "view (world s) (nskey (oc_name old)) = None"
  shows "(\<forall>k. k \<noteq> nnkey to current \<or> view (world s) k \<noteq> None \<longrightarrow> view (world s') k = view (world s) k) \<and>
    (\<forall>new. x = OK new \<longrightarrow> obj_key (oc_object new) = nnkey to current \<and>
       (\<exists>obj. view (world s') (nnkey to current) = Some obj \<and>
          (view (world s) (nnkey to current) = None \<longrightarrow> sns_phase obj = Migrated \<and> sns_hard obj = sns_hard (oc_object old))))"
proof -
  let ?obj = "(ComposeSNS current to (sns_hard (oc_object old))
     [(ResourcePoolKey, mstr (meta_labels (oc_object old)) ResourcePoolKey)])\<lparr>sns_phase := Migrated\<rparr>"
  have law: "lawful (api_sns E) view" using assms(1) by (simp add: mh_laws_def)
  have obj: "obj_key ?obj = nnkey to current" "sns_phase ?obj = Migrated" "sns_hard ?obj = sns_hard (oc_object old)"
    by (simp_all add: obj_key_def ComposeSNS_def)
  obtain a w' where c: "k_create (api_sns E) ?obj (world s) = (a, w')" by (cases "k_create (api_sns E) ?obj (world s)")
  have ok: "view w' = (view (world s))(nnkey to current \<mapsto> obj') \<and> obj_key obj' = nnkey to current \<and>
      view (world s) (nnkey to current) = None \<and> sns_phase obj' = Migrated \<and> sns_hard obj' = sns_hard (oc_object old)"
    if "a = Inr obj'" for obj'
  proof -
    have "stored ?obj obj' \<and> view (world s) (obj_key ?obj) = None \<and> view w' = (view (world s))(obj_key ?obj \<mapsto> obj')"
      using law c that unfolding lawful_def by blast
    then show ?thesis using stored_key [of ?obj obj'] stored_sns [of ?obj obj'] obj by simp
  qed
  have err: "view w' = view (world s) \<and> (IsAlreadyExists e \<longrightarrow> view (world s) (nnkey to current) \<noteq> None)" if "a = Inl e" for e
    using law c that obj(1) unfolding lawful_def by metis
  show ?thesis
  proof (cases "New (api_sns E) (world s) (nskey (oc_name old)) ?obj")
    case (OK r)
    then have "\<not> oc_present r \<and> oc_object r = ?obj"
      by (cases rule: New_cases) (use assms(3) in \<open>auto dest: lawful_getD [OF law]\<close>)
    then have "oc_object r = ?obj" "EnsureCreate (api_sns E) r s = CreateObject (api_sns E) r s"
      by (auto simp: EnsureCreate_def IsPresent_def)
    then show ?thesis
      using assms(2) OK c ok err obj(1)
      by (cases a) (auto simp: createNewSNS_def createSNS_def CreateObject_def Let_def bind_def reads_def wrapf_def catch_def
          fail_def split: if_splits)
  qed (use assms(2) in \<open>auto simp: createNewSNS_def createSNS_def Let_def bind_def reads_def\<close>)
qed

text \<open>With failures that may have taken effect.\<close>

lemma createNewSNS_fault:
  fixes s :: "('w, 'q) hns"
  assumes "fault_laws E view lost" "createNewSNS E old current to s = (x, s')" "view (world s) (nskey (oc_name old)) = None"
  shows "(\<forall>k. k \<noteq> nnkey to current \<longrightarrow> view (world s') k = view (world s) k) \<and> lost (world s) \<le> lost (world s') \<and>
    (\<forall>new. x = OK new \<longrightarrow> obj_key (oc_object new) = nnkey to current \<and> view (world s') (nnkey to current) \<noteq> None)"
proof -
  let ?obj = "(ComposeSNS current to (sns_hard (oc_object old))
     [(ResourcePoolKey, mstr (meta_labels (oc_object old)) ResourcePoolKey)])\<lparr>sns_phase := Migrated\<rparr>"
  have law: "readable (api_sns E) view" "finishing_create view (k_create (api_sns E))"
    using assms(1) by (simp_all add: fault_laws_def)
  have key: "obj_key ?obj = nnkey to current" by (simp add: obj_key_def ComposeSNS_def)
  obtain a w' where c: "k_create (api_sns E) ?obj (world s) = (a, w')" by (cases "k_create (api_sns E) ?obj (world s)")
  have counted: "lost (world s) \<le> lost w'" using assms(1) c unfolding fault_laws_def by blast
  have ok: "view w' = (view (world s))(nnkey to current \<mapsto> obj') \<and> obj_key obj' = nnkey to current" if "a = Inr obj'" for obj'
  proof -
    have "stored ?obj obj' \<and> view w' = (view (world s))(obj_key ?obj \<mapsto> obj')"
      using law(2) c that unfolding finishing_create_def by blast
    then show ?thesis using stored_key [of ?obj obj'] key by simp
  qed
  have err: "(\<forall>k. k \<noteq> nnkey to current \<longrightarrow> view w' k = view (world s) k) \<and>
      (IsAlreadyExists e \<longrightarrow> view w' (nnkey to current) \<noteq> None)" if "a = Inl e" for e
  proof -
    have "if IsAlreadyExists e then view w' = view (world s) \<and> view (world s) (nnkey to current) \<noteq> None
        else view w' = view (world s) \<or> (\<exists>obj'. view w' = (view (world s))(nnkey to current \<mapsto> obj'))"
      using law(2) c that unfolding finishing_create_def key [symmetric] by (cases "IsAlreadyExists e") (simp, metis)+
    then show ?thesis by (auto split: if_splits)
  qed
  show ?thesis
  proof (cases "New (api_sns E) (world s) (nskey (oc_name old)) ?obj")
    case (OK r)
    then have "\<not> oc_present r \<and> oc_object r = ?obj"
      by (cases rule: New_cases) (use assms(3) in \<open>auto dest: readable_getD [OF law(1)]\<close>)
    then have "oc_object r = ?obj" "EnsureCreate (api_sns E) r s = CreateObject (api_sns E) r s"
      by (auto simp: EnsureCreate_def IsPresent_def)
    then show ?thesis
      using assms(2) OK c ok err key counted
      by (cases a) (auto simp: createNewSNS_def createSNS_def CreateObject_def Let_def bind_def reads_def wrapf_def catch_def
          fail_def split: if_splits)
  qed (use assms(2) in \<open>auto simp: createNewSNS_def createSNS_def Let_def bind_def reads_def\<close>)
qed

lemma deleteSNS_fault:
  assumes "fault_laws E view lost" "deleteSNS E r s = (x, s')"
  shows "(\<forall>k. k \<noteq> obj_key (oc_object r) \<longrightarrow> view (world s') k = view (world s) k) \<and> lost (world s) \<le> lost (world s') \<and>
    (x \<noteq> OK () \<longrightarrow> view (world s') = view (world s) \<or> lost (world s) < lost (world s')) \<and> x \<noteq> Panic"
proof -
  obtain e w' where d: "k_delete (api_sns E) (oc_object r) (world s) = (e, w')"
    by (cases "k_delete (api_sns E) (oc_object r) (world s)")
  have effect: "(\<forall>k. k \<noteq> obj_key (oc_object r) \<longrightarrow> view w' k = view (world s) k) \<and> lost (world s) \<le> lost w' \<and>
      (e \<noteq> None \<longrightarrow> view w' = view (world s) \<or> lost (world s) < lost w')"
  proof (cases e)
    case None
    then have "deletion (view (world s)) (obj_key (oc_object r)) (view w') \<and> lost (world s) \<le> lost w'"
      using assms(1) d unfolding fault_laws_def by blast
    then show ?thesis using None by (auto simp: deletion_def)
  next
    case (Some err)
    then have "view w' = view (world s) \<and> lost (world s) \<le> lost w' \<or>
        deletion (view (world s)) (obj_key (oc_object r)) (view w') \<and> lost (world s) < lost w'"
      using assms(1) d unfolding fault_laws_def by blast
    then show ?thesis by (auto simp: deletion_def)
  qed
  then show ?thesis
    using assms(2) d
    by (cases e) (auto simp: deleteSNS_def EnsureDelete_def DeleteObject_def IsPresent_def wrapf_def catch_def bind_def
        ret_def fail_def split: if_splits)
qed

text \<open>Where the subnamespace may be, unless more than \<open>n\<close> deletions were lost.\<close>

definition somewhere ::
  "nat \<Rightarrow> objkey \<Rightarrow> objkey \<Rightarrow> (objkey \<Rightarrow> 'q subnamespace option) \<times> nat \<Rightarrow> bool" where
  "somewhere n k k' p \<longleftrightarrow> fst p k \<noteq> None \<or> fst p k' \<noteq> None \<or> n < snd p"

text \<open>The subnamespace is where it was, and nothing has its name outside the namespaces.\<close>

abbreviation there :: "('w \<Rightarrow> objkey \<Rightarrow> 'q subnamespace option) \<Rightarrow> objkey \<Rightarrow> ('w, 'q) hns \<Rightarrow> bool" where
  "there view k s \<equiv> view (world s) k \<noteq> None \<and> view (world s) (nskey (key_name k)) = None"

lemma createNewSNS_triple:
  assumes "fault_laws E view lost" "k \<noteq> nnkey to current" "obj_key (oc_object old) = k"
  shows "triple (\<lambda>s. there view k s \<and> n \<le> lost (world s)) (createNewSNS E old current to)
    (\<lambda>new s. obj_key (oc_object new) = nnkey to current \<and> view (world s) k \<noteq> None \<and>
       view (world s) (nnkey to current) \<noteq> None \<and> n \<le> lost (world s))
    (\<lambda>s. view (world s) k \<noteq> None)"
proof -
  have "oc_name old = key_name k" using assms(3) by (auto simp: obj_key_def nnkey_def)
  then have step: "\<And>s x s'. createNewSNS E old current to s = (x, s') \<Longrightarrow> view (world s) (nskey (key_name k)) = None \<Longrightarrow>
      view (world s') k = view (world s) k \<and> lost (world s) \<le> lost (world s') \<and>
      (\<forall>new. x = OK new \<longrightarrow> obj_key (oc_object new) = nnkey to current \<and> view (world s') (nnkey to current) \<noteq> None)"
    using createNewSNS_fault [OF assms(1)] assms(2) by metis
  show ?thesis by (rule tripleI; drule (1) step [OF _ conjunct2 [OF conjunct1]]; auto)
qed

lemma deleteOldSNS_triple:
  assumes "fault_laws E view lost" "k \<noteq> nnkey to current"
    and "obj_key (oc_object old) = k" "obj_key (oc_object new) = nnkey to current"
  shows "triple (\<lambda>s. view (world s) k \<noteq> None \<and> view (world s) (nnkey to current) \<noteq> None \<and> n \<le> lost (world s))
    (deleteOldSNS E old new to)
    (\<lambda>_ s. somewhere n k (nnkey to current) (view (world s), lost (world s)))
    (\<lambda>s. somewhere n k (nnkey to current) (view (world s), lost (world s)))"
proof -
  note del = deleteSNS_fault [OF assms(1)]
  let ?some = "\<lambda>s. somewhere n k (nnkey to current) (view (world s), lost (world s))"
  have kept: "?some (snd (deleteOldSNS E old new to s))"
    if s: "view (world s) k \<noteq> None" "view (world s) (nnkey to current) \<noteq> None" "n \<le> lost (world s)" for s
  proof (cases "mstr (meta_annotations (oc_object old)) ParentKey = to")
    case True
    then show ?thesis using s by (simp add: deleteOldSNS_def ret_def somewhere_def)
  next
    case False
    obtain x s1 where d1: "deleteSNS E old s = (x, s1)" by (cases "deleteSNS E old s")
    obtain y s2 where d2: "deleteSNS E new s1 = (y, s2)" by (cases "deleteSNS E new s1")
    note old = del [OF d1, unfolded assms(3)] and new = del [OF d2, unfolded assms(4)]
    have "?some s1" using old assms(2) s(2) by (simp add: somewhere_def)
    moreover have "?some s2" if "x = Err e" for e
    proof -
      have "view (world s1) = view (world s) \<or> lost (world s) < lost (world s1)" using old that by simp
      then show ?thesis using new assms(2) s(1,3) by (auto simp: somewhere_def)
    qed
    moreover have "snd (deleteOldSNS E old new to s) = (case x of Err _ \<Rightarrow> s2 | _ \<Rightarrow> s1)"
      using False d1 d2 by (auto simp: deleteOldSNS_def attempt_def bind_def wrapf_def catch_def ret_def fail_def
          split: outcome.splits)
    ultimately show ?thesis by (auto split: outcome.splits)
  qed
  then show ?thesis by (intro tripleI) (metis snd_conv)+
qed

subsection \<open>The whole migration\<close>

lemma stays:
  assumes "others_leave E v" "keeps (same_sns E v) (\<lambda>_. True) m"
  shows "triple (\<lambda>s. V (v (world s))) m (\<lambda>_ s. V (v (world s))) (\<lambda>s. V (v (world s)))"
  using assms(1) by (intro triple_keeps [OF assms(2)]) (simp add: same_sns_def)

lemma mh_step_triple:
  assumes "others_leave E v" "triple P m Q (\<lambda>s. V (v (world s)))"
  shows "triple P (mh_step E mh f as m) Q (\<lambda>s. V (v (world s)))"
  unfolding mh_step_def
proof (rule triple_catch [OF assms(2)])
  show "triple (\<lambda>s. V (v (world s)))
      (bind (updateMHStatus E mh ErrorPhase (error_text err)) (\<lambda>p. bind (check_err p) (\<lambda>_. fail (Errorf f (as @ [error_text err])))))
      Q (\<lambda>s. V (v (world s)))" for err
    by (rule triple_bind [OF stays [OF assms(1) others.keeps_updateMHStatus]],
        rule triple_bind [OF stays [OF assms(1) others.keeps_check_err]], rule triple_fail)
qed

lemma mh_migrate_triple:
  assumes "fault_laws E view lost" "obj_key (oc_object old) = k" "k \<noteq> nnkey to current"
  shows "triple (\<lambda>s. there view k s \<and> n \<le> lost (world s)) (mh_migrate E mh current to ns old toNS ex root q)
    (\<lambda>_ s. somewhere n k (nnkey to current) (view (world s), lost (world s)))
    (\<lambda>s. somewhere n k (nnkey to current) (view (world s), lost (world s)))"
proof -
  have others: "others_leave E (\<lambda>w. (view w, lost w))" using assms(1) by (simp add: fault_laws_def)
  let ?S = "somewhere n k (nnkey to current)"
  have create: "triple (\<lambda>s. there view k s \<and> n \<le> lost (world s)) (createNewSNS E old current to)
     (\<lambda>new s. obj_key (oc_object new) = nnkey to current \<and> view (world s) k \<noteq> None \<and>
        view (world s) (nnkey to current) \<noteq> None \<and> n \<le> lost (world s))
     (\<lambda>s. ?S (view (world s), lost (world s)))"
    by (rule triple_conseq [OF createNewSNS_triple [OF assms(1,3,2)]]) (auto simp: somewhere_def)
  have delete: "triple (\<lambda>s. obj_key (oc_object new) = nnkey to current \<and> view (world s) k \<noteq> None \<and>
       view (world s) (nnkey to current) \<noteq> None \<and> n \<le> lost (world s))
     (deleteOldSNS E old new to) (\<lambda>_ s. ?S (view (world s), lost (world s))) (\<lambda>s. ?S (view (world s), lost (world s)))" for new
    by (rule triple_fact, rule deleteOldSNS_triple [OF assms(1,3,2)])
  show ?thesis
    unfolding mh_migrate_def Let_def
    by (rule triple_bind [OF mh_step_triple [OF others create]], rule triple_bind [OF mh_step_triple [OF others delete]],
        rule stays [OF others],
        intro others.keeps_mh_complete others.keeps_steps others.keeps_mh_step others.keeps_updateRelatedObjects
          others.keeps_MigrateNSHierarchy others.keeps_enqueue others.keeps_createMigrationUPQ others.keeps_root_resources)
qed

text \<open>Up to the migration proper, \<^verbatim>\<open>reconcile\<close> leaves the subnamespaces alone; the migration starts with the
  subnamespace under the parent that the namespace names.\<close>

lemma mh_reconcile_triple:
  fixes s :: "('w, 'q) hns" and v :: "'w \<Rightarrow> 'v" and V :: "'v \<Rightarrow> bool"
  assumes "others_leave E v" "readable (api_sns E) view"
    and "New (api_ns E) (world s) (nskey (mh_current (oc_object mh))) empty_meta = OK ns"
    and "view (world s) (nnkey (Parent (oc_object ns)) (mh_current (oc_object mh))) = Some obj" "V (v (world s))"
    and weak: "\<And>v. V v \<Longrightarrow> X v" "\<And>s. V (v (world s)) \<Longrightarrow> Q True s"
    and migrate: "\<And>mh' old toNS ex root q. oc_object old = obj \<Longrightarrow> oc_present old \<Longrightarrow>
      triple (\<lambda>s. V (v (world s))) (mh_migrate E mh' (mh_current (oc_object mh)) (mh_to (oc_object mh)) ns old toNS ex root q)
        Q (\<lambda>s. X (v (world s)))"
  shows "triple (\<lambda>t. t = s) (mh_reconcile E mh) Q (\<lambda>s. X (v (world s)))"
proof -
  note law = assms(2)
  have ns: "triple (\<lambda>t. t = s) (reads (\<lambda>s. New (api_ns E) (world s) (nskey (mh_current (oc_object mh))) empty_meta))
      (\<lambda>a t. a = ns \<and> t = s) (\<lambda>s. X (v (world s)))"
    using assms(3,5) weak(1) by (intro triple_reads) auto
  let ?k = "nnkey (Parent (oc_object ns)) (mh_current (oc_object mh))"
  have old: "triple (\<lambda>t. t = s) (reads (\<lambda>s. New (api_sns E) (world s) ?k empty_sns))
      (\<lambda>r t. (oc_object r = obj \<and> oc_present r) \<and> V (v (world t))) (\<lambda>s. X (v (world s)))"
  proof (rule triple_reads)
    fix t r assume t: "t = s" "New (api_sns E) (world t) ?k empty_sns = OK r"
    from t(2) show "(oc_object r = obj \<and> oc_present r) \<and> V (v (world t))"
    proof (cases rule: New_cases)
      case found
      then show ?thesis using readable_getD [OF law found(1)] t(1) assms(4,5) by simp
    next
      case (absent e)
      then show ?thesis using readable_NotFoundD [OF law absent(1,2)] t(1) assms(4) by simp
    qed
  qed (use assms(5) weak(1) in simp)
  have before: "triple (\<lambda>s. V (v (world s))) m (\<lambda>_ s. V (v (world s))) (\<lambda>s. X (v (world s)))"
    if "keeps (same_sns E v) (\<lambda>_. True) m" for m :: "(('w, 'q) hns, 'a) prog"
    by (rule triple_conseq [OF stays [OF assms(1) that, where V = V]]) (auto simp: weak(1))
  show ?thesis
    unfolding mh_reconcile_def Let_def
    by (rule triple_bind [OF mh_step_triple [OF assms(1) ns]], rule triple_fact, hypsubst,
        rule triple_bind [OF mh_step_triple [OF assms(1) old]], rule triple_fact,
        (rule triple_bind [OF before], intro others.keeps_mh_start others.keeps_mh_step others.keeps_steps)+,
        rule triple_if, rule triple_ret, use weak(2) in simp, rule migrate, simp_all)
qed

lemma mh_Reconcile_cases:
  assumes "New (api_mh E) (world s) (nskey (key_name req)) empty_mh = OK mh"
  shows "mh_Reconcile E req s =
    (if IsPresent mh \<and> ShouldReconcile (mh_phase (oc_object mh)) then mh_reconcile E mh s else (OK False, s))"
  using assms by (simp add: mh_Reconcile_def bind_def reads_def wrapf_def catch_def ret_def)

text \<open>C7: a reconciliation of a MigrationHierarchy whose destination is not yet the parent of the namespace, wherever it
  fails and also when a failed call has taken effect, leaves the subnamespace under its old parent or under the new
  one, with a single exception: a deletion that was reported as failed during this reconciliation although it took effect.\<close>

theorem mh_Reconcile_keeps_subnamespace:
  fixes s :: "('w, 'q) hns"
  assumes "fault_laws E view lost" "New (api_mh E) (world s) (nskey (key_name req)) empty_mh = OK mh"
    and "New (api_ns E) (world s) (nskey (mh_current (oc_object mh))) empty_meta = OK ns"
    and "view (world s) (nnkey (Parent (oc_object ns)) (mh_current (oc_object mh))) \<noteq> None"
    and "view (world s) (nskey (mh_current (oc_object mh))) = None"
    and "Parent (oc_object ns) \<noteq> mh_to (oc_object mh)"
  shows "view (world (snd (mh_Reconcile E req s))) (nnkey (Parent (oc_object ns)) (mh_current (oc_object mh))) \<noteq> None \<or>
    view (world (snd (mh_Reconcile E req s))) (nnkey (mh_to (oc_object mh)) (mh_current (oc_object mh))) \<noteq> None \<or>
    lost (world s) < lost (world (snd (mh_Reconcile E req s)))"
proof -
  let ?k = "nnkey (Parent (oc_object ns)) (mh_current (oc_object mh))"
  let ?k' = "nnkey (mh_to (oc_object mh)) (mh_current (oc_object mh))"
  let ?n = "lost (world s)" and ?v = "\<lambda>w. (view w, lost w)"
  have law: "readable (api_sns E) view" "others_leave E ?v" using assms(1) by (simp_all add: fault_laws_def)
  obtain obj where obj: "view (world s) ?k = Some obj" using assms(4) by auto
  have key: "obj_key obj = ?k" by (rule sns_key [OF law(1) obj])
  have neq: "?k \<noteq> ?k'" using assms(6) by (simp add: nnkey_def)
  have name: "key_name ?k = mh_current (oc_object mh)" by (simp add: nnkey_def)
  have "triple (\<lambda>t. t = s) (mh_reconcile E mh) (\<lambda>_ s. somewhere ?n ?k ?k' (?v (world s))) (\<lambda>s. somewhere ?n ?k ?k' (?v (world s)))"
  proof (rule mh_reconcile_triple [where V = "\<lambda>p. (fst p ?k \<noteq> None \<and> fst p (nskey (key_name ?k)) = None) \<and> ?n \<le> snd p",
        OF law(2,1) assms(3) obj])
    show "triple (\<lambda>s. (fst (?v (world s)) ?k \<noteq> None \<and> fst (?v (world s)) (nskey (key_name ?k)) = None) \<and> ?n \<le> snd (?v (world s)))
        (mh_migrate E mh' (mh_current (oc_object mh)) (mh_to (oc_object mh)) ns old toNS ex root q)
        (\<lambda>_ s. somewhere ?n ?k ?k' (?v (world s))) (\<lambda>s. somewhere ?n ?k ?k' (?v (world s)))"
      if "oc_object old = obj" for mh' old toNS ex root q
      using mh_migrate_triple [OF assms(1) _ neq, of old ?n] key that by simp
  qed (use assms(4,5) name in \<open>auto simp: somewhere_def\<close>)
  then have "somewhere ?n ?k ?k' (?v (world (snd (mh_reconcile E mh s))))"
    by (rule triple_any) simp
  then show ?thesis using assms(4) by (auto simp: mh_Reconcile_cases [OF assms(2)] somewhere_def)
qed

subsection \<open>A migration that goes through\<close>

text \<open>A deleted object may remain until its finalizers are gone.\<close>

definition gone :: "'q subnamespace option \<Rightarrow> bool" where
  "gone x = (case x of None \<Rightarrow> True | Some obj \<Rightarrow> meta_deleting obj)"

lemma deleteSNS_gone:
  fixes s :: "('w, 'q) hns"
  assumes "mh_laws E view" "deleteSNS E r s = (OK (), s')" "oc_present r" "view (world s) (obj_key (oc_object r)) \<noteq> None"
    and "\<And>obj w e w'. k_delete (api_sns E) obj w = (Some e, w') \<Longrightarrow> IsNotFound e \<Longrightarrow> view w (obj_key obj) = None"
  shows "gone (view (world s') (obj_key (oc_object r)))"
proof -
  obtain e w' where d: "k_delete (api_sns E) (oc_object r) (world s) = (e, w')"
    by (cases "k_delete (api_sns E) (oc_object r) (world s)")
  have "e = None" "world s' = w'"
    using assms(2,3,4) d assms(5) [of "oc_object r" "world s"]
    by (cases e; auto simp: deleteSNS_def EnsureDelete_def DeleteObject_def IsPresent_def wrapf_def catch_def bind_def
        ret_def fail_def split: if_splits)+
  moreover have "lawful (api_sns E) view" using assms(1) by (simp add: mh_laws_def)
  ultimately show ?thesis using d unfolding lawful_def by (fastforce simp: gone_def)
qed

text \<open>The subnamespaces after a migration: the old one is gone, the new one is there, and the others are as they were.\<close>

definition sns_moved ::
  "(objkey \<Rightarrow> 'q subnamespace option) \<Rightarrow> objkey \<Rightarrow> objkey \<Rightarrow> 'q subnamespace \<Rightarrow> (objkey \<Rightarrow> 'q subnamespace option) \<Rightarrow> bool" where
  "sns_moved v k k' sns v' \<longleftrightarrow> gone (v' k) \<and> (\<forall>x. x \<noteq> k \<and> x \<noteq> k' \<longrightarrow> v' x = v x) \<and>
     (\<exists>obj. v' k' = Some obj \<and> (v k' = None \<longrightarrow> sns_phase obj = Migrated \<and> sns_hard obj = sns_hard sns))"

lemma deleteOldSNS_OK:
  assumes "mstr (meta_annotations (oc_object old)) ParentKey \<noteq> to" "deleteOldSNS E old new to s = (OK u, s')"
  shows "deleteSNS E old s = (OK (), s')"
  using assms by (auto simp: deleteOldSNS_def attempt_def bind_def wrapf_def catch_def ret_def fail_def
      split: outcome.splits prod.splits)

lemma migrate_moves_triple:
  fixes old :: "'q subnamespace object_context"
  assumes "mh_laws E view" "obj_key (oc_object old) = k" "oc_present old" "k \<noteq> nnkey to current"
    and "mstr (meta_annotations (oc_object old)) ParentKey \<noteq> to"
    and "\<And>obj w e w'. k_delete (api_sns E) obj w = (Some e, w') \<Longrightarrow> IsNotFound e \<Longrightarrow> view w (obj_key obj) = None"
    and "v k \<noteq> None" "v (nskey (key_name k)) = None"
  shows "triple (\<lambda>s. view (world s) = v) (mh_migrate E mh current to ns old toNS ex root q)
    (\<lambda>_ s. sns_moved v k (nnkey to current) (oc_object old) (view (world s))) (\<lambda>_. True)"
proof -
  let ?k' = "nnkey to current"
  let ?created = "\<lambda>v'. (\<forall>x. x \<noteq> ?k' \<longrightarrow> v' x = v x) \<and>
     (\<exists>obj. v' ?k' = Some obj \<and> (v ?k' = None \<longrightarrow> sns_phase obj = Migrated \<and> sns_hard obj = sns_hard (oc_object old)))"
  have name: "oc_name old = key_name k" using assms(2) by (auto simp: obj_key_def nnkey_def)
  have create: "triple (\<lambda>s. view (world s) = v) (createNewSNS E old current to) (\<lambda>_ s. ?created (view (world s))) (\<lambda>_. True)"
  proof (rule tripleI)
    fix s new s'
    assume s: "view (world s) = v" "createNewSNS E old current to s = (OK new, s')"
    then have "view (world s) (nskey (oc_name old)) = None" using assms(8) by (simp add: name)
    from createNewSNS_view [OF assms(1) s(2) this] s(1) show "?created (view (world s'))" by blast
  qed simp_all
  have delete: "triple (\<lambda>s. ?created (view (world s))) (deleteOldSNS E old new to)
      (\<lambda>_ s. sns_moved v k ?k' (oc_object old) (view (world s))) (\<lambda>_. True)" for new
  proof (rule tripleI)
    fix s s' and u :: unit
    assume s: "?created (view (world s))" "deleteOldSNS E old new to s = (OK u, s')"
    note run = deleteOldSNS_OK [OF assms(5) s(2)]
    have "view (world s) k \<noteq> None" using s(1) assms(4,7) by simp
    then have "gone (view (world s') k)"
      using deleteSNS_gone [OF assms(1) run assms(3)] assms(6) unfolding assms(2) by blast
    moreover have "\<forall>x. x \<noteq> k \<longrightarrow> view (world s') x = view (world s) x"
      using deleteSNS_view [OF assms(1) run] unfolding assms(2) by blast
    ultimately show "sns_moved v k ?k' (oc_object old) (view (world s'))"
      using s(1) assms(4) unfolding sns_moved_def by metis
  qed simp_all
  note step = mh_step_triple [OF mh_lawsD(3) [OF assms(1)], where V = "\<lambda>_. True"]
  have after: "triple (\<lambda>s. sns_moved v k ?k' (oc_object old) (view (world s))) m
      (\<lambda>_ s. sns_moved v k ?k' (oc_object old) (view (world s))) (\<lambda>_. True)"
    if "keeps (same_sns E view) (\<lambda>_. True) m" for m :: "(('a, 'q) hns, 'b) prog"
    by (rule triple_conseq [OF stays [OF mh_lawsD(3) [OF assms(1)] that, where V = "sns_moved v k ?k' (oc_object old)"]]) simp_all
  show ?thesis
    unfolding mh_migrate_def Let_def
    by (rule triple_bind [OF step [OF create]], rule triple_bind [OF step [OF delete]], rule after,
        intro others.keeps_mh_complete others.keeps_steps others.keeps_mh_step others.keeps_updateRelatedObjects
          others.keeps_MigrateNSHierarchy others.keeps_enqueue others.keeps_createMigrationUPQ others.keeps_root_resources)
qed

text \<open>C8: a migration that ends without asking to be called again has moved the subnamespace: it is gone (or being
  deleted) under the old parent, exists under the new one, where a new one starts in the phase Migrated with the quota
  of the old, and every other subnamespace is as it was.\<close>

theorem mh_Reconcile_moves_subnamespace:
  fixes s s' :: "('w, 'q) hns"
  assumes "mh_laws E view"
    and "\<And>obj w e w'. k_delete (api_sns E) obj w = (Some e, w') \<Longrightarrow> IsNotFound e \<Longrightarrow> view w (obj_key obj) = None"
    and "New (api_mh E) (world s) (nskey (key_name req)) empty_mh = OK mh" "oc_present mh"
    and "ShouldReconcile (mh_phase (oc_object mh))"
    and "New (api_ns E) (world s) (nskey (mh_current (oc_object mh))) empty_meta = OK ns"
    and "Parent (oc_object ns) \<noteq> mh_to (oc_object mh)"
    and "view (world s) (nnkey (Parent (oc_object ns)) (mh_current (oc_object mh))) = Some sns"
    and "mstr (meta_annotations sns) ParentKey \<noteq> mh_to (oc_object mh)"
    and "view (world s) (nskey (mh_current (oc_object mh))) = None"
    and "mh_Reconcile E req s = (OK False, s')"
  shows "gone (view (world s') (nnkey (Parent (oc_object ns)) (mh_current (oc_object mh)))) \<and>
    (\<exists>obj. view (world s') (nnkey (mh_to (oc_object mh)) (mh_current (oc_object mh))) = Some obj \<and>
       (view (world s) (nnkey (mh_to (oc_object mh)) (mh_current (oc_object mh))) = None \<longrightarrow>
          sns_phase obj = Migrated \<and> sns_hard obj = sns_hard sns)) \<and>
    (\<forall>k. k \<noteq> nnkey (Parent (oc_object ns)) (mh_current (oc_object mh)) \<and>
       k \<noteq> nnkey (mh_to (oc_object mh)) (mh_current (oc_object mh)) \<longrightarrow> view (world s') k = view (world s) k)"
proof -
  let ?k = "nnkey (Parent (oc_object ns)) (mh_current (oc_object mh))"
  let ?k' = "nnkey (mh_to (oc_object mh)) (mh_current (oc_object mh))"
  let ?moved = "sns_moved (view (world s)) ?k ?k' sns"
  have name: "key_name ?k = mh_current (oc_object mh)" by (simp add: nnkey_def)
  have neq: "?k \<noteq> ?k'" using assms(7) by (simp add: nnkey_def)
  have "triple (\<lambda>t. t = s) (mh_reconcile E mh) (\<lambda>r t. \<not> r \<longrightarrow> ?moved (view (world t))) (\<lambda>_. True)"
  proof (rule mh_reconcile_triple [where V = "\<lambda>v. v = view (world s)", OF mh_lawsD(3,2) [OF assms(1)] assms(6,8)])
    show "triple (\<lambda>t. view (world t) = view (world s))
        (mh_migrate E mh' (mh_current (oc_object mh)) (mh_to (oc_object mh)) ns old toNS ex root q)
        (\<lambda>r t. \<not> r \<longrightarrow> ?moved (view (world t))) (\<lambda>_. True)"
      if old: "oc_object old = sns" "oc_present old" for mh' old toNS ex root q
    proof (rule triple_conseq [OF migrate_moves_triple [OF assms(1) _ old(2) neq _ assms(2)]])
      show "obj_key (oc_object old) = ?k" using sns_key [OF mh_lawsD(2) [OF assms(1)] assms(8)] old(1) by simp
      show "mstr (meta_annotations (oc_object old)) ParentKey \<noteq> mh_to (oc_object mh)" using assms(9) old(1) by simp
      show "view (world s) ?k \<noteq> None" "view (world s) (nskey (key_name ?k)) = None" using assms(8,10) name by simp_all
    qed (simp_all add: old(1))
  qed simp_all
  moreover have "mh_reconcile E mh s = (OK False, s')"
    using assms(11) by (simp add: mh_Reconcile_cases [OF assms(3)] IsPresent_def assms(4,5))
  ultimately have "?moved (view (world s'))" using tripleD(1) by fastforce
  then show ?thesis by (auto simp: sns_moved_def)
qed

subsection \<open>A migration that is tried again\<close>

text \<open>\<^verbatim>\<open>deleteOldSNS\<close> is meant to do nothing when the destination is already the parent. It looks for the
  parent in an annotation of the subnamespace, where nobody writes it; so the subnamespace that the first
  attempt created is taken for the old one and deleted.\<close>

lemma migrate_again_triple:
  fixes old :: "'q subnamespace object_context"
  assumes "mh_laws E view" "obj_key (oc_object old) = k" "oc_present old"
    and "mstr (meta_annotations (oc_object old)) ParentKey \<noteq> to" "k = nnkey to current"
    and "\<And>obj w e w'. k_delete (api_sns E) obj w = (Some e, w') \<Longrightarrow> IsNotFound e \<Longrightarrow> view w (obj_key obj) = None"
  shows "triple (there view k) (mh_migrate E mh current to ns old toNS ex root q) (\<lambda>_ s. gone (view (world s) k)) (\<lambda>_. True)"
proof -
  have name: "oc_name old = key_name k" using assms(2) by (auto simp: obj_key_def nnkey_def)
  have create: "triple (there view k) (createNewSNS E old current to) (\<lambda>_ s. view (world s) k \<noteq> None) (\<lambda>_. True)"
  proof (rule tripleI)
    fix s new s'
    assume s: "there view k s" "createNewSNS E old current to s = (OK new, s')"
    then have "view (world s) (nskey (oc_name old)) = None" by (simp only: name)
    from createNewSNS_view [OF assms(1) s(2) this] show "view (world s') k \<noteq> None" unfolding assms(5) by auto
  qed simp_all
  have delete: "triple (\<lambda>s. view (world s) k \<noteq> None) (deleteOldSNS E old new to) (\<lambda>_ s. gone (view (world s) k)) (\<lambda>_. True)" for new
  proof (rule tripleI)
    fix s s' and u :: unit
    assume s: "view (world s) k \<noteq> None" "deleteOldSNS E old new to s = (OK u, s')"
    from deleteSNS_gone [OF assms(1) deleteOldSNS_OK [OF assms(4) s(2)] assms(3)] assms(6) s(1) show "gone (view (world s') k)"
      unfolding assms(2) by blast
  qed simp_all
  note step = mh_step_triple [OF mh_lawsD(3) [OF assms(1)], where V = "\<lambda>_. True"]
  have after: "triple (\<lambda>s. gone (view (world s) k)) m (\<lambda>_ s. gone (view (world s) k)) (\<lambda>_. True)"
    if "keeps (same_sns E view) (\<lambda>_. True) m" for m :: "(('a, 'q) hns, 'b) prog"
    by (rule triple_conseq [OF stays [OF mh_lawsD(3) [OF assms(1)] that, where V = "\<lambda>v. gone (v k)"]]) simp_all
  show ?thesis
    unfolding mh_migrate_def Let_def
    by (rule triple_bind [OF step [OF create]], rule triple_bind [OF step [OF delete]], rule after,
        intro others.keeps_mh_complete others.keeps_steps others.keeps_mh_step others.keeps_updateRelatedObjects
          others.keeps_MigrateNSHierarchy others.keeps_enqueue others.keeps_createMigrationUPQ others.keeps_root_resources)
qed

text \<open>C37: a MigrationHierarchy that is reconciled again after the namespace got its new parent (the first attempt
  failed later, or its last status was lost) deletes the subnamespace it had moved: when the reconciliation ends
  without asking to be called again, the subnamespace under the destination is gone.\<close>

theorem mh_Reconcile_again_deletes_subnamespace:
  fixes s s' :: "('w, 'q) hns"
  assumes "mh_laws E view"
    and "\<And>obj w e w'. k_delete (api_sns E) obj w = (Some e, w') \<Longrightarrow> IsNotFound e \<Longrightarrow> view w (obj_key obj) = None"
    and "New (api_mh E) (world s) (nskey (key_name req)) empty_mh = OK mh" "oc_present mh"
    and "ShouldReconcile (mh_phase (oc_object mh))"
    and "New (api_ns E) (world s) (nskey (mh_current (oc_object mh))) empty_meta = OK ns"
    and "Parent (oc_object ns) = mh_to (oc_object mh)"
    and "view (world s) (nnkey (mh_to (oc_object mh)) (mh_current (oc_object mh))) = Some sns"
    and "mstr (meta_annotations sns) ParentKey \<noteq> mh_to (oc_object mh)"
    and "view (world s) (nskey (mh_current (oc_object mh))) = None"
    and "mh_Reconcile E req s = (OK False, s')"
  shows "gone (view (world s') (nnkey (mh_to (oc_object mh)) (mh_current (oc_object mh))))"
proof -
  let ?k = "nnkey (mh_to (oc_object mh)) (mh_current (oc_object mh))"
  have name: "key_name ?k = mh_current (oc_object mh)" by (simp add: nnkey_def)
  have "triple (\<lambda>t. t = s) (mh_reconcile E mh) (\<lambda>r s. \<not> r \<longrightarrow> gone (view (world s) ?k)) (\<lambda>_. True)"
  proof (rule mh_reconcile_triple [where V = "\<lambda>v. v ?k \<noteq> None \<and> v (nskey (key_name ?k)) = None", OF mh_lawsD(3,2) [OF assms(1)] assms(6)])
    show "triple (there view ?k) (mh_migrate E mh' (mh_current (oc_object mh)) (mh_to (oc_object mh)) ns old toNS ex root q)
        (\<lambda>r s. \<not> r \<longrightarrow> gone (view (world s) ?k)) (\<lambda>_. True)"
      if old: "oc_object old = sns" "oc_present old" for mh' old toNS ex root q
    proof (rule triple_conseq [OF migrate_again_triple [OF assms(1) _ old(2) _ refl assms(2)]])
      show "obj_key (oc_object old) = ?k" using sns_key [OF mh_lawsD(2) [OF assms(1)] assms(8)] old(1) by simp
      show "mstr (meta_annotations (oc_object old)) ParentKey \<noteq> mh_to (oc_object mh)" using assms(9) old(1) by simp
    qed simp_all
  qed (use assms(7,8,10) name in auto)
  moreover have "mh_reconcile E mh s = (OK False, s')"
    using assms(11) by (simp add: mh_Reconcile_cases [OF assms(3)] IsPresent_def assms(4,5))
  ultimately show ?thesis using tripleD(1) by fastforce
qed


subsection \<open>Instances\<close>

text \<open>The cluster in memory while \<open>c\<close>, which has no quota object, moves under \<open>d\<close>: before the migration proper,
  and after it when the last status was lost.\<close>

definition moving :: mem where
  "moving = sample\<lparr>mem_mh := [(oc_object sample_mh)\<lparr>mh_phase := InProgress\<rparr>], mem_crq := []\<rparr>"

definition moved :: mem where
  "moved = moving\<lparr>mem_ns := map (\<lambda>ns. if meta_name ns = ''c'' then mk_ns ''c'' ''d'' ''root/a/d/c'' ''3'' else ns) (mem_ns sample),
     mem_sns := filter (\<lambda>sns. meta_name sns \<noteq> ''c'') (mem_sns sample) @ [mk_sns ''d'' ''c'' Created [(''cpu'', 2)]]\<rparr>"

definition moving_mh :: "migration_hierarchy object_context" where
  "moving_mh = ctx ((oc_object sample_mh)\<lparr>mh_phase := InProgress\<rparr>)"

lemma mem_mh_laws: "mh_laws mem_env (mem_view mem_sns)"
proof -
  have "leaves (api_upq mem_env) (mem_view mem_sns)" "leaves (api_mh mem_env) (mem_view mem_sns)"
    by (simp_all add: mem_env_def mem_api_leaves)
  then show ?thesis using mem_env_lawful(2) mem_env_leaves unfolding mh_laws_def others_leave_def by (simp add: mem_env_def)
qed

lemma moving_evaluates:
  "New (api_mh mem_env) moving (nskey (key_name (nskey ''c-to-d''))) empty_mh = OK moving_mh"
  "New (api_ns mem_env) moving (nskey (mh_current (oc_object moving_mh))) empty_meta = OK sample_c"
  "Parent (oc_object sample_c) = ''b''" "mh_current (oc_object moving_mh) = ''c''" "mh_to (oc_object moving_mh) = ''d''"
  "mem_find (nnkey ''b'' ''c'') (mem_sns moving) = Some (mk_sns ''b'' ''c'' Created [(''cpu'', 2)])"
  "mem_find (nskey ''c'') (mem_sns moving) = None"
  "mem_find (nnkey ''b'' ''c'') (mem_sns (world (snd (mh_Reconcile mem_env (nskey ''c-to-d'') (mem_state moving sample_forest))))) = None"
  by code_simp+

text \<open>The migration goes through: the subnamespace is under \<open>d\<close>, and no longer under \<open>b\<close>.\<close>

theorem mh_Reconcile_keeps_subnamespace_witness:
  "mem_find (nnkey ''d'' ''c'') (mem_sns (world (snd (mh_Reconcile mem_env (nskey ''c-to-d'') (mem_state moving sample_forest))))) \<noteq> None"
proof -
  have w: "world (mem_state moving sample_forest) = moving" by (simp add: mem_state_def)
  show ?thesis
    using mh_Reconcile_keeps_subnamespace [OF mh_laws_fault [OF mem_mh_laws], where s = "mem_state moving sample_forest" and req = "nskey ''c-to-d''"
        and mh = moving_mh and ns = sample_c] moving_evaluates
    by (simp add: w)
qed

text \<open>The exception is real: when the API server deletes but answers that it timed out, \<^verbatim>\<open>deleteOldSNS\<close> deletes
  the new subnamespace after the old one, and none is left.\<close>

definition timing_out_env :: "(mem, int \<times> string) env" where
  "timing_out_env = mem_env\<lparr>api_sns := (api_sns mem_env)\<lparr>k_delete := (\<lambda>obj w.
     (Some DeadlineExceeded, snd (k_delete (api_sns mem_env) obj w)))\<rparr>\<rparr>"

lemma timed_out_delete_loses:
  "(let w = world (snd (mh_Reconcile timing_out_env (nskey ''c-to-d'') (mem_state moving sample_forest)))
    in mem_find (nnkey ''b'' ''c'') (mem_sns w) = None \<and> mem_find (nnkey ''d'' ''c'') (mem_sns w) = None)"
  by code_simp

lemma moved_evaluates:
  "New (api_mh mem_env) moved (nskey (key_name (nskey ''c-to-d''))) empty_mh = OK moving_mh"
  "New (api_ns mem_env) moved (nskey (mh_current (oc_object moving_mh))) empty_meta = OK (ctx (mk_ns ''c'' ''d'' ''root/a/d/c'' ''3''))"
  "Parent (mk_ns ''c'' ''d'' ''root/a/d/c'' ''3'') = ''d''" "ShouldReconcile (mh_phase (oc_object moving_mh))"
  "mem_find (nnkey ''d'' ''c'') (mem_sns moved) = Some (mk_sns ''d'' ''c'' Created [(''cpu'', 2)])"
  "mstr (meta_annotations (mk_sns ''d'' ''c'' Created [(''cpu'', 2)])) ParentKey \<noteq> ''d''"
  "mem_find (nskey ''c'') (mem_sns moved) = None"
  by code_simp+

lemma moved_runs: "fst (mh_Reconcile mem_env (nskey ''c-to-d'') (mem_state moved sample_forest)) = OK False"
  by code_simp

lemma mem_delete_NotFound:
  "k_delete (api_sns mem_env) obj w = (Some e, w') \<Longrightarrow> IsNotFound e \<Longrightarrow> mem_find (obj_key obj) (mem_sns w) = None"
  by (auto simp: mem_env_def mem_api_simps split: option.splits)

lemma moving_moves:
  "oc_present moving_mh" "ShouldReconcile (mh_phase (oc_object moving_mh))"
  "mstr (meta_annotations (mk_sns ''b'' ''c'' Created [(''cpu'', 2 :: int)])) ParentKey \<noteq> ''d''"
  "mem_find (nnkey ''d'' ''c'') (mem_sns moving) = None"
  "fst (mh_Reconcile mem_env (nskey ''c-to-d'') (mem_state moving sample_forest)) = OK False"
  by code_simp+

theorem mh_Reconcile_moves_subnamespace_witness:
  "\<exists>obj. mem_find (nnkey ''d'' ''c'') (mem_sns (world (snd (mh_Reconcile mem_env (nskey ''c-to-d'') (mem_state moving sample_forest))))) =
     Some obj \<and> sns_phase obj = Migrated \<and> sns_hard obj = sns_hard (mk_sns ''b'' ''c'' Created [(''cpu'', 2)])"
proof -
  have w: "world (mem_state moving sample_forest) = moving" by (simp add: mem_state_def)
  obtain s' where s': "mh_Reconcile mem_env (nskey ''c-to-d'') (mem_state moving sample_forest) = (OK False, s')"
    using moving_moves(5) by (cases "mh_Reconcile mem_env (nskey ''c-to-d'') (mem_state moving sample_forest)") simp
  show ?thesis
    using mh_Reconcile_moves_subnamespace [OF mem_mh_laws mem_delete_NotFound _ moving_moves(1,2) _ _ _ _ _ s',
        where ns = sample_c and sns = "mk_sns ''b'' ''c'' Created [(''cpu'', 2)]"] moving_evaluates moving_moves s'
    by (simp add: w)
qed

theorem mh_Reconcile_again_deletes_subnamespace_witness:
  "mem_find (nnkey ''d'' ''c'') (mem_sns moved) \<noteq> None \<and>
   gone (mem_find (nnkey ''d'' ''c'') (mem_sns (world (snd (mh_Reconcile mem_env (nskey ''c-to-d'') (mem_state moved sample_forest))))))"
proof -
  have w: "world (mem_state moved sample_forest) = moved" by (simp add: mem_state_def)
  obtain s' where s': "mh_Reconcile mem_env (nskey ''c-to-d'') (mem_state moved sample_forest) = (OK False, s')"
    using moved_runs by (cases "mh_Reconcile mem_env (nskey ''c-to-d'') (mem_state moved sample_forest)") simp
  have mh: "oc_present moving_mh" "mh_current (oc_object moving_mh) = ''c''" "mh_to (oc_object moving_mh) = ''d''"
    by code_simp+
  have ns: "oc_object (ctx (mk_ns ''c'' ''d'' ''root/a/d/c'' ''3'')) = mk_ns ''c'' ''d'' ''root/a/d/c'' ''3''"
    by (simp add: ctx_def)
  show ?thesis
    using mh_Reconcile_again_deletes_subnamespace [OF mem_mh_laws mem_delete_NotFound _ mh(1) moved_evaluates(4) _ _ _ _ _ s',
        where ns = "ctx (mk_ns ''c'' ''d'' ''root/a/d/c'' ''3'')"] moved_evaluates mh s' ns
    by (simp add: w)
qed

end
