(* ===== verification/NsPlacement.thy ===== *)
theory NsPlacement
  imports Migration
begin

section \<open>The place of a namespace\<close>

text \<open>
  The labels and annotations of a namespace say where it is in the tree: its path and depth, its
  parent, and one quota selector for every namespace on its path. A namespace that is composed
  below a well-placed parent, or updated from one by a migration, is well placed. A migration only
  adds entries, so what the old place left behind stays.
\<close>

definition ns_path :: "namespace \<Rightarrow> string list" where
  "ns_path ns = Split (CHR ''/'') (DisplayName ns)"

definition well_placed :: "namespace \<Rightarrow> bool" where
  "well_placed ns \<longleftrightarrow> wf_map (meta_annotations ns) \<and> wf_map (meta_labels ns) \<and> meta_labels ns \<noteq> None \<and>
     last (ns_path ns) = meta_name ns \<and> Depth ns = int (length (ns_path ns)) - 1 \<and>
     list_all (\<lambda>i. mget (meta_annotations ns) (selector_key (int i)) = Some (ns_path ns ! i)) [0..<length (ns_path ns)]"

subsection \<open>Maps that are appended\<close>

lemma distinct_keys_update [simp]: "distinct (map fst xs) \<Longrightarrow> distinct (map fst (AList.update k v xs))"
  by (simp add: distinct_update)

lemma distinct_child_maps:
  "distinct (map fst (AnnotationsBasedOnParent p n))" "distinct (map fst (LabelsBasedOnParent p n))"
  by (simp_all add: AnnotationsBasedOnParent_def LabelsBasedOnParent_def Let_def defaultAnnotations_def defaultLabels_def
      crqSelectors_def distinct_put_all)

definition overlaid :: "(string \<times> string) list \<Rightarrow> strmap \<Rightarrow> strmap \<Rightarrow> bool" where
  "overlaid new old m \<longleftrightarrow> m \<noteq> None \<and> (wf_map old \<longrightarrow> wf_map m) \<and>
     (\<forall>k. mget m k = (case map_of new k of None \<Rightarrow> mget old k | Some v \<Rightarrow> Some v))"

lemma overlaid_put_all: "distinct (map fst new) \<Longrightarrow> overlaid new (Some old) (Some (put_all new old))"
  by (simp add: overlaid_def distinct_put_all map_of_put_all mget_def split: option.split)

lemma overlaid_None: "distinct (map fst new) \<Longrightarrow> overlaid new None (Some new)"
  by (simp add: overlaid_def split: option.splits)

lemma stored_meta:
  "stored obj obj' \<Longrightarrow> meta_annotations obj' = meta_annotations obj \<and> meta_labels obj' = meta_labels obj \<and>
     meta_name obj' = meta_name obj"
  unfolding stored_def by (cases obj; cases obj') simp

lemma stored_life: "stored obj obj' \<Longrightarrow> meta_finalizers obj' = meta_finalizers obj \<and> meta_deleting obj' = meta_deleting obj"
  unfolding stored_def by (cases obj; cases obj') simp

text \<open>An update that succeeds, or meets a conflict, hands back the object it was given but for its version.\<close>

lemma UpdateObjectE_object:
  assumes "lawful k view" "UpdateObjectE k OK r s = (OK r', s')"
  shows "meta_annotations (oc_object r') = meta_annotations (oc_object r)"
    "meta_labels (oc_object r') = meta_labels (oc_object r)" "oc_name r' = oc_name r"
proof -
  have "stored (oc_object r) (oc_object r') \<or> oc_object r' = oc_object r"
    using assms(2) lawful_write_OKD(1) [OF lawful_writeD(1) [OF assms(1)]]
    by (auto simp: UpdateObjectE_def UpdateObject_def check_err_def bind_def lift_def ret_def fail_def Let_def
        split: if_splits prod.splits sum.splits outcome.splits)
  then show "meta_annotations (oc_object r') = meta_annotations (oc_object r)"
    "meta_labels (oc_object r') = meta_labels (oc_object r)" "oc_name r' = oc_name r"
    using stored_meta [of "oc_object r" "oc_object r'"] by auto
qed

lemma AppendAnnotations_object:
  assumes "lawful (api_ns E) view" "AppendAnnotations (api_ns E) (Some new) r s = (OK r', s')" "distinct (map fst new)"
  shows "overlaid new (meta_annotations (oc_object r)) (meta_annotations (oc_object r'))"
    "meta_labels (oc_object r') = meta_labels (oc_object r)" "oc_name r' = oc_name r"
  using UpdateObjectE_object [OF assms(1) assms(2) [unfolded AppendAnnotations_def Let_def]] assms(3)
  by (auto simp: overlaid_put_all overlaid_None split: option.splits)

lemma AppendLabels_object:
  assumes "lawful (api_ns E) view" "AppendLabels (api_ns E) (Some new) r s = (OK r', s')" "distinct (map fst new)" "new \<noteq> []"
  shows "overlaid new (meta_labels (oc_object r)) (meta_labels (oc_object r'))"
    "meta_annotations (oc_object r') = meta_annotations (oc_object r)" "oc_name r' = oc_name r"
proof -
  obtain old where old: "meta_labels (oc_object r) = Some old"
    using assms(2,4) by (cases "meta_labels (oc_object r)") (simp_all add: AppendLabels_def mput_all_def lift_def bind_def panic_def)
  then have "UpdateObjectE (api_ns E) OK (r\<lparr>oc_object := (oc_object r)\<lparr>meta_labels := Some (put_all new old)\<rparr>\<rparr>) s = (OK r', s')"
    using assms(2) by (simp add: AppendLabels_def mput_all_def lift_def bind_def panic_def)
  from UpdateObjectE_object [OF assms(1) this] old assms(3)
  show "overlaid new (meta_labels (oc_object r)) (meta_labels (oc_object r'))"
    "meta_annotations (oc_object r') = meta_annotations (oc_object r)" "oc_name r' = oc_name r"
    by (auto simp: overlaid_put_all)
qed

subsection \<open>Below a well-placed parent\<close>

lemma overlaidD:
  assumes "overlaid new old m"
  shows "mget (Some new) k = Some v \<Longrightarrow> mget m k = Some v" "mget (Some new) k = None \<Longrightarrow> mget m k = mget old k"
    "wf_map old \<Longrightarrow> wf_map m" "m \<noteq> None"
  using assms unfolding overlaid_def by auto

lemma child_labels_get:
  assumes "CHR ''/'' \<notin> set n"
  shows "mget (Some (LabelsBasedOnParent p n)) ParentKey = Some (oc_name p)"
proof -
  have "ParentKey \<noteq> n" using assms slash_in_keys(1) by metis
  moreover have "ParentKey \<notin> set (DisplayNameSlice p)" using DisplayNameSlice_no_slash slash_in_keys(1) by blast
  moreover have "ParentKey \<noteq> HnsKey" by (simp add: key_defs)
  ultimately show ?thesis by (simp add: LabelsBasedOnParent_def Let_def map_of_trues)
qed

lemma child_annotations_get:
  assumes "well_placed (oc_object p)" "in_i64 (Depth (oc_object p) + 1)"
  shows "mget (Some (AnnotationsBasedOnParent p n)) DisplayNameKey = Some (DisplayName (oc_object p) @ ''/'' @ n)"
    "mget (Some (AnnotationsBasedOnParent p n)) DepthKey = Some (Itoa (Depth (oc_object p) + 1))"
    "i \<le> length (ns_path (oc_object p)) \<Longrightarrow>
     mget (Some (AnnotationsBasedOnParent p n)) (selector_key (int i)) = Some ((ns_path (oc_object p) @ [n]) ! i)"
proof -
  have wf: "wf_map (meta_annotations (oc_object p))" and depth: "Depth (oc_object p) + 1 = int (length (ns_path (oc_object p)))"
    using assms(1) by (simp_all add: well_placed_def)
  note get = map_of_AnnotationsBasedOnParent [OF wf, of n]
  show "mget (Some (AnnotationsBasedOnParent p n)) DisplayNameKey = Some (DisplayName (oc_object p) @ ''/'' @ n)"
    "mget (Some (AnnotationsBasedOnParent p n)) DepthKey = Some (Itoa (Depth (oc_object p) + 1))"
    using assms(2) get by (auto simp: Let_def key_defs)
  assume i: "i \<le> length (ns_path (oc_object p))"
  then have "in_i64 (int i)" using assms(2) depth by (simp add: in_i64_def)
  note inj = selector_key_inject [OF this assms(2)]
  show "mget (Some (AnnotationsBasedOnParent p n)) (selector_key (int i)) = Some ((ns_path (oc_object p) @ [n]) ! i)"
  proof (cases "i = length (ns_path (oc_object p))")
    case True
    then show ?thesis using get [of "selector_key (int i)"] assms(2) depth by (simp add: Let_def)
  next
    case False
    then have "mget (meta_annotations (oc_object p)) (selector_key (int i)) = Some (ns_path (oc_object p) ! i)"
      using assms(1) i by (simp add: well_placed_def list_all_iff)
    then show ?thesis
      using get [of "selector_key (int i)"] inj False i depth assms(2) by (simp add: Let_def nth_append)
  qed
qed

lemma overlaid_placed:
  assumes "well_placed (oc_object p)" "in_i64 (Depth (oc_object p) + 1)" "CHR ''/'' \<notin> set (meta_name c)"
    and ann: "overlaid (AnnotationsBasedOnParent p (meta_name c)) a (meta_annotations c)" "wf_map a"
    and labels: "mget (meta_labels c) ParentKey = Some (oc_name p)" "wf_map (meta_labels c)"
  shows "well_placed c \<and> ns_path c = ns_path (oc_object p) @ [meta_name c] \<and> Parent c = oc_name p"
proof -
  note get = overlaidD(1) [OF ann(1)] child_annotations_get [OF assms(1,2), where n = "meta_name c"]
  have name: "DisplayName c = DisplayName (oc_object p) @ ''/'' @ meta_name c"
    by (simp add: DisplayName_def mgetd_def get(1) [OF get(2)])
  have path: "ns_path c = ns_path (oc_object p) @ [meta_name c]"
    using assms(3) by (simp add: ns_path_def name Split_append_sep Split_no_sep)
  have depth: "Depth c = Depth (oc_object p) + 1"
    using assms(2) by (simp add: Depth_def mgetd_def get(1) [OF get(3)] Atoi_Itoa)
  have sel: "mget (meta_annotations c) (selector_key (int i)) = Some (ns_path c ! i)" if "i < length (ns_path c)" for i
    using get(1) [OF get(4), of i] that unfolding path by simp
  have "meta_labels c \<noteq> None" using labels(1) by (cases "meta_labels c") auto
  then have "well_placed c"
    using assms(1) sel overlaidD(3) [OF ann(1)] ann(2) labels
    by (auto simp: well_placed_def path depth list_all_iff)
  moreover have "Parent c = oc_name p" by (simp add: Parent_def mgetd_def labels(1))
  ultimately show ?thesis using path by simp
qed


lemma composed_placed:
  assumes "well_placed (oc_object p)" "in_i64 (Depth (oc_object p) + 1)" "CHR ''/'' \<notin> set (oc_name sns)"
  shows "well_placed (composeSNSNamespace p sns) \<and> ns_path (composeSNSNamespace p sns) = ns_path (oc_object p) @ [oc_name sns] \<and>
    Parent (composeSNSNamespace p sns) = oc_name p"
proof -
  let ?c = "composeSNSNamespace p sns"
  have c: "meta_name ?c = oc_name sns" "meta_annotations ?c = Some (AnnotationsBasedOnParent p (oc_name sns))"
    "meta_labels ?c = Some (AList.update ResourcePoolKey (mstr (meta_labels (oc_object sns)) ResourcePoolKey)
       (LabelsBasedOnParent p (oc_name sns)))"
    by (simp_all add: composeSNSNamespace_def Let_def ComposeNamespace_def empty_meta_def)
  have "ParentKey \<noteq> ResourcePoolKey" by (simp add: key_defs)
  then have "mget (meta_labels ?c) ParentKey = Some (oc_name p)"
    using child_labels_get [OF assms(3)] by (simp add: c)
  moreover have "overlaid (AnnotationsBasedOnParent p (meta_name ?c)) None (meta_annotations ?c)"
    by (simp only: c overlaid_None distinct_child_maps)
  moreover have "wf_map (meta_labels ?c)" by (simp add: c distinct_child_maps)
  ultimately show ?thesis using overlaid_placed [OF assms(1,2), of ?c None] assms(3) by (simp add: c)
qed

text \<open>C13: the namespace composed for a subnamespace below a well-placed parent is well placed: its path is the
  path of the parent followed by its name, its depth is the number of its ancestors, it names its parent, and
  it has a quota selector for every namespace on its path.\<close>

theorem composeSNSNamespace_placed:
  assumes "well_placed (oc_object p)" "in_i64 (Depth (oc_object p) + 1)" "CHR ''/'' \<notin> set (oc_name sns)"
  shows "well_placed (composeSNSNamespace p sns) \<and> ns_path (composeSNSNamespace p sns) = ns_path (oc_object p) @ [oc_name sns] \<and>
    Parent (composeSNSNamespace p sns) = oc_name p"
  using assms by (rule composed_placed)

subsection \<open>After a migration\<close>

lemma UpdateNSBasedOnParent_object:
  fixes s :: "('w, 'q) hns"
  assumes "lawful (api_ns E) view" "UpdateNSBasedOnParent E p c s = (OK c', s')"
  shows "overlaid (AnnotationsBasedOnParent p (oc_name c)) (meta_annotations (oc_object c)) (meta_annotations (oc_object c'))"
    "overlaid (LabelsBasedOnParent p (oc_name c)) (meta_labels (oc_object c)) (meta_labels (oc_object c'))" "oc_name c' = oc_name c"
proof -
  have nonempty: "LabelsBasedOnParent p (oc_name c) \<noteq> []"
    by (simp add: LabelsBasedOnParent_def Let_def AList.update_nonempty)
  obtain c1 s1 where ann: "AppendAnnotations (api_ns E) (Some (AnnotationsBasedOnParent p (oc_name c))) c s = (OK c1, s1)"
    and lab: "AppendLabels (api_ns E) (Some (LabelsBasedOnParent p (oc_name c))) c1 s1 = (OK c', snd (AppendLabels (api_ns E) (Some (LabelsBasedOnParent p (oc_name c))) c1 s1))"
    using assms(2) unfolding UpdateNSBasedOnParent_def Let_def
    by (auto simp: bind_def ret_def split: prod.splits outcome.splits)
  note a = AppendAnnotations_object [OF assms(1) ann distinct_child_maps(1)]
  note l = AppendLabels_object [OF assms(1) lab distinct_child_maps(2) nonempty]
  show "overlaid (AnnotationsBasedOnParent p (oc_name c)) (meta_annotations (oc_object c)) (meta_annotations (oc_object c'))"
    "overlaid (LabelsBasedOnParent p (oc_name c)) (meta_labels (oc_object c)) (meta_labels (oc_object c'))" "oc_name c' = oc_name c"
    using a l by simp_all
qed

text \<open>
  Namespaces obey the laws of an API server that completes deletions; nobody else writes them during the
  sleeps and retries of a migration. A context that holds what is stored meets no conflict, so it holds what is
  stored after an update, too.
\<close>

definition place_laws :: "('w, 'q) env \<Rightarrow> ('w \<Rightarrow> objkey \<Rightarrow> namespace option) \<Rightarrow> bool" where
  "place_laws E nsView \<longleftrightarrow> finishes (api_ns E) nsView \<and> leaves (api_crq E) nsView \<and>
     (\<forall>ms w. nsView (sleep E ms w) = nsView w) \<and>
     (\<forall>f w. (\<forall>w. nsView (snd (f w)) = nsView w) \<longrightarrow> nsView (snd (retryOnConflict E f w)) = nsView w)"

definition holds ::
  "('w \<Rightarrow> objkey \<Rightarrow> 'a object_meta_scheme option) \<Rightarrow> 'a object_meta_scheme object_context \<Rightarrow> 'w \<Rightarrow> bool" where
  "holds view r w \<longleftrightarrow> oc_present r \<and> view w (obj_key (oc_object r)) = Some (oc_object r)"

lemma UpdateObjectE_holds:
  fixes s :: "('w, 'q) hns"
  assumes "finishes k view" "holds view r0 (world s)" "r = r0\<lparr>oc_object := obj\<rparr>"
    and "obj_key obj = obj_key (oc_object r0)" "meta_version obj = meta_version (oc_object r0)"
    "meta_finalizers obj = meta_finalizers (oc_object r0)"
    and "UpdateObjectE k OK r s = (OK r', s')"
  shows "holds view r' (world s')" "stored obj (oc_object r')"
proof -
  note law = finishing_writeD [OF finishesD(3) [OF assms(1)]]
  have r: "oc_present r" "oc_object r = obj" "view (world s) (obj_key obj) = Some (oc_object r0)"
    using assms(2-4) by (simp_all add: holds_def)
  obtain a w' where aw: "k_update k obj (world s) = (a, w')" by (cases "k_update k obj (world s)")
  have "holds view r' (world s') \<and> stored obj (oc_object r')"
  proof (cases a)
    case (Inl e)
    with aw have "\<not> IsConflict e" using law(3) [of obj "world s" e w'] r(3) assms(5) by auto
    then show ?thesis
      using assms(7) r(1,2) aw Inl by (auto simp: UpdateObjectE_def UpdateObject_def check_err_def go_defs Let_def)
  next
    case (Inr obj')
    with aw have "accepted view obj (world s) obj' w'" using law(1) by simp
    then have new: "stored obj obj'" "view w' = (view (world s))(obj_key obj \<mapsto> obj')"
      using r(3) assms(6) by (auto simp: accepted_def)
    have "r' = r\<lparr>oc_object := obj'\<rparr>" "world s' = w'"
      using assms(7) r(1,2) aw Inr by (auto simp: UpdateObjectE_def UpdateObject_def check_err_def go_defs Let_def)
    then show ?thesis using new stored_key [OF new(1)] r(1) by (simp add: holds_def)
  qed
  then show "holds view r' (world s')" "stored obj (oc_object r')" by simp_all
qed

lemma AppendAnnotations_holds:
  assumes "finishes k view" "holds view r (world s)" "AppendAnnotations k (Some new) r s = (OK r', s')" "distinct (map fst new)"
  shows "holds view r' (world s')" "overlaid new (meta_annotations (oc_object r)) (meta_annotations (oc_object r'))"
    "meta_labels (oc_object r') = meta_labels (oc_object r)" "obj_key (oc_object r') = obj_key (oc_object r)"
proof -
  let ?m = "case meta_annotations (oc_object r) of None \<Rightarrow> Some new | Some xs \<Rightarrow> Some (put_all (mentries (Some new)) xs)"
  let ?obj = "(oc_object r)\<lparr>meta_annotations := ?m\<rparr>"
  note upd = UpdateObjectE_holds [OF assms(1,2) refl _ _ _ assms(3) [unfolded AppendAnnotations_def Let_def]]
  have "holds view r' (world s') \<and> stored ?obj (oc_object r')" using upd by (simp add: obj_key_def)
  then show "holds view r' (world s')" "overlaid new (meta_annotations (oc_object r)) (meta_annotations (oc_object r'))"
    "meta_labels (oc_object r') = meta_labels (oc_object r)" "obj_key (oc_object r') = obj_key (oc_object r)"
    using stored_meta [of ?obj "oc_object r'"] stored_key [of ?obj "oc_object r'"] assms(4)
    by (auto simp: overlaid_put_all overlaid_None obj_key_def split: option.splits)
qed

lemma AppendLabels_holds:
  assumes "finishes k view" "holds view r (world s)" "AppendLabels k (Some new) r s = (OK r', s')" "distinct (map fst new)" "new \<noteq> []"
  shows "holds view r' (world s')" "overlaid new (meta_labels (oc_object r)) (meta_labels (oc_object r'))"
    "meta_annotations (oc_object r') = meta_annotations (oc_object r)" "obj_key (oc_object r') = obj_key (oc_object r)"
proof -
  obtain old where old: "meta_labels (oc_object r) = Some old"
    using assms(3,5) by (cases "meta_labels (oc_object r)") (simp_all add: AppendLabels_def mput_all_def lift_def bind_def panic_def)
  let ?obj = "(oc_object r)\<lparr>meta_labels := Some (put_all new old)\<rparr>"
  have "UpdateObjectE k OK (r\<lparr>oc_object := ?obj\<rparr>) s = (OK r', s')"
    using assms(3) old by (simp add: AppendLabels_def mput_all_def lift_def bind_def panic_def)
  from UpdateObjectE_holds [OF assms(1,2) refl _ _ _ this]
  have "holds view r' (world s') \<and> stored ?obj (oc_object r')" by (simp add: obj_key_def)
  then show "holds view r' (world s')" "overlaid new (meta_labels (oc_object r)) (meta_labels (oc_object r'))"
    "meta_annotations (oc_object r') = meta_annotations (oc_object r)" "obj_key (oc_object r') = obj_key (oc_object r)"
    using stored_meta [of ?obj "oc_object r'"] stored_key [of ?obj "oc_object r'"] assms(4) old
    by (auto simp: overlaid_put_all obj_key_def)
qed

text \<open>The steps after the two updates leave the namespaces alone.\<close>

lemma after_updates_view:
  assumes "place_laws E nsView"
  shows "nsView (world (snd (equal_map_loop E n sel nm wanted s))) = nsView (world s)"
    "nsView (world (snd (updateCRQSelector E c p nm s))) = nsView (world s)"
proof -
  have sleeps: "nsView (sleep E ms w) = nsView w" for ms w using assms by (simp add: place_laws_def)
  show "nsView (world (snd (equal_map_loop E n sel nm wanted s))) = nsView (world s)"
    by (induction n arbitrary: s)
      (auto simp: sleeps bind_def reads_def modify_def ret_def panic_def Let_def split: outcome.split option.split)
  have crq: "nsView w' = nsView w" if "k_update (api_crq E) obj w = (a, w')" for obj w a w'
    using assms that unfolding place_laws_def leaves_def by (metis snd_conv)
  have "nsView (snd (set_crq_selector E n m w)) = nsView w" for n m w
    by (auto simp: set_crq_selector_def crq split: sum.split prod.split)
  then have "nsView (snd (retryOnConflict E (set_crq_selector E n m) w)) = nsView w" for n m w
    using assms by (simp add: place_laws_def)
  then show "nsView (world (snd (updateCRQSelector E c p nm s))) = nsView (world s)"
    by (auto simp: updateCRQSelector_def Let_def split: prod.split option.split) (metis snd_conv)+
qed

lemma UpdateNSBasedOnParent_stores:
  fixes s :: "('w, 'q) hns"
  assumes "place_laws E nsView" "holds nsView c (world s)" "UpdateNSBasedOnParent E p c s = (OK c', s')"
  shows "holds nsView c' (world s')" "obj_key (oc_object c') = obj_key (oc_object c)"
    "overlaid (AnnotationsBasedOnParent p (oc_name c)) (meta_annotations (oc_object c)) (meta_annotations (oc_object c'))"
    "overlaid (LabelsBasedOnParent p (oc_name c)) (meta_labels (oc_object c)) (meta_labels (oc_object c'))"
proof -
  have law: "finishes (api_ns E) nsView" using assms(1) by (simp add: place_laws_def)
  have nonempty: "LabelsBasedOnParent p (oc_name c) \<noteq> []"
    by (simp add: LabelsBasedOnParent_def Let_def AList.update_nonempty)
  obtain c1 s1 s2 s3 s4 x y z u v where
    ann: "AppendAnnotations (api_ns E) (Some (AnnotationsBasedOnParent p (oc_name c))) c s = (OK c1, s1)" and
    lab: "AppendLabels (api_ns E) (Some (LabelsBasedOnParent p (oc_name c))) c1 s1 = (OK c', s2)" and
    rest: "(if x then updateCRQSelector E c' p (oc_name c) else ret ()) s2 = (OK u, s3)"
      "equal_map_loop E MaxRetries meta_annotations y z s3 = (OK v, s4)"
      "snd (equal_map_loop E MaxRetries meta_labels y (LabelsBasedOnParent p (oc_name c)) s4) = s'"
    using assms(3) unfolding UpdateNSBasedOnParent_def Let_def ensureSnsEqualAnnotations_def ensureSnsEqualLabels_def
    by (auto simp: bind_OK_iff reads_def ret_def)
  note a = AppendAnnotations_holds [OF law assms(2) ann distinct_child_maps(1)]
  note l = AppendLabels_holds [OF law a(1) lab distinct_child_maps(2) nonempty]
  have "nsView (world s3) = nsView (world s2)"
    using rest(1) after_updates_view(2) [OF assms(1), of c' p "oc_name c" s2] by (auto simp: ret_def split: if_splits)
  moreover have "nsView (world s4) = nsView (world s3)"
    using rest(2) after_updates_view(1) [OF assms(1), of MaxRetries meta_annotations y z s3] by simp
  moreover have "nsView (world s') = nsView (world s4)"
    using rest(3) after_updates_view(1) [OF assms(1)] by metis
  ultimately show "holds nsView c' (world s')" using l(1) by (simp add: holds_def)
  show "obj_key (oc_object c') = obj_key (oc_object c)"
    "overlaid (AnnotationsBasedOnParent p (oc_name c)) (meta_annotations (oc_object c)) (meta_annotations (oc_object c'))"
    "overlaid (LabelsBasedOnParent p (oc_name c)) (meta_labels (oc_object c)) (meta_labels (oc_object c'))"
    using a l by simp_all
qed

text \<open>C14: a migration that updates a namespace from its new, well-placed parent, with a context that holds what is
  stored, leaves the stored namespace well placed below that parent, whatever its labels and annotations
  were, when it reports success.\<close>

theorem UpdateNSBasedOnParent_placed:
  fixes s :: "('w, 'q) hns"
  assumes "place_laws E nsView" "holds nsView c (world s)"
    and "well_placed (oc_object p)" "in_i64 (Depth (oc_object p) + 1)" "CHR ''/'' \<notin> set (oc_name c)"
    and "wf_map (meta_annotations (oc_object c))" "wf_map (meta_labels (oc_object c))"
    and "UpdateNSBasedOnParent E p c s = (OK c', s')"
  shows "nsView (world s') (obj_key (oc_object c)) = Some (oc_object c') \<and> well_placed (oc_object c') \<and>
    ns_path (oc_object c') = ns_path (oc_object p) @ [oc_name c] \<and> Parent (oc_object c') = oc_name p"
proof -
  note new = UpdateNSBasedOnParent_stores [OF assms(1,2,8)]
  have name: "oc_name c' = oc_name c" using new(2) by (simp add: obj_key_def nnkey_def)
  have "mget (meta_labels (oc_object c')) ParentKey = Some (oc_name p)"
    by (rule overlaidD(1) [OF new(4) child_labels_get [OF assms(5)]])
  then show ?thesis
    using overlaid_placed [OF assms(3,4), of "oc_object c'" "meta_annotations (oc_object c)"] new assms(5,6,7)
      overlaidD(3) [OF new(4)] by (simp add: name holds_def)
qed

text \<open>C36: a namespace that moves up the tree keeps the quota selectors of its old ancestors below the depth of its
  new place, so their ClusterResourceQuotas go on selecting it although they are no longer on its path.\<close>

theorem UpdateNSBasedOnParent_stale_selectors:
  fixes s :: "('w, 'q) hns"
  assumes "lawful (api_ns E) view" "well_placed (oc_object p)" "in_i64 (Depth (oc_object p) + 1)"
    and "well_placed (oc_object c)" "length (ns_path (oc_object p)) < d" "d < length (ns_path (oc_object c))" "in_i64 (int d)"
    and "mget (meta_annotations (oc_object p)) (selector_key (int d)) = None"
    and "UpdateNSBasedOnParent E p c s = (OK c', s')"
  shows "mget (meta_annotations (oc_object c')) (selector_key (int d)) = Some (ns_path (oc_object c) ! d)"
proof -
  have wf: "wf_map (meta_annotations (oc_object p))" and depth: "Depth (oc_object p) + 1 = int (length (ns_path (oc_object p)))"
    using assms(2) by (simp_all add: well_placed_def)
  have "selector_key (int d) \<noteq> selector_key (Depth (oc_object p) + 1)"
    using selector_key_inject [OF assms(7,3)] assms(5) depth by simp
  then have "mget (Some (AnnotationsBasedOnParent p (oc_name c))) (selector_key (int d)) = None"
    using map_of_AnnotationsBasedOnParent [OF wf, of "oc_name c" "selector_key (int d)"] assms(3,8) by (simp add: Let_def)
  from overlaidD(2) [OF UpdateNSBasedOnParent_object(1) [OF assms(1,9)] this]
  show ?thesis using assms(4,6) by (simp add: well_placed_def list_all_iff)
qed


subsection \<open>Instances\<close>

text \<open>The namespaces of the tree, each composed below its parent, and \<open>c\<close> moved from \<open>b\<close> to \<open>root\<close>.\<close>

definition place :: "namespace object_context \<Rightarrow> string \<Rightarrow> namespace object_context" where
  "place p n = ctx (composeSNSNamespace p (ctx (mk_sns (oc_name p) n Created [(''cpu'', 1)])))"

definition placed_root :: "namespace object_context" where "placed_root = ctx (mk_root ''1'')"
definition placed_c :: "namespace object_context" where "placed_c = place (place (place placed_root ''a'') ''b'') ''c''"

definition placed_mem :: mem where
  "placed_mem = sample\<lparr>mem_ns := [oc_object placed_root, oc_object (place placed_root ''a''),
     oc_object (place (place placed_root ''a'') ''b''), oc_object placed_c]\<rparr>"

lemma placed_evaluates:
  "well_placed (oc_object placed_root)" "in_i64 (Depth (oc_object placed_root) + 1)" "well_placed (oc_object placed_c)"
  "ns_path (oc_object placed_root) = [''root'']" "ns_path (oc_object placed_c) = [''root'', ''a'', ''b'', ''c'']"
  "oc_name placed_c = ''c''" "wf_map (meta_annotations (oc_object placed_c))" "wf_map (meta_labels (oc_object placed_c))"
  "mget (meta_annotations (oc_object placed_root)) (selector_key 2) = None" "in_i64 2"
  by code_simp+

lemma placed_moves:
  "\<exists>c' s'. UpdateNSBasedOnParent mem_env placed_root placed_c (mem_state placed_mem []) = (OK c', s')"
proof -
  have "case fst (UpdateNSBasedOnParent mem_env placed_root placed_c (mem_state placed_mem [])) of OK _ \<Rightarrow> True | _ \<Rightarrow> False"
    by code_simp
  then show ?thesis by (cases "UpdateNSBasedOnParent mem_env placed_root placed_c (mem_state placed_mem [])")
      (auto split: outcome.splits)
qed

theorem composeSNSNamespace_placed_witness:
  "ns_path (composeSNSNamespace placed_root (ctx (mk_sns ''root'' ''a'' Created []))) = [''root'', ''a'']"
proof -
  have name: "oc_name (ctx (mk_sns ''root'' ''a'' Created [])) = ''a''" by code_simp
  show ?thesis
    using composeSNSNamespace_placed [of placed_root "ctx (mk_sns ''root'' ''a'' Created [])"] placed_evaluates(1,2,4)
    by (simp add: name)
qed

lemma mem_place_laws: "place_laws mem_env (mem_view mem_ns)"
proof -
  have "leaves (api_crq mem_env) (mem_view mem_ns)" by (simp add: mem_env_def mem_api_leaves)
  then show ?thesis using lawful_finishes(2) [OF mem_env_lawful(1)] by (simp add: place_laws_def mem_env_def)
qed

lemma placed_c_stored: "mem_find (nskey ''c'') (mem_ns placed_mem) = Some (oc_object placed_c)"
  "obj_key (oc_object placed_c) = nskey ''c''" "oc_present placed_c"
  by code_simp+

theorem UpdateNSBasedOnParent_placed_witness:
  "\<exists>s' ns. snd (UpdateNSBasedOnParent mem_env placed_root placed_c (mem_state placed_mem [])) = s' \<and>
     mem_find (nskey ''c'') (mem_ns (world s')) = Some ns \<and> ns_path ns = [''root'', ''c'']"
proof -
  obtain c' s' where run: "UpdateNSBasedOnParent mem_env placed_root placed_c (mem_state placed_mem []) = (OK c', s')"
    using placed_moves by blast
  have "holds (mem_view mem_ns) placed_c (world (mem_state placed_mem []))"
    using placed_c_stored by (simp add: holds_def mem_state_def)
  from UpdateNSBasedOnParent_placed [OF mem_place_laws this placed_evaluates(1,2) _ _ _ run] placed_evaluates placed_c_stored
  show ?thesis by (simp add: run)
qed

theorem UpdateNSBasedOnParent_stale_selectors_witness:
  "\<exists>c' s'. UpdateNSBasedOnParent mem_env placed_root placed_c (mem_state placed_mem []) = (OK c', s') \<and>
     mget (meta_annotations (oc_object c')) (selector_key 2) = Some ''b''"
  using placed_moves placed_evaluates
    UpdateNSBasedOnParent_stale_selectors [OF mem_env_lawful(1), of placed_root placed_c 2 "mem_state placed_mem []"]
  by auto

end
