(* ===== verification/SnsPlacement.thy ===== *)
theory SnsPlacement
  imports NsPlacement Triples
begin

section \<open>Namespaces across a reconciliation\<close>

text \<open>
  The subnamespace controller never changes the place of a namespace that exists: when it finds one
  it appends to it its own labels and annotations. The one namespace it creates is composed from
  the parent it has read, so it is well placed below a well-placed parent.
\<close>

subsection \<open>Namespaces with the same place\<close>

text \<open>A Go map has no key twice; of a list that has, nothing is said. A namespace that is being deleted goes on being so.\<close>

definition same_map :: "strmap \<Rightarrow> strmap \<Rightarrow> bool" where
  "same_map m m' \<longleftrightarrow> (wf_map m \<or> wf_map m' \<longrightarrow> m' = m)"

definition same_place :: "namespace \<Rightarrow> namespace \<Rightarrow> bool" where
  "same_place ns ns' \<longleftrightarrow> obj_key ns' = obj_key ns \<and> same_map (meta_labels ns) (meta_labels ns') \<and>
     same_map (meta_annotations ns) (meta_annotations ns') \<and> meta_deleting ns' = meta_deleting ns"

lemma same_map_rules:
  "same_map m m" "same_map m m' \<Longrightarrow> same_map m' m" "same_map m m' \<Longrightarrow> same_map m' m'' \<Longrightarrow> same_map m m''"
  "same_map m m' \<Longrightarrow> wf_map m \<Longrightarrow> m' = m"
  unfolding same_map_def by blast+

lemma same_place_refl [simp]: "same_place ns ns"
  by (simp add: same_place_def same_map_rules)

lemma same_place_sym: "same_place a b \<Longrightarrow> same_place b a"
  unfolding same_place_def using same_map_rules(2) by (elim conjE, intro conjI) (erule sym, blast, blast, erule sym)

lemma same_place_trans: "same_place a b \<Longrightarrow> same_place b c \<Longrightarrow> same_place a c"
  unfolding same_place_def using same_map_rules(3) by (elim conjE, intro conjI) (simp, blast, blast, simp)

lemma same_place_stored: "stored a b \<Longrightarrow> same_place a b"
  by (simp add: same_place_def same_map_def stored_key stored_meta stored_life)

lemma same_place_fields:
  assumes "same_place ns ns'" "well_placed ns"
  shows "meta_labels ns' = meta_labels ns" "meta_annotations ns' = meta_annotations ns" "meta_name ns' = meta_name ns"
proof -
  have maps: "same_map (meta_labels ns) (meta_labels ns')" "same_map (meta_annotations ns) (meta_annotations ns')"
    and key: "obj_key ns' = obj_key ns" using assms(1) by (simp_all add: same_place_def)
  have wf: "wf_map (meta_labels ns)" "wf_map (meta_annotations ns)" using assms(2) by (simp_all add: well_placed_def)
  show "meta_labels ns' = meta_labels ns" by (rule same_map_rules(4) [OF maps(1) wf(1)])
  show "meta_annotations ns' = meta_annotations ns" by (rule same_map_rules(4) [OF maps(2) wf(2)])
  show "meta_name ns' = meta_name ns" using key by (simp add: obj_key_def nnkey_def)
qed

lemma same_place_well_placed:
  assumes "same_place ns ns'" "well_placed ns"
  shows "well_placed ns' \<and> ns_path ns' = ns_path ns \<and> Parent ns' = Parent ns"
  using same_place_fields [OF assms] assms(2)
  by (simp add: well_placed_def ns_path_def DisplayName_def Depth_def Parent_def)

text \<open>Appending a map to itself.\<close>

lemma update_same: "map_of xs k = Some v \<Longrightarrow> AList.update k v xs = xs"
  by (induction xs) auto

lemma put_all_same: "list_all (\<lambda>(k, v). map_of ys k = Some v) xs \<Longrightarrow> put_all xs ys = ys"
  by (induction xs) (auto simp: update_same)

lemma put_all_keys: "fst ` set xs \<subseteq> fst ` set ys \<Longrightarrow> map fst (put_all xs ys) = map fst ys"
proof (induction xs arbitrary: ys)
  case (Cons x xs)
  have "map fst (AList.update (fst x) (snd x) ys) = map fst ys" using Cons.prems by (simp add: update_keys)
  then have "fst ` set (AList.update (fst x) (snd x) ys) = fst ` set ys" by (metis list.set_map)
  then show ?case
    using Cons.IH [of "AList.update (fst x) (snd x) ys"] Cons.prems \<open>map fst _ = map fst ys\<close> by (cases x) simp
qed simp

lemma same_map_put_all: "same_map (Some xs) (Some (put_all xs xs))"
proof -
  have "distinct (map fst xs) \<Longrightarrow> put_all xs xs = xs"
    by (rule put_all_same) (auto simp: list_all_iff)
  moreover have "map fst (put_all xs xs) = map fst xs" by (simp add: put_all_keys)
  ultimately show ?thesis unfolding same_map_def by (metis mentries_simps(2))
qed

subsection \<open>What may become of the namespaces\<close>

definition ns_laws :: "('w, 'q) env \<Rightarrow> ('w \<Rightarrow> objkey \<Rightarrow> namespace option) \<Rightarrow> bool" where
  "ns_laws E nsView \<longleftrightarrow> finishes (api_ns E) nsView \<and> leaves (api_sns E) nsView \<and> leaves (api_rq E) nsView \<and>
     leaves (api_crq E) nsView \<and> leaves (api_lr E) nsView"

lemma ns_lawsD:
  assumes "ns_laws E nsView"
  shows "finishes (api_ns E) nsView" "readable (api_ns E) nsView"
  using assms by (simp_all add: ns_laws_def finishesD)

text \<open>A namespace keeps its place; one that was not there is composed below \<open>p\<close> for a subnamespace called \<open>n\<close>.\<close>

definition kept_or_new ::
  "'q itself \<Rightarrow> namespace object_context \<Rightarrow> string \<Rightarrow> objkey \<Rightarrow> namespace option \<Rightarrow> namespace option \<Rightarrow> bool" where
  "kept_or_new q p n k x x' =
     (case x of
        Some ns \<Rightarrow> (case x' of Some ns' \<Rightarrow> same_place ns ns' | None \<Rightarrow> False)
      | None \<Rightarrow> (case x' of
            Some ns' \<Rightarrow> k = nskey n \<and>
              (\<exists>r :: 'q subnamespace object_context. oc_name r = n \<and> same_place (composeSNSNamespace p r) ns')
          | None \<Rightarrow> True))"

lemma kept_or_new_refl: "kept_or_new q p n k x x"
  by (simp add: kept_or_new_def split: option.split)

lemma kept_or_newD:
  "kept_or_new q p n k (Some ns) x' \<Longrightarrow> \<exists>ns'. x' = Some ns' \<and> same_place ns ns'"
  "kept_or_new TYPE('q) p n k None (Some ns') \<Longrightarrow>
     k = nskey n \<and> (\<exists>r :: 'q subnamespace object_context. oc_name r = n \<and> same_place (composeSNSNamespace p r) ns')"
  unfolding kept_or_new_def by (auto split: option.splits)

lemma kept_or_new_trans: "kept_or_new q p n k x y \<Longrightarrow> kept_or_new q p n k y z \<Longrightarrow> kept_or_new q p n k x z"
  unfolding kept_or_new_def by (auto split: option.splits dest: same_place_trans)

definition all_kept ::
  "('w \<Rightarrow> objkey \<Rightarrow> namespace option) \<Rightarrow> namespace object_context \<Rightarrow> string \<Rightarrow> ('w, 'q) hns \<Rightarrow> ('w, 'q) hns \<Rightarrow> bool" where
  "all_kept nsView p n s s' \<longleftrightarrow>
     (\<forall>k. kept_or_new TYPE('q) p n k (nsView (world s) k) (nsView (world s') k))"

lemma all_kept_same: "nsView (world s') = nsView (world s) \<Longrightarrow> all_kept nsView p n s s'"
  by (simp add: all_kept_def kept_or_new_refl)

lemma all_kept_trans: "all_kept nsView p n s t \<Longrightarrow> all_kept nsView p n t u \<Longrightarrow> all_kept nsView p n s u"
  unfolding all_kept_def using kept_or_new_trans by blast

lemma all_kept_upd:
  assumes "nsView (world s') = (nsView (world s))(k \<mapsto> ns')"
    and "kept_or_new TYPE('q) p n k (nsView (world s) k) (Some ns')"
  shows "all_kept nsView p n (s :: ('w, 'q) hns) s'"
  using assms by (simp add: all_kept_def kept_or_new_refl)

lemma key_composed: "obj_key (composeSNSNamespace p r) = nskey (oc_name r)"
  by (simp add: composeSNSNamespace_def Let_def ComposeNamespace_def empty_meta_def obj_key_def nnkey_def nskey_def)

subsection \<open>The namespace of a subnamespace\<close>

text \<open>The context of a namespace agrees with what is stored, but for the version; as it has the finalizers of what is
  stored, an update from it completes no deletion.\<close>

definition agrees :: "('w \<Rightarrow> objkey \<Rightarrow> namespace option) \<Rightarrow> objkey \<Rightarrow> namespace object_context \<Rightarrow> ('w, 'q) hns \<Rightarrow> bool" where
  "agrees nsView k r t \<longleftrightarrow> oc_present r \<and> obj_key (oc_object r) = k \<and>
     (\<exists>cur. nsView (world t) k = Some cur \<and> same_place cur (oc_object r) \<and>
        meta_finalizers (oc_object r) = meta_finalizers cur)"

lemma agrees_place:
  assumes "agrees nsView k r t" "same_place (oc_object r) ns" "meta_finalizers ns = meta_finalizers (oc_object r)"
  shows "agrees nsView k (r\<lparr>oc_object := ns\<rparr>) t"
proof -
  have "obj_key ns = obj_key (oc_object r)" using assms(2) by (simp only: same_place_def)
  then show ?thesis using assms same_place_trans unfolding agrees_def by fastforce
qed

lemma accepted_kept:
  fixes t :: "('w, 'q) hns"
  assumes "accepted nsView (oc_object r) (world t) obj' w'" "agrees nsView k r t"
  shows "all_kept nsView p n t (t\<lparr>world := w'\<rparr>)" "agrees nsView k (r\<lparr>oc_object := obj'\<rparr>) (t\<lparr>world := w'\<rparr>)"
proof -
  obtain cur where cur: "nsView (world t) k = Some cur" "same_place cur (oc_object r)" "obj_key (oc_object r) = k"
    "oc_present r" "meta_finalizers (oc_object r) = meta_finalizers cur"
    using assms(2) by (auto simp: agrees_def)
  then have st: "stored (oc_object r) obj'" "nsView w' = (nsView (world t))(k \<mapsto> obj')"
    using assms(1) by (auto simp: accepted_def)
  have place: "same_place cur obj'" by (rule same_place_trans [OF cur(2) same_place_stored [OF st(1)]])
  then show "all_kept nsView p n t (t\<lparr>world := w'\<rparr>)"
    by (intro all_kept_upd [where k = k and ns' = obj']) (simp_all add: kept_or_new_def st(2) cur(1))
  show "agrees nsView k (r\<lparr>oc_object := obj'\<rparr>) (t\<lparr>world := w'\<rparr>)"
    using cur(3,4) stored_key [OF st(1)] by (simp add: agrees_def st(2))
qed

lemma update_namespace_triple:
  assumes "ns_laws E nsView"
  shows "triple (\<lambda>t. all_kept nsView p n s t \<and> agrees nsView k r t) (UpdateObjectE (api_ns E) OK r)
    (\<lambda>r' t. all_kept nsView p n s t \<and> agrees nsView k r' t) (all_kept nsView p n s)"
proof -
  note law = finishing_writeD [OF finishesD(3) [OF ns_lawsD(1) [OF assms]]]
  have "(case UpdateObjectE (api_ns E) OK r t of (OK r', u) \<Rightarrow> all_kept nsView p n s u \<and> agrees nsView k r' u
      | (Err _, u) \<Rightarrow> all_kept nsView p n s u | (Panic, u) \<Rightarrow> all_kept nsView p n s u)"
    if t: "all_kept nsView p n s t" "agrees nsView k r t" for t
  proof -
    have present: "oc_present r" using t(2) by (simp add: agrees_def)
    obtain a w' where aw: "k_update (api_ns E) (oc_object r) (world t) = (a, w')"
      by (cases "k_update (api_ns E) (oc_object r) (world t)")
    note kept = accepted_kept(1) [OF _ t(2)] accepted_kept(2) [OF _ t(2)]
    have all: "nsView w' = nsView (world t) \<or> (\<exists>obj'. accepted nsView (oc_object r) (world t) obj' w') \<Longrightarrow>
        all_kept nsView p n s (t\<lparr>world := w'\<rparr>)"
      using kept(1) [of _ w' p n] all_kept_trans [OF t(1)] by (auto simp: all_kept_same)
    show ?thesis
    proof (cases a)
      case (Inl e)
      then have "IsConflict e \<longrightarrow> nsView w' = nsView (world t)" "all_kept nsView p n s (t\<lparr>world := w'\<rparr>)"
        using law(2) [OF aw [unfolded Inl]] all by blast+
      then show ?thesis
        using aw Inl present t(2) by (auto simp: UpdateObjectE_def UpdateObject_def check_err_def go_defs Let_def agrees_def)
    next
      case (Inr obj')
      then show ?thesis
        using law(1) [OF aw [unfolded Inr]] kept(2) all aw present
        by (auto simp: UpdateObjectE_def UpdateObject_def check_err_def go_defs Let_def)
    qed
  qed
  then show ?thesis unfolding triple_def by simp
qed


lemma append_namespace_triple:
  assumes "ns_laws E nsView"
  shows "triple (\<lambda>t. all_kept nsView p n s t \<and> agrees nsView k r t) (AppendAnnotations (api_ns E) (meta_annotations (oc_object r)) r)
      (\<lambda>r' t. all_kept nsView p n s t \<and> agrees nsView k r' t) (all_kept nsView p n s)"
    "triple (\<lambda>t. all_kept nsView p n s t \<and> agrees nsView k r t) (AppendLabels (api_ns E) (meta_labels (oc_object r)) r)
      (\<lambda>r' t. all_kept nsView p n s t \<and> agrees nsView k r' t) (all_kept nsView p n s)"
proof -
  note upd = triple_conseq [OF update_namespace_triple [OF assms]]
  have key: "obj_key ((oc_object r)\<lparr>meta_annotations := m\<rparr>) = obj_key (oc_object r)"
    "obj_key ((oc_object r)\<lparr>meta_labels := m\<rparr>) = obj_key (oc_object r)" for m by (simp_all add: obj_key_def)
  have ann: "same_place (oc_object r) ((oc_object r)\<lparr>meta_annotations := (case meta_annotations (oc_object r) of
      None \<Rightarrow> meta_annotations (oc_object r) | Some xs \<Rightarrow> Some (put_all (mentries (meta_annotations (oc_object r))) xs))\<rparr>)"
    by (simp add: same_place_def key same_map_rules(1) same_map_put_all split: option.split)
  show "triple (\<lambda>t. all_kept nsView p n s t \<and> agrees nsView k r t) (AppendAnnotations (api_ns E) (meta_annotations (oc_object r)) r)
      (\<lambda>r' t. all_kept nsView p n s t \<and> agrees nsView k r' t) (all_kept nsView p n s)"
    unfolding AppendAnnotations_def Let_def by (rule upd) (auto intro: agrees_place [OF _ ann])
  obtain m where m: "mput_all (mentries (meta_labels (oc_object r))) (meta_labels (oc_object r)) = OK m"
    "same_map (meta_labels (oc_object r)) m"
    by (cases "meta_labels (oc_object r)") (simp_all add: mput_all_def same_map_rules(1) same_map_put_all)
  have lab: "same_place (oc_object r) ((oc_object r)\<lparr>meta_labels := m\<rparr>)"
    using m(2) by (simp add: same_place_def key same_map_rules(1))
  show "triple (\<lambda>t. all_kept nsView p n s t \<and> agrees nsView k r t) (AppendLabels (api_ns E) (meta_labels (oc_object r)) r)
      (\<lambda>r' t. all_kept nsView p n s t \<and> agrees nsView k r' t) (all_kept nsView p n s)"
    unfolding AppendLabels_def m(1) bind_lift by (rule upd) (auto intro: agrees_place [OF _ lab])
qed

lemma create_namespace_view:
  fixes s :: "('w, 'q) hns" and r :: "'q subnamespace object_context"
  assumes "finishes (api_ns E) nsView" "oc_name r = n"
  shows "case k_create (api_ns E) (composeSNSNamespace p r) (world s) of
      (Inl e, w') \<Rightarrow> all_kept nsView p n s (s\<lparr>world := w'\<rparr>) \<and> (IsAlreadyExists e \<longrightarrow> nsView w' (nskey n) \<noteq> None)
    | (Inr obj, w') \<Rightarrow> all_kept nsView p n s (s\<lparr>world := w'\<rparr>) \<and> nsView w' (nskey n) \<noteq> None"
proof -
  let ?c = "composeSNSNamespace p r"
  have key: "obj_key ?c = nskey n" using key_composed [of p r] by (simp only: assms(2))
  obtain a w' where c: "k_create (api_ns E) ?c (world s) = (a, w')" by (cases "k_create (api_ns E) ?c (world s)")
  have new: "all_kept nsView p n s (s\<lparr>world := w'\<rparr>)"
    if "stored ?c obj" "nsView (world s) (nskey n) = None" "nsView w' = (nsView (world s))(nskey n \<mapsto> obj)" for obj
    by (rule all_kept_upd [where k = "nskey n" and ns' = obj])
      (use that assms(2) same_place_stored in \<open>auto simp: kept_or_new_def\<close>)
  note law = finishesD(2) [OF assms(1), unfolded finishing_create_def]
  show ?thesis
  proof (cases a)
    case (Inl e)
    have "if IsAlreadyExists e then nsView w' = nsView (world s) \<and> nsView (world s) (obj_key ?c) \<noteq> None
        else nsView w' = nsView (world s) \<or> nsView (world s) (obj_key ?c) = None \<and>
          (\<exists>obj'. stored ?c obj' \<and> nsView w' = (nsView (world s))(obj_key ?c \<mapsto> obj'))"
      using law c unfolding Inl by blast
    then have "all_kept nsView p n s (s\<lparr>world := w'\<rparr>) \<and> (IsAlreadyExists e \<longrightarrow> nsView w' (nskey n) \<noteq> None)"
      unfolding key using new by (auto simp: all_kept_same split: if_splits)
    then show ?thesis by (simp add: c Inl)
  next
    case (Inr obj)
    have "stored ?c obj \<and> nsView (world s) (obj_key ?c) = None \<and> nsView w' = (nsView (world s))(obj_key ?c \<mapsto> obj)"
      using law c unfolding Inr by blast
    then show ?thesis using new [of obj] unfolding key by (simp add: c Inr)
  qed
qed

lemma createSNSNamespace_triple:
  assumes "ns_laws E nsView" "oc_name r = n"
  shows "triple (\<lambda>t. t = s) (createSNSNamespace E p r)
    (\<lambda>_ t. all_kept nsView p n s t \<and> nsView (world t) (nskey n) \<noteq> None) (all_kept nsView p n s)"
proof -
  let ?c = "composeSNSNamespace p r"
  define start where "start o' t \<longleftrightarrow> all_kept nsView p n s t \<and>
    (if oc_present o' then agrees nsView (nskey n) o' t else oc_object o' = ?c \<and> t = s)" for o' t
  note law = ns_lawsD [OF assms(1)]
  have new: "triple (\<lambda>t. t = s) (reads (\<lambda>s. New (api_ns E) (world s) (nskey n) ?c)) start (all_kept nsView p n s)"
  proof (rule triple_reads)
    fix t o' assume t: "t = s" "New (api_ns E) (world t) (nskey n) ?c = OK o'"
    from t(2) show "start o' t"
    proof (cases rule: New_cases)
      case found
      from readable_getD [OF law(2) found(1)] show ?thesis
        using t(1) found(2) by (simp add: start_def all_kept_same agrees_def)
    next
      case (absent e)
      then show ?thesis using t(1) by (simp add: start_def all_kept_same)
    qed
  qed (simp add: all_kept_same)
  have sync: "triple (start o') (if IsPresent o' then syncNSLabelsAnnotations E o' else ret o') start (all_kept nsView p n s)" for o'
  proof (cases "oc_present o'")
    case True
    have "triple (\<lambda>t. all_kept nsView p n s t \<and> agrees nsView (nskey n) o' t) (syncNSLabelsAnnotations E o')
        (\<lambda>r' t. all_kept nsView p n s t \<and> agrees nsView (nskey n) r' t) (all_kept nsView p n s)"
      unfolding syncNSLabelsAnnotations_def
      by (rule triple_bind [OF append_namespace_triple(1) [OF assms(1)]], rule append_namespace_triple(2) [OF assms(1)])
    then have "triple (start o') (syncNSLabelsAnnotations E o') start (all_kept nsView p n s)"
      by (rule triple_conseq) (auto simp: start_def agrees_def True)
    then show ?thesis using True by (simp add: IsPresent_def)
  qed (simp add: IsPresent_def triple_ret)
  have create: "triple (start o') (EnsureCreate (api_ns E) o')
      (\<lambda>_ t. all_kept nsView p n s t \<and> nsView (world t) (nskey n) \<noteq> None) (all_kept nsView p n s)" for o'
  proof (cases "oc_present o'")
    case True
    then have "triple (start o') (ret o') (\<lambda>_ t. all_kept nsView p n s t \<and> nsView (world t) (nskey n) \<noteq> None) (all_kept nsView p n s)"
      by (intro triple_ret) (auto simp: start_def agrees_def)
    then show ?thesis using True by (simp add: EnsureCreate_def IsPresent_def)
  next
    case False
    have "case CreateObject (api_ns E) o' s of (OK _, t) \<Rightarrow> all_kept nsView p n s t \<and> nsView (world t) (nskey n) \<noteq> None
        | (Err _, t) \<Rightarrow> all_kept nsView p n s t | (Panic, t) \<Rightarrow> all_kept nsView p n s t" if "oc_object o' = ?c"
      using create_namespace_view [OF law(1) assms(2), where p = p and s = s] that
      by (auto simp: CreateObject_def all_kept_same split: prod.splits sum.splits)
    then have "triple (start o') (CreateObject (api_ns E) o')
        (\<lambda>_ t. all_kept nsView p n s t \<and> nsView (world t) (nskey n) \<noteq> None) (all_kept nsView p n s)"
      using False by (auto simp: triple_def start_def split: outcome.splits)
    then show ?thesis using False by (simp add: EnsureCreate_def IsPresent_def)
  qed
  show ?thesis
    unfolding createSNSNamespace_def Let_def assms(2)
    by (rule triple_bind [OF new], rule triple_bind [OF sync], rule triple_bind [OF create], rule triple_ret)
qed


subsection \<open>The controller\<close>

definition place_frame ::
  "('w, 'q) env \<Rightarrow> ('w \<Rightarrow> objkey \<Rightarrow> 'q subnamespace option) \<Rightarrow> ('w \<Rightarrow> objkey \<Rightarrow> namespace option) \<Rightarrow>
   namespace object_context \<Rightarrow> objkey \<Rightarrow> ('w, 'q) hns \<Rightarrow> ('w, 'q) hns \<Rightarrow> bool" where
  "place_frame E view nsView p key s s' \<longleftrightarrow>
     (sns_laws E view \<and> ns_laws E nsView \<longrightarrow> all_kept nsView p (key_name key) s s')"

lemma place_frame_same:
  "(ns_laws E nsView \<Longrightarrow> nsView (world s') = nsView (world s)) \<Longrightarrow> place_frame E view nsView p key s s'"
  by (simp add: place_frame_def all_kept_same)

interpretation placement: sns_frame "place_frame E view nsView p key" E "names E view key" "\<lambda>p'. p' = p" for E view nsView p key
proof
  show "place_frame E view nsView p key s s" for s by (rule place_frame_same) simp
  show "place_frame E view nsView p key s t \<Longrightarrow> place_frame E view nsView p key t u \<Longrightarrow> place_frame E view nsView p key s u" for s t u
    unfolding place_frame_def using all_kept_trans by blast
  show "quiet (place_frame E view nsView p key) (api_rq E)" "quiet (place_frame E view nsView p key) (api_crq E)"
    "quiet (place_frame E view nsView p key) (api_lr E)"
    by (rule leaves_quiet [where view = nsView and L = "ns_laws E nsView"], erule place_frame_same, simp add: ns_laws_def)+
  show "keeps (place_frame E view nsView p key) (\<lambda>_. True) (createSNSNamespace E p' r)" if "p' = p" "names E view key r" for p' r
  proof -
    have "all_kept nsView p (key_name key) s (snd (createSNSNamespace E p r s))" if "sns_laws E view" "ns_laws E nsView" for s
    proof -
      have "oc_name r = key_name key" using \<open>names E view key r\<close> that(1) by (auto simp: names_def obj_key_def nnkey_def)
      from createSNSNamespace_triple [OF that(2) this, of s p]
      have "triple (\<lambda>t. t = s) (createSNSNamespace E p r) (\<lambda>_. all_kept nsView p (key_name key) s) (all_kept nsView p (key_name key) s)"
        by (rule triple_conseq) simp_all
      then show ?thesis by (rule triple_any) simp
    qed
    then show ?thesis using \<open>p' = p\<close> by (auto simp: keeps_def place_frame_def)
  qed
  show "place_frame E view nsView p key s (snd (EnsureSNSInDB E r s))" for s r
    by (rule place_frame_same) (simp add: EnsureSNSInDB_world)
  have sns: "nsView w' = nsView w" if "ns_laws E nsView" "k_update (api_sns E) obj w = (a, w')" for obj w a w'
    using that unfolding ns_laws_def leaves_def by (metis snd_conv)
  show "keeps (place_frame E view nsView p key) (names E view key) (UpdateObjectE (api_sns E) upd r)"
    if "\<And>obj. upd (oc_object r) = OK obj \<Longrightarrow> names E view key (r\<lparr>oc_object := obj\<rparr>)" for upd r
    by (rule UpdateObjectE_sns_frame, erule that)
      (auto simp: place_frame_same names_def sns dest: sns_update_view)
qed (auto simp: names_def obj_key_def intro: place_frame_same)


lemma placement_start:
  assumes "sns_laws E view" "New (api_sns E) (world s) req empty_sns = OK sns" "oc_present sns"
  shows "names E view req sns" "oc_name sns = key_name req" "oc_namespace sns = key_namespace req"
    "setControllerReference E ns (oc_object sns) = Inr obj \<Longrightarrow> names E view req (sns\<lparr>oc_object := obj\<rparr>) \<and>
       names E view req (sns\<lparr>oc_object := obj\<lparr>sns_namespaceRef := oc_name sns, sns_phase := Missing\<rparr>\<rparr>)"
proof -
  note start = phase_start [OF assms]
  then show "names E view req sns" "oc_name sns = key_name req" "oc_namespace sns = key_namespace req"
    by (auto simp: names_def obj_key_def nnkey_def)
  show "setControllerReference E ns (oc_object sns) = Inr obj \<Longrightarrow> names E view req (sns\<lparr>oc_object := obj\<rparr>) \<and>
       names E view req (sns\<lparr>oc_object := obj\<lparr>sns_namespaceRef := oc_name sns, sns_phase := Missing\<rparr>\<rparr>)"
    using start(2) assms(1) by (fastforce simp: names_def sns_laws_def obj_key_def)
qed

lemma Reconcile_place_frame:
  assumes "sns_laws E view" "New (api_ns E) (world s) (nskey (key_namespace req)) empty_meta = OK p"
  shows "place_frame E view nsView p req s (snd (Reconcile E req s))"
proof (cases rule: Reconcile_cases [of E req s])
  case nothing
  then show ?thesis by (simp add: place_frame_same)
next
  case (handled sns p' f)
  note start = placement_start [OF assms(1) handled(1,2)]
  have "p' = p" using handled(5) assms(2) by (simp add: start(3))
  moreover have "keeps (place_frame E view nsView p req) (\<lambda>_. True) (f p sns)"
    by (rule placement.keeps_phase_func [OF handled(3) start(1) refl]) (rule start(4), simp_all add: names_def obj_key_def)
  ultimately show ?thesis using handled(4) by (simp add: keeps_def)
qed

lemma Reconcile_places:
  assumes "sns_laws E view" "ns_laws E nsView" "CHR ''/'' \<notin> set (key_name req)"
    and "New (api_ns E) (world s) (nskey (key_namespace req)) empty_meta = OK p"
    and "well_placed (oc_object p)" "in_i64 (Depth (oc_object p) + 1)"
  shows "(\<forall>k ns. nsView (world s) k = Some ns \<longrightarrow>
       (\<exists>ns'. nsView (world (snd (Reconcile E req s))) k = Some ns' \<and> same_place ns ns')) \<and>
    (\<forall>k ns'. nsView (world s) k = None \<and> nsView (world (snd (Reconcile E req s))) k = Some ns' \<longrightarrow>
       k = nskey (key_name req) \<and> well_placed ns' \<and> ns_path ns' = ns_path (oc_object p) @ [key_name req] \<and>
       Parent ns' = oc_name p)"
proof -
  have kept: "all_kept nsView p (key_name req) s (snd (Reconcile E req s))"
    using Reconcile_place_frame [OF assms(1,4), of nsView] assms(1,2) by (simp add: place_frame_def)
  have new: "well_placed ns' \<and> ns_path ns' = ns_path (oc_object p) @ [key_name req] \<and> Parent ns' = oc_name p"
    if "oc_name r = key_name req" "same_place (composeSNSNamespace p r) ns'" for ns' and r :: "'b subnamespace object_context"
    using composed_placed [OF assms(5,6), of r] same_place_well_placed [OF that(2)] that(1) assms(3) by simp
  have each: "kept_or_new TYPE('b) p (key_name req) k (nsView (world s) k) (nsView (world (snd (Reconcile E req s))) k)" for k
    using kept by (simp add: all_kept_def)
  have "\<exists>ns'. nsView (world (snd (Reconcile E req s))) k = Some ns' \<and> same_place ns ns'" if "nsView (world s) k = Some ns" for k ns
    using each [of k] unfolding that by (rule kept_or_newD(1))
  moreover have "k = nskey (key_name req) \<and> well_placed ns' \<and> ns_path ns' = ns_path (oc_object p) @ [key_name req] \<and>
      Parent ns' = oc_name p"
    if "nsView (world s) k = None" "nsView (world (snd (Reconcile E req s))) k = Some ns'" for k ns'
    using kept_or_newD(2) [OF each [of k, unfolded that]] new by blast
  ultimately show ?thesis by blast
qed

text \<open>C5: a reconciliation of a subnamespace deletes no namespace and moves none; the only namespace it can create is
  that of the subnamespace, and it is well placed below the parent when the parent is.\<close>

theorem Reconcile_places_namespaces:
  assumes "sns_laws E view" "ns_laws E nsView" "CHR ''/'' \<notin> set (key_name req)"
    and "New (api_ns E) (world s) (nskey (key_namespace req)) empty_meta = OK p"
    and "well_placed (oc_object p)" "in_i64 (Depth (oc_object p) + 1)"
  shows "(\<forall>k ns. nsView (world s) k = Some ns \<longrightarrow>
       (\<exists>ns'. nsView (world (snd (Reconcile E req s))) k = Some ns' \<and> same_place ns ns')) \<and>
    (\<forall>k ns'. nsView (world s) k = None \<and> nsView (world (snd (Reconcile E req s))) k = Some ns' \<longrightarrow>
       k = nskey (key_name req) \<and> well_placed ns' \<and> ns_path ns' = ns_path (oc_object p) @ [key_name req] \<and>
       Parent ns' = oc_name p)"
  using assms by (rule Reconcile_places)

text \<open>When the reconciliation of a subnamespace in the phase Missing or Migrated succeeds, its namespace exists.\<close>

lemma Reconcile_creates_namespace:
  fixes s :: "('w, 'q) hns"
  assumes "sns_laws E view" "ns_laws E nsView"
    and "New (api_sns E) (world s) req empty_sns = OK sns" "oc_present sns"
    and "sns_phase (oc_object sns) \<in> {Missing, Migrated}" "Reconcile E req s = (OK r, s')"
  shows "nsView (world s') (nskey (key_name req)) \<noteq> None"
proof -
  note start = placement_start [OF assms(1,3,4)]
  obtain p where "New (api_ns E) (world s) (nskey (oc_namespace sns)) empty_meta = OK p" "oc_present p"
    using assms(3,4,6) by (auto simp: Reconcile_start fail_def split: outcome.splits if_splits)
  then have run: "init E p sns s = (OK r, s')"
    using assms(3-6) by (auto simp: Reconcile_start phase_func_def split: if_splits)
  let ?there = "\<lambda>t. nsView (world t) (nskey (key_name req)) \<noteq> None"
  have create: "triple (\<lambda>t. t = s) (wrapf f as (createSNSNamespace E p sns)) (\<lambda>_. ?there) (\<lambda>_. True)" for f as
    by (rule triple_wrapf, rule triple_conseq [OF createSNSNamespace_triple [OF assms(2) start(2)]])
      (assumption, erule conjunct2, rule TrueI)
  have "keeps (place_frame E view nsView p req) (\<lambda>_. True) (init_quota E p sns)"
    by (rule placement.keeps_init_quota [OF start(1)]) (simp add: names_def obj_key_def)
  then have "triple ?there (init_quota E p sns) (\<lambda>_. ?there) ?there"
  proof (rule triple_keeps)
    show "?there t \<Longrightarrow> place_frame E view nsView p req t t' \<Longrightarrow> ?there t'" for t t'
      using assms(1,2) kept_or_newD(1) [of _ p "key_name req" "nskey (key_name req)"]
      by (fastforce simp: place_frame_def all_kept_def dest!: spec [of _ "nskey (key_name req)"])
  qed
  then have "triple ?there (init_quota E p sns) (\<lambda>_. ?there) (\<lambda>_. True)" by (rule triple_conseq) simp_all
  from triple_bind [OF create this] have "triple (\<lambda>t. t = s) (init E p sns) (\<lambda>_. ?there) (\<lambda>_. True)"
    unfolding init_def .
  from tripleD(1) [OF this _ run] show ?thesis by simp
qed


subsection \<open>Instances\<close>

text \<open>A new subnamespace \<open>e\<close> of \<open>c\<close>.\<close>

definition placed_e :: mem where
  "placed_e = (sample_e Missing)\<lparr>mem_ns := mem_ns placed_mem\<rparr>"

lemma mem_ns_laws: "ns_laws mem_env (mem_view mem_ns)"
proof -
  have "leaves (api_sns mem_env) (mem_view mem_ns)" "leaves (api_rq mem_env) (mem_view mem_ns)"
    "leaves (api_crq mem_env) (mem_view mem_ns)" "leaves (api_lr mem_env) (mem_view mem_ns)"
    by (simp_all add: mem_env_def mem_api_leaves)
  then show ?thesis using lawful_finishes(2) [OF mem_env_lawful(1)] by (simp add: ns_laws_def)
qed

lemma placed_e_reads:
  "New (api_ns mem_env) placed_e (nskey (key_namespace (nnkey ''c'' ''e''))) empty_meta = OK placed_c"
  "CHR ''/'' \<notin> set (key_name (nnkey ''c'' ''e''))" "in_i64 (Depth (oc_object placed_c) + 1)"
  "New (api_sns mem_env) placed_e (nnkey ''c'' ''e'') empty_sns = OK (ctx (mk_sns ''c'' ''e'' Missing [(''cpu'', 1)]))"
  "sns_phase (oc_object (ctx (mk_sns ''c'' ''e'' Missing [(''cpu'', 1 :: int)]))) \<in> {Missing, Migrated}"
  "nskey (key_name (nnkey ''c'' ''e'')) = nskey ''e''" "key_name (nnkey ''c'' ''e'') = ''e''"
  "mem_find (nskey ''e'') (mem_ns placed_e) = None"
  by code_simp+

lemma placed_e_runs:
  "fst (Reconcile mem_env (nnkey ''c'' ''e'') (mem_state placed_e sample_forest)) = OK False"
  "(case mem_find (nskey ''e'') (mem_ns (world (snd (Reconcile mem_env (nnkey ''c'' ''e'') (mem_state placed_e sample_forest))))) of
      Some _ \<Rightarrow> True | None \<Rightarrow> False)"
  by code_simp+

theorem Reconcile_places_namespaces_witness:
  "\<exists>ns. mem_find (nskey ''e'') (mem_ns (world (snd (Reconcile mem_env (nnkey ''c'' ''e'') (mem_state placed_e sample_forest))))) = Some ns \<and>
     ns_path ns = [''root'', ''a'', ''b'', ''c'', ''e'']"
proof -
  have w: "world (mem_state placed_e sample_forest) = placed_e" by (simp add: mem_state_def)
  obtain ns where ns: "mem_find (nskey ''e'')
      (mem_ns (world (snd (Reconcile mem_env (nnkey ''c'' ''e'') (mem_state placed_e sample_forest))))) = Some ns"
    using placed_e_runs(2) by (auto split: option.splits)
  have read: "New (api_ns mem_env) (world (mem_state placed_e sample_forest)) (nskey (key_namespace (nnkey ''c'' ''e''))) empty_meta =
      OK placed_c"
    unfolding w by (rule placed_e_reads(1))
  have "mem_find (nskey ''e'') (mem_ns (world (mem_state placed_e sample_forest))) = None"
    unfolding w by (rule placed_e_reads(8))
  with ns have "ns_path ns = ns_path (oc_object placed_c) @ [key_name (nnkey ''c'' ''e'')]"
    using Reconcile_places_namespaces [OF mem_sns_laws mem_ns_laws placed_e_reads(2) read placed_evaluates(3) placed_e_reads(3)]
    by blast
  then show ?thesis using ns by (simp add: placed_evaluates(5) placed_e_reads(7))
qed

lemma Reconcile_creates_namespace_instance:
  "mem_find (nskey ''e'') (mem_ns (world (snd (Reconcile mem_env (nnkey ''c'' ''e'') (mem_state placed_e sample_forest))))) \<noteq> None"
proof -
  have w: "world (mem_state placed_e sample_forest) = placed_e" by (simp add: mem_state_def)
  obtain s' where s': "Reconcile mem_env (nnkey ''c'' ''e'') (mem_state placed_e sample_forest) = (OK False, s')"
    using placed_e_runs(1) by (metis fst_conv surj_pair)
  have read: "New (api_sns mem_env) (world (mem_state placed_e sample_forest)) (nnkey ''c'' ''e'') empty_sns =
      OK (ctx (mk_sns ''c'' ''e'' Missing [(''cpu'', 1)]))"
    unfolding w by (rule placed_e_reads(4))
  have present: "oc_present (ctx x)" for x :: "(int \<times> string) subnamespace" by (simp add: ctx_def)
  show ?thesis
    using Reconcile_creates_namespace [OF mem_sns_laws mem_ns_laws read present placed_e_reads(5) s']
    unfolding s' snd_conv placed_e_reads(6) .
qed

end
