(* ===== verification/RbUtils.thy ===== *)
theory RbUtils
  imports Common
begin

section \<open>rbutils: role bindings and the HNS view of a namespace\<close>

text \<open>\<^verbatim>\<open>internal/rolebinding/rbutils\<close>. Every caller passes a RoleBinding, so the type test
  \<^verbatim>\<open>IsRoleBinding\<close> holds by typing.\<close>

definition IsHNSRelated :: "role_binding \<Rightarrow> bool" where
  "IsHNSRelated roleBinding =
     (case rb_subjects roleBinding of
        [] \<Rightarrow> False
      | subj # _ \<Rightarrow>
          if subj_kind subj = ''Group'' \<and> HasPrefix (subj_name subj) ''system'' then False
          else if subj_kind subj = ''ServiceAccount'' \<and> subj_namespace subj = '''' then False
          else \<not> ContainsString [''default'', ''builder'', ''deployer''] (subj_name subj))"

text \<open>\<^verbatim>\<open>Subjects\<close> sets the namespace of the first subject when it is empty, in the object itself,
  and panics when there is no subject.\<close>

definition Subjects :: "role_binding \<Rightarrow> (subject list \<times> role_binding) outcome" where
  "Subjects roleBinding =
     (case rb_subjects roleBinding of
        [] \<Rightarrow> Panic
      | subj # rest \<Rightarrow>
          let subj = (if subj_namespace subj = '''' then subj\<lparr>subj_namespace := meta_namespace roleBinding\<rparr>
                      else subj)
          in OK (subj # rest, roleBinding\<lparr>rb_subjects := subj # rest\<rparr>))"

definition RoleRef :: "role_binding \<Rightarrow> role_ref" where
  "RoleRef roleBinding = rb_roleRef roleBinding"

definition IsServiceAccount :: "role_binding \<Rightarrow> bool" where
  "IsServiceAccount roleBinding =
     (if \<not> IsHNSRelated roleBinding then False
      else (case rb_subjects roleBinding of
              [] \<Rightarrow> False
            | subj # _ \<Rightarrow> subj_kind subj = ''ServiceAccount''))"

definition subjectsEqual :: "subject \<Rightarrow> subject \<Rightarrow> bool" where
  "subjectsEqual subject1 subject2 \<longleftrightarrow>
     subj_name subject1 = subj_name subject2 \<and> subj_kind subject1 = subj_kind subject2 \<and>
     subj_apiGroup subject1 = subj_apiGroup subject2"

fun IsSubjectInSubjects :: "subject list \<Rightarrow> subject \<Rightarrow> bool" where
  "IsSubjectInSubjects [] subjectToFind = False"
| "IsSubjectInSubjects (subj # subjects) subjectToFind =
     (if subjectsEqual subj subjectToFind then True else IsSubjectInSubjects subjects subjectToFind)"

definition HNSViewName :: "string \<Rightarrow> string" where
  "HNSViewName nsName = nsName @ ''-hns-view''"

definition UpdateNamespaceHNSViewCRBSubjects ::
  "('w, 'q) env \<Rightarrow> cluster_role_binding object_context \<Rightarrow> subject list \<Rightarrow>
   (('w, 'q) hns, cluster_role_binding object_context) prog" where
  "UpdateNamespaceHNSViewCRBSubjects E crb subjects =
     UpdateObjectE (api_crb E) (\<lambda>obj. OK (obj\<lparr>crb_subjects := subjects\<rparr>)) crb"

definition NamespaceHNSViewCRB ::
  "('w, 'q) env \<Rightarrow> 'w \<Rightarrow> role_binding object_context \<Rightarrow> cluster_role_binding object_context outcome" where
  "NamespaceHNSViewCRB E w rbObject =
     New (api_crb E) w (nskey (HNSViewName (oc_namespace rbObject))) empty_crb"

definition ComposeRB :: "string \<Rightarrow> string \<Rightarrow> subject list \<Rightarrow> role_ref \<Rightarrow> role_binding" where
  "ComposeRB rbName ns subjects ref =
     empty_rb\<lparr>meta_name := rbName, meta_namespace := ns, rb_subjects := subjects, rb_roleRef := ref\<rparr>"

definition view_rule :: "string \<Rightarrow> string \<Rightarrow> string \<Rightarrow> string list \<Rightarrow> policy_rule" where
  "view_rule verb apiGroup resource names =
     \<lparr>pr_verbs = [verb], pr_apiGroups = [apiGroup], pr_resources = [resource], pr_resourceNames = names\<rparr>"

definition composeNsHnsViewClusterRole :: "string \<Rightarrow> cluster_role" where
  "composeNsHnsViewClusterRole namespaceName =
     object_meta.extend (empty_meta\<lparr>meta_name := HNSViewName namespaceName\<rparr>)
       \<lparr>cr_rules =
          [view_rule ''get'' ''dana.hns.io'' ''subnamespaces'' [namespaceName],
           view_rule ''get'' ''quota.openshift.io'' ''clusterresourcequotas'' [namespaceName],
           view_rule ''list'' ''quota.openshift.io'' ''clusterresourcequotas'' [namespaceName],
           view_rule ''get'' '''' ''resourcequotas'' [namespaceName],
           view_rule ''list'' '''' ''resourcequotas'' []]\<rparr>"

definition composeNsHnsViewClusterRoleBinding :: "string \<Rightarrow> cluster_role_binding" where
  "composeNsHnsViewClusterRoleBinding namespaceName =
     empty_crb\<lparr>meta_name := HNSViewName namespaceName, crb_subjects := [],
       crb_roleRef := \<lparr>ref_apiGroup = ''rbac.authorization.k8s.io'', ref_kind = ''ClusterRole'',
                       ref_name = HNSViewName namespaceName\<rparr>\<rparr>"

definition NamespaceHNSView ::
  "('w, 'q) env \<Rightarrow> 'w \<Rightarrow> namespace object_context \<Rightarrow>
   (cluster_role object_context \<times> cluster_role_binding object_context) outcome" where
  "NamespaceHNSView E w nsObject =
     (let nsClusterRoleName = HNSViewName (oc_name nsObject) in
     obind (New (api_cr E) w (nskey nsClusterRoleName) (composeNsHnsViewClusterRole (oc_name nsObject))) (\<lambda>cr.
     obind (New (api_crb E) w (nskey nsClusterRoleName) (composeNsHnsViewClusterRoleBinding (oc_name nsObject))) (\<lambda>crb.
     OK (cr, crb))))"

definition CreateHNSView ::
  "('w, 'q) env \<Rightarrow> namespace object_context \<Rightarrow> (('w, 'q) hns, unit) prog" where
  "CreateHNSView E nsObject =
     bind (reads (\<lambda>s. NamespaceHNSView E (world s) nsObject)) (\<lambda>(cr, crb).
     bind (EnsureCreate (api_cr E) cr) (\<lambda>_.
     bind (EnsureCreate (api_crb E) crb) (\<lambda>_. ret ())))"

text \<open>\<^verbatim>\<open>Create\<close> makes the context with an empty key, so nothing is found unless an object
  without a name exists.\<close>

definition CreateRB ::
  "('w, 'q) env \<Rightarrow> namespace object_context \<Rightarrow> role_binding \<Rightarrow> (('w, 'q) hns, unit) prog" where
  "CreateRB E nsObject roleBinding =
     (let rb = ComposeRB (meta_name roleBinding) (oc_name nsObject) (rb_subjects roleBinding) (rb_roleRef roleBinding) in
     bind (reads (\<lambda>s. New (api_rb E) (world s) (nskey '''') rb)) (\<lambda>rbObject.
     bind (CreateObject (api_rb E) rbObject) (\<lambda>_. ret ())))"

end
