(* ===== verification/NsReconciler.thy ===== *)
theory NsReconciler
  imports SnsReconciler RbUtils
begin

section \<open>The namespace controller and webhook\<close>

text \<open>
  \<^verbatim>\<open>internal/namespace\<close>: \<^verbatim>\<open>controller.go\<close>, \<^verbatim>\<open>init.go\<close>, \<^verbatim>\<open>sync.go\<close>,
  \<^verbatim>\<open>cleanup.go\<close>, \<^verbatim>\<open>validator.go\<close> and \<^verbatim>\<open>deletevalidator.go\<close>. The methods whose names the
  subnamespace controller has too carry the prefix \<open>ns_\<close>.
\<close>

subsection \<open>init.go\<close>

definition addNSFinalizer ::
  "('w, 'q) env \<Rightarrow> namespace object_context \<Rightarrow> (('w, 'q) hns, namespace object_context) prog" where
  "addNSFinalizer E nsObject =
     UpdateObjectE (api_ns E)
       (\<lambda>obj. OK (obj\<lparr>meta_finalizers := addFinalizer E NsFinalizer (meta_finalizers obj)\<rparr>)) nsObject"

definition createParentRoleBindingsInNS ::
  "('w, 'q) env \<Rightarrow> namespace object_context \<Rightarrow> (('w, 'q) hns, unit) prog" where
  "createParentRoleBindingsInNS E nsObject =
     (let nsParentName = Parent (oc_object nsObject) in
     bind (reads (\<lambda>s. NewList (api_rb E) (world s)
             (InNamespaceWithField nsParentName ''rb.propagate'' ''true''))) (\<lambda>roleBindingList.
     for_each roleBindingList (CreateRB E nsObject)))"

definition ns_init ::
  "('w, 'q) env \<Rightarrow> namespace object_context \<Rightarrow> (('w, 'q) hns, unit) prog" where
  "ns_init E nsObject =
     (let nsName = oc_name nsObject in
     bind (wrapf ''failed to add finalizer for namespace %q: %v'' [nsName]
             (addNSFinalizer E nsObject)) (\<lambda>nsObject.
     bind (wrapf ''failed to create role and roleBinding objects associated with namespace %q: %v'' [nsName]
             (CreateHNSView E nsObject)) (\<lambda>_.
     wrapf ''failed to create parent roleBindings objects in namespace %q: %v'' [nsName]
       (createParentRoleBindingsInNS E nsObject))))"

subsection \<open>sync.go\<close>

definition ns_role_update :: "string \<Rightarrow> namespace \<Rightarrow> namespace outcome" where
  "ns_role_update role obj =
     obind (mput RoleKey role (meta_labels obj)) (\<lambda>labels.
     obind (mput RoleKey role (meta_annotations obj)) (\<lambda>annotations.
     OK (obj\<lparr>meta_labels := labels, meta_annotations := annotations\<rparr>)))"

definition updateNSRole ::
  "('w, 'q) env \<Rightarrow> namespace object_context \<Rightarrow> string \<Rightarrow> (('w, 'q) hns, namespace object_context) prog" where
  "updateNSRole E ns role = UpdateObjectE (api_ns E) (ns_role_update role) ns"

definition ensureHierarchyLabels ::
  "('w, 'q) env \<Rightarrow> namespace object_context \<Rightarrow> (('w, 'q) hns, namespace object_context) prog" where
  "ensureHierarchyLabels E nsObject =
     (let snsParentName = mstr (meta_labels (oc_object nsObject)) ParentKey in
     bind (reads (\<lambda>s. New (api_ns E) (world s) (nskey snsParentName) empty_meta)) (\<lambda>parentNS.
     AppendLabels (api_ns E) (Some (LabelsBasedOnParent parentNS (oc_name nsObject))) nsObject))"

definition updateChildResourcePoolLabel ::
  "('w, 'q) env \<Rightarrow> namespace object_context \<Rightarrow> 'q subnamespace \<Rightarrow> bool \<Rightarrow> (('w, 'q) hns, unit) prog" where
  "updateChildResourcePoolLabel E nsObject sns isNSResourcePool =
     (let nsName = oc_name nsObject; snsName = meta_name sns in
     bind (reads (\<lambda>s. New (api_sns E) (world s) (nnkey nsName snsName) empty_sns)) (\<lambda>snsObj.
     bind (reads (\<lambda>s. IsSNSUpper E (world s) snsObj)) (\<lambda>isSNSUpperResourcePool.
     bind (lift (IsSNSResourcePool (oc_object snsObj))) (\<lambda>isOldSNSResourcePool.
     if isOldSNSResourcePool \<noteq> isNSResourcePool \<and> \<not> isSNSUpperResourcePool then
       bind (UpdateObjectE (api_sns E) (set_pool_label isNSResourcePool) snsObj) (\<lambda>_. ret ())
     else ret ()))))"

definition ensureChildrenSNSResourcePoolLabel ::
  "('w, 'q) env \<Rightarrow> namespace object_context \<Rightarrow> (('w, 'q) hns, unit) prog" where
  "ensureChildrenSNSResourcePoolLabel E nsObject =
     bind (reads (\<lambda>s. NewList (api_sns E) (world s) (InNamespace (oc_name nsObject)))) (\<lambda>snsList.
     bind (reads (\<lambda>s. IsNSResourcePool E (world s) nsObject)) (\<lambda>isNSResourcePool.
     for_each snsList (\<lambda>sns. updateChildResourcePoolLabel E nsObject sns isNSResourcePool)))"

text \<open>The test for a not-found error never holds, since \<^verbatim>\<open>objectcontext.New\<close> turns that error
  into an absent object; its labels are then empty and the step is skipped all the same.\<close>

definition ensureNSResourcePoolLabelsAndAnnotations ::
  "('w, 'q) env \<Rightarrow> namespace object_context \<Rightarrow> (('w, 'q) hns, unit) prog" where
  "ensureNSResourcePoolLabelsAndAnnotations E nsObject =
     (let nsName = oc_name nsObject in
     bind (attempt (reads (\<lambda>s. New (api_sns E) (world s)
             (nnkey (mstr (meta_labels (oc_object nsObject)) ParentKey) nsName) empty_sns))) (\<lambda>r.
     case r of
       Inl err \<Rightarrow>
         if IsNotFound err then ret ()
         else fail (Errorf ''failed to get subnamespace %q: %v'' [nsName, error_text err])
     | Inr sns \<Rightarrow>
         (let snsLabels = meta_labels (oc_object sns); snsAnnotations = meta_annotations (oc_object sns) in
         case mget snsLabels ResourcePoolKey of
           None \<Rightarrow> ret ()
         | Some isRp \<Rightarrow>
             if isRp \<noteq> FormatBool True then ret ()
             else
             let isUpperRp = (case mget snsAnnotations IsUpperRpKey of Some v \<Rightarrow> v | None \<Rightarrow> FormatBool False);
                 upperRp = (case mget snsAnnotations UpperRpKey of Some v \<Rightarrow> v | None \<Rightarrow> '''') in
             bind (wrapf ''failed to append annotation %q to namespace %q: %v'' [IsUpperRpKey, nsName]
                     (AppendAnnotations (api_ns E) (Some [(IsUpperRpKey, isUpperRp), (UpperRpKey, upperRp)]) nsObject)) (\<lambda>nsObject.
             bind (wrapf ''failed to append label %q to namespace %q: %v'' [ResourcePoolKey, nsName]
                     (AppendLabels (api_ns E) (Some [(ResourcePoolKey, isRp)]) nsObject)) (\<lambda>_.
             ret ())))))"

definition ns_sync ::
  "('w, 'q) env \<Rightarrow> namespace object_context \<Rightarrow> (('w, 'q) hns, unit) prog" where
  "ns_sync E nsObject =
     (let nsName = oc_name nsObject in
     bind (wrapf ''failed to create role and roleBinding objects associated with namespace %q: %v'' [nsName]
             (CreateHNSView E nsObject)) (\<lambda>_.
     bind (reads (\<lambda>s. OK (IsChildless E (world s) nsObject))) (\<lambda>childless.
     bind (wrapf ''failed to update role of namespace %q: %v'' [nsName]
             (updateNSRole E nsObject (if childless then Leaf else NoRole))) (\<lambda>nsObject.
     bind (wrapf ''failed to set hierarchy labels of namespace %q: %v'' [nsName]
             (ensureHierarchyLabels E nsObject)) (\<lambda>nsObject.
     bind (wrapf ''failed to set ResourcePool labels of children subnamespaces of namespace %q: %v'' [nsName]
             (ensureChildrenSNSResourcePoolLabel E nsObject)) (\<lambda>_.
     wrapf ''failed to sync ResourcePool labels and annotations of namespace %q: %v'' [nsName]
       (ensureNSResourcePoolLabelsAndAnnotations E nsObject)))))))"

subsection \<open>cleanup.go\<close>

definition deleteNSHnsView ::
  "('w, 'q) env \<Rightarrow> namespace object_context \<Rightarrow> (('w, 'q) hns, unit) prog" where
  "deleteNSHnsView E nsObject =
     bind (reads (\<lambda>s. NamespaceHNSView E (world s) nsObject)) (\<lambda>(cr, crb).
     bind (EnsureDelete (api_cr E) cr) (\<lambda>_.
     bind (EnsureDelete (api_crb E) crb) (\<lambda>_. ret ())))"

definition deleteNamespaceQuotaObject ::
  "('w, 'q) env \<Rightarrow> namespace object_context \<Rightarrow> (('w, 'q) hns, unit) prog" where
  "deleteNamespaceQuotaObject E ns =
     bind (reads (\<lambda>s. New (api_sns E) (world s)
             (nnkey (Parent (oc_object ns)) (GetNamespaceSNSPointerAnnotation (oc_object ns))) empty_sns)) (\<lambda>sns.
     bind (reads (\<lambda>s. SubnamespaceObjectFromAnnotation E (world s) sns)) (\<lambda>quotaObject.
     bind (quota_EnsureDelete E quotaObject) (\<lambda>_. ret ())))"

definition deleteNamespaceFromNamespaceDB :: "string \<Rightarrow> (('w, 'q) hns, unit) prog" where
  "deleteNamespaceFromNamespaceDB nsName =
     bind (reads (\<lambda>s. OK (Key (crqForest s) nsName))) (\<lambda>keyNS.
     if keyNS \<noteq> '''' then
       (if keyNS = nsName then modify (\<lambda>s. s\<lparr>crqForest := DeleteKey keyNS (crqForest s)\<rparr>)
        else wrapf ''failed to remove namespace %q from key in DB: %v'' [nsName]
               (on_forest (RemoveNS nsName keyNS)))
     else ret ())"

definition enqueueParentSNSEvent ::
  "('w, 'q) env \<Rightarrow> namespace object_context \<Rightarrow> (('w, 'q) hns, unit) prog" where
  "enqueueParentSNSEvent E nsObject =
     (let nsParentName = Parent (oc_object nsObject) in
     bind (reads (\<lambda>s. New (api_ns E) (world s) (nskey nsParentName) empty_meta)) (\<lambda>nsParentNSObj.
     enqueueSNSEvent nsParentName (Parent (oc_object nsParentNSObj))))"

definition deleteSNSFromParentNS ::
  "('w, 'q) env \<Rightarrow> string \<Rightarrow> namespace object_context \<Rightarrow> (('w, 'q) hns, unit) prog" where
  "deleteSNSFromParentNS E nsName nsObject =
     bind (reads (\<lambda>s. New (api_sns E) (world s) (nnkey (Parent (oc_object nsObject)) nsName) empty_sns)) (\<lambda>sns.
     bind (EnsureDelete (api_sns E) sns) (\<lambda>_. ret ()))"

definition deleteNSFinalizer ::
  "('w, 'q) env \<Rightarrow> namespace object_context \<Rightarrow> (('w, 'q) hns, namespace object_context) prog" where
  "deleteNSFinalizer E nsObject =
     UpdateObjectE (api_ns E)
       (\<lambda>obj. OK (obj\<lparr>meta_finalizers := removeFinalizer E NsFinalizer (meta_finalizers obj)\<rparr>)) nsObject"

definition ns_cleanUp ::
  "('w, 'q) env \<Rightarrow> namespace object_context \<Rightarrow> (('w, 'q) hns, unit) prog" where
  "ns_cleanUp E nsObject =
     (let nsName = oc_name nsObject in
     bind (wrapf ''failed to delete namespace %q from namespacedb: %v'' [nsName]
             (deleteNamespaceFromNamespaceDB nsName)) (\<lambda>_.
     bind (wrapf ''failed to delete quota object of namespace %q: %v'' [nsName]
             (deleteNamespaceQuotaObject E nsObject)) (\<lambda>_.
     bind (wrapf ''failed to delete subnamespace object %q from parent namespace: %v'' [nsName]
             (deleteSNSFromParentNS E nsName nsObject)) (\<lambda>_.
     bind (wrapf ''failed to delete role and rolebinding objects associated with namespace %q: %v'' [nsName]
             (deleteNSHnsView E nsObject)) (\<lambda>_.
     bind (wrapf ''failed to trigger sns event for parent of namespace %q: %v'' [nsName]
             (enqueueParentSNSEvent E nsObject)) (\<lambda>_.
     bind (wrapf ''failed to delete finalizer of namespace %q: %v'' [nsName]
             (deleteNSFinalizer E nsObject)) (\<lambda>_.
     ret ())))))))"

subsection \<open>controller.go\<close>

definition doesNamespaceFinalizerExist :: "('w, 'q) env \<Rightarrow> namespace \<Rightarrow> bool" where
  "doesNamespaceFinalizerExist E ns = containsFinalizer E NsFinalizer (meta_finalizers ns)"

definition ns_Reconcile :: "('w, 'q) env \<Rightarrow> objkey \<Rightarrow> (('w, 'q) hns, unit) prog" where
  "ns_Reconcile E req =
     bind (wrapf ''failed to get object %q: %v'' [key_string req]
             (reads (\<lambda>s. New (api_ns E) (world s) req empty_meta))) (\<lambda>nsObject.
     if \<not> IsPresent nsObject then ret ()
     else if IsRoot (oc_object nsObject) then ret ()
     else if DeletionTimeStampExists (oc_object nsObject) then ns_cleanUp E nsObject
     else if \<not> doesNamespaceFinalizerExist E (oc_object nsObject) then ns_init E nsObject
     else ns_sync E nsObject)"

text \<open>The event filter of \<^verbatim>\<open>SetupWithManager\<close>, on a namespace.\<close>

definition ns_event_filter :: "'a object_meta_scheme \<Rightarrow> bool" where
  "ns_event_filter obj \<longleftrightarrow> mget (meta_labels obj) HnsKey \<noteq> None"

subsection \<open>deletevalidator.go and validator.go\<close>

definition validateNamespaceRole ::
  "('w, 'q) env \<Rightarrow> 'w \<Rightarrow> namespace object_context \<Rightarrow> response outcome" where
  "validateNamespaceRole E w nsObject =
     (let nsName = oc_name nsObject;
          nsRole = mstr (meta_annotations (oc_object nsObject)) RoleKey;
          allowedMessage = sprintf ''deleting root namespace %q is allowed because it has not children'' [nsName];
          denied = Denied ''it's forbidden to delete namespace %q because it currently has children subnamespaces. Please delete them and try again'' [nsName] in
     if nsRole = Leaf then OK (Allowed allowedMessage)
     else if nsRole = NoRole then OK denied
     else if nsRole = Root then
       (if IsChildless E w nsObject then OK (Allowed allowedMessage) else OK denied)
     else OK (Denied ''expected error, namespace does not have %q annotation'' [RoleKey]))"

definition ns_handleDelete ::
  "('w, 'q) env \<Rightarrow> 'w \<Rightarrow> namespace object_context \<Rightarrow> response outcome" where
  "ns_handleDelete E w nsObject =
     (if mstr (meta_labels (oc_object nsObject)) HnsKey = ''''
      then OK (Allowed ''namespaces not managed by HNS are not validated'')
      else guard (validateNamespaceRole E w nsObject) (OK (Allowed '''')))"

definition ns_Handle ::
  "('w, 'q) env \<Rightarrow> 'w \<Rightarrow> namespace admission_request \<Rightarrow> response outcome" where
  "ns_Handle E w req =
     or_errored BadRequest (New (api_ns E) w (nskey '''') empty_meta) (\<lambda>nsObject.
     or_errored BadRequest (decode_into (req_oldObject req) nsObject) (\<lambda>nsObject.
     guard (if req_operation req = OpDelete then ns_handleDelete E w nsObject else OK (Allowed ''''))
       (OK (Allowed ''all validations passed''))))"

subsection \<open>Removal from the namespace database\<close>

lemma deleteNamespaceFromNamespaceDB_effect:
  fixes s :: "('w, 'q) hns"
  assumes "forest_ok (crqForest s)"
  shows "\<exists>F. deleteNamespaceFromNamespaceDB n s = (OK (), s\<lparr>crqForest := F\<rparr>) \<and> forest_ok F \<and>
    Key F = (\<lambda>m. if m = n \<or> Key (crqForest s) m = n then '''' else Key (crqForest s) m)"
proof -
  let ?key = "Key (crqForest s) n"
  have idem: "Key (crqForest s) m = n \<Longrightarrow> ?key = n" for m using ndb.key_idem [OF assms, of m] by auto
  consider (unplaced) "?key = ''''" | (key) "?key \<noteq> ''''" "?key = n" | (member) "?key \<noteq> ''''" "?key \<noteq> n" by blast
  then show ?thesis
  proof cases
    case unplaced
    have "Key (crqForest s) m = (if m = n \<or> Key (crqForest s) m = n then '''' else Key (crqForest s) m)" for m
      using unplaced idem [of m] by (cases "Key (crqForest s) m = n") auto
    then have "Key (crqForest s) = (\<lambda>m. if m = n \<or> Key (crqForest s) m = n then '''' else Key (crqForest s) m)" by blast
    moreover have "deleteNamespaceFromNamespaceDB n s = (OK (), s\<lparr>crqForest := crqForest s\<rparr>)"
      using unplaced by (simp add: deleteNamespaceFromNamespaceDB_def bind_reads ret_def)
    ultimately show ?thesis using assms by metis
  next
    case key
    then have "deleteNamespaceFromNamespaceDB n s = (OK (), s\<lparr>crqForest := DeleteKey n (crqForest s)\<rparr>)"
      by (simp add: deleteNamespaceFromNamespaceDB_def bind_reads modify_def)
    moreover have "(\<lambda>m. if Key (crqForest s) m = n then '''' else Key (crqForest s) m) =
        (\<lambda>m. if m = n \<or> Key (crqForest s) m = n then '''' else Key (crqForest s) m)"
      using key by (auto simp: fun_eq_iff)
    ultimately show ?thesis using ndb.drop_key [OF assms _ key(2)] key by auto
  next
    case member
    obtain F where F: "RemoveNS n ?key (crqForest s) = OK F" "forest_ok F" "Key F = (Key (crqForest s))(n := '''')"
      using ndb.forget_member [OF assms member] by blast
    then have "deleteNamespaceFromNamespaceDB n s = (OK (), s\<lparr>crqForest := F\<rparr>)"
      using member by (simp add: deleteNamespaceFromNamespaceDB_def bind_reads wrapf_on_forest_OK)
    moreover have "(Key (crqForest s))(n := '''') =
        (\<lambda>m. if m = n \<or> Key (crqForest s) m = n then '''' else Key (crqForest s) m)"
      using member idem by (auto simp: fun_eq_iff)
    ultimately show ?thesis using F by metis
  qed
qed

text \<open>C30: cleaning up a namespace removes it from the namespace database, and with it, when it is the key of a
  hierarchy, the whole hierarchy; no other namespace loses its key, and the invariant is kept.\<close>

theorem deleteNamespaceFromNamespaceDB_forgets:
  fixes s :: "('w, 'q) hns"
  assumes "forest_ok (crqForest s)"
  shows "\<exists>F. deleteNamespaceFromNamespaceDB n s = (OK (), s\<lparr>crqForest := F\<rparr>) \<and> forest_ok F \<and>
    Key F = (\<lambda>m. if m = n \<or> Key (crqForest s) m = n then '''' else Key (crqForest s) m)"
  by (rule deleteNamespaceFromNamespaceDB_effect [OF assms])

text \<open>A namespace of the hierarchy may be deleted exactly when it is marked as a leaf, or is a root without
  subnamespaces.\<close>

lemma ns_handleDelete_iff:
  assumes "mstr (meta_labels (oc_object ns)) HnsKey \<noteq> ''''"
  shows "allows (ns_handleDelete E w ns) \<longleftrightarrow>
    mstr (meta_annotations (oc_object ns)) RoleKey = Leaf \<or>
    mstr (meta_annotations (oc_object ns)) RoleKey = Root \<and> NewList (api_sns E) w (InNamespace (oc_name ns)) = OK []"
proof -
  have childless: "IsChildless E w ns \<longleftrightarrow> NewList (api_sns E) w (InNamespace (oc_name ns)) = OK []"
    by (auto simp: IsChildless_def split: outcome.splits)
  have roles: "Leaf \<noteq> NoRole" "Leaf \<noteq> Root" "NoRole \<noteq> Root" by (simp_all add: key_defs)
  consider "mstr (meta_annotations (oc_object ns)) RoleKey = Leaf" | "mstr (meta_annotations (oc_object ns)) RoleKey = NoRole"
    | "mstr (meta_annotations (oc_object ns)) RoleKey = Root"
    | "mstr (meta_annotations (oc_object ns)) RoleKey \<notin> {Leaf, NoRole, Root}" by blast
  then show ?thesis
    using assms roles unfolding ns_handleDelete_def validateNamespaceRole_def Let_def childless [symmetric]
    by cases (simp_all split: if_split)
qed

subsection \<open>Instances\<close>

theorem deleteNamespaceFromNamespaceDB_forgets_witness:
  "\<exists>F. deleteNamespaceFromNamespaceDB ''b'' (mem_state sample sample_forest) =
      (OK (), (mem_state sample sample_forest)\<lparr>crqForest := F\<rparr>) \<and> Key F ''c'' = '''' \<and> Key F ''d'' = ''d''"
proof -
  have s: "crqForest (mem_state sample sample_forest) = sample_forest" by (simp add: mem_state_def)
  have "Key sample_forest ''c'' = ''b''" "Key sample_forest ''d'' = ''d''" by code_simp+
  then show ?thesis
    using deleteNamespaceFromNamespaceDB_forgets [of "mem_state sample sample_forest" "''b''"] sample_forest_ok
    by (auto simp: s)
qed

lemma ns_handleDelete_iff_instance:
  "\<not> allows (ns_handleDelete mem_env sample (ctx (mk_root ''1'')))"
proof -
  have "mstr (meta_labels (oc_object (ctx (mk_root ''1'')))) HnsKey \<noteq> ''''"
    "mstr (meta_annotations (oc_object (ctx (mk_root ''1'')))) RoleKey \<noteq> Leaf"
    "NewList (api_sns mem_env) sample (InNamespace (oc_name (ctx (mk_root ''1'')))) \<noteq> OK []"
    by code_simp+
  then show ?thesis
    using ns_handleDelete_iff [of "ctx (mk_root ''1'')" mem_env sample] by (simp only: simp_thms)
qed

end
