(* ===== verification/RoleBinding.thy ===== *)
theory RoleBinding
  imports NsReconciler
begin

section \<open>The RoleBinding controller and webhook\<close>

text \<open>
  \<^verbatim>\<open>internal/rolebinding\<close>: a RoleBinding is copied into the namespaces of the children of its
  namespace, one level per reconciliation, and its subjects get the HNS view of the namespace.
  \<^verbatim>\<open>Subjects\<close> writes into the RoleBinding it reads, so the loops thread the object.
\<close>

subsection \<open>init.go\<close>

definition DoesRBFinalizerExist :: "('w, 'q) env \<Rightarrow> role_binding \<Rightarrow> bool" where
  "DoesRBFinalizerExist E roleBinding = containsFinalizer E RbFinalizer (meta_finalizers roleBinding)"

definition addRBFinalizer ::
  "('w, 'q) env \<Rightarrow> role_binding object_context \<Rightarrow> (('w, 'q) hns, role_binding object_context) prog" where
  "addRBFinalizer E roleBinding =
     UpdateObjectE (api_rb E)
       (\<lambda>obj. OK (obj\<lparr>meta_finalizers := addFinalizer E RbFinalizer (meta_finalizers obj)\<rparr>)) roleBinding"

text \<open>The RoleBinding composed for the namespace of a child, and the context on it.\<close>

definition child_role_binding ::
  "('w, 'q) env \<Rightarrow> role_binding object_context \<Rightarrow> 'q subnamespace \<Rightarrow>
   (('w, 'q) hns, role_binding object_context \<times> role_binding object_context) prog" where
  "child_role_binding E rbObject sns =
     (let rbName = oc_name rbObject in
     bind (lift (Subjects (oc_object rbObject))) (\<lambda>(rbSubjects, obj).
     let rbObject = rbObject\<lparr>oc_object := obj\<rparr>;
         rb = ComposeRB rbName (meta_name sns) rbSubjects (RoleRef (oc_object rbObject)) in
     bind (reads (\<lambda>s. New (api_rb E) (world s) (nnkey (meta_name sns) rbName) rb)) (\<lambda>child.
     ret (rbObject, child))))"

definition createRoleBinding ::
  "('w, 'q) env \<Rightarrow> role_binding object_context \<Rightarrow> 'q subnamespace \<Rightarrow>
   (('w, 'q) hns, role_binding object_context) prog" where
  "createRoleBinding E rbObject sns =
     bind (child_role_binding E rbObject sns) (\<lambda>(rbObject, roleBindingToCreate).
     bind (EnsureCreate (api_rb E) roleBindingToCreate) (\<lambda>_. ret rbObject))"

fun createRoleBindingsInSNSList ::
  "('w, 'q) env \<Rightarrow> role_binding object_context \<Rightarrow> 'q subnamespace list \<Rightarrow>
   (('w, 'q) hns, role_binding object_context) prog" where
  "createRoleBindingsInSNSList E rbObject [] = ret rbObject"
| "createRoleBindingsInSNSList E rbObject (sns # snsList) =
     bind (createRoleBinding E rbObject sns) (\<lambda>rbObject. createRoleBindingsInSNSList E rbObject snsList)"

fun add_missing_subjects :: "subject list \<Rightarrow> subject list \<Rightarrow> subject list" where
  "add_missing_subjects view [] = view"
| "add_missing_subjects view (subj # subjects) =
     add_missing_subjects (if \<not> IsSubjectInSubjects view subj then view @ [subj] else view) subjects"

definition addSubjectsToHNSViewClusterRoleBinding ::
  "('w, 'q) env \<Rightarrow> role_binding object_context \<Rightarrow> (('w, 'q) hns, unit) prog" where
  "addSubjectsToHNSViewClusterRoleBinding E rbObject =
     bind (reads (\<lambda>s. NamespaceHNSViewCRB E (world s) rbObject)) (\<lambda>crb.
     let hnsViewSubjects = add_missing_subjects (crb_subjects (oc_object crb)) (rb_subjects (oc_object rbObject)) in
     bind (UpdateNamespaceHNSViewCRBSubjects E crb hnsViewSubjects) (\<lambda>_. ret ()))"

definition rb_init ::
  "('w, 'q) env \<Rightarrow> role_binding object_context \<Rightarrow> 'q subnamespace list \<Rightarrow> (('w, 'q) hns, unit) prog" where
  "rb_init E rbObject snsList =
     (let rbName = oc_name rbObject; rbNamespace = oc_namespace rbObject in
     bind (if \<not> DoesRBFinalizerExist E (oc_object rbObject) then
             wrapf ''failed to add finalizer to roleBinding %q: %v'' [rbName] (addRBFinalizer E rbObject)
           else ret rbObject) (\<lambda>rbObject.
     bind (wrapf ''failed to create RoleBinding in every child of namespace %q: %v'' [rbNamespace]
             (createRoleBindingsInSNSList E rbObject snsList)) (\<lambda>rbObject.
     if \<not> IsServiceAccount (oc_object rbObject) then
       wrapf ''failed to add subjects from roleBinding %q to HNS View ClusterRoleBinding: %v'' [rbName]
         (addSubjectsToHNSViewClusterRoleBinding E rbObject)
     else ret ())))"

subsection \<open>cleanup.go\<close>

definition deleteSubjectsFromHNSViewClusterRoleBinding ::
  "('w, 'q) env \<Rightarrow> role_binding object_context \<Rightarrow> (('w, 'q) hns, unit) prog" where
  "deleteSubjectsFromHNSViewClusterRoleBinding E rbObject =
     bind (reads (\<lambda>s. NamespaceHNSViewCRB E (world s) rbObject)) (\<lambda>crb.
     let newSubjects = filter (\<lambda>subj. \<not> IsSubjectInSubjects (rb_subjects (oc_object rbObject)) subj)
                              (crb_subjects (oc_object crb)) in
     bind (UpdateNamespaceHNSViewCRBSubjects E crb newSubjects) (\<lambda>_. ret ()))"

definition deleteRoleBinding ::
  "('w, 'q) env \<Rightarrow> role_binding object_context \<Rightarrow> 'q subnamespace \<Rightarrow>
   (('w, 'q) hns, role_binding object_context) prog" where
  "deleteRoleBinding E rbObject sns =
     bind (child_role_binding E rbObject sns) (\<lambda>(rbObject, roleBindingToDelete).
     bind (EnsureDelete (api_rb E) roleBindingToDelete) (\<lambda>_. ret rbObject))"

fun deleteRoleBindingsInSnsList ::
  "('w, 'q) env \<Rightarrow> role_binding object_context \<Rightarrow> 'q subnamespace list \<Rightarrow>
   (('w, 'q) hns, role_binding object_context) prog" where
  "deleteRoleBindingsInSnsList E rbObject [] = ret rbObject"
| "deleteRoleBindingsInSnsList E rbObject (sns # snsList) =
     bind (deleteRoleBinding E rbObject sns) (\<lambda>rbObject. deleteRoleBindingsInSnsList E rbObject snsList)"

definition deleteRBFinalizer ::
  "('w, 'q) env \<Rightarrow> role_binding object_context \<Rightarrow> (('w, 'q) hns, role_binding object_context) prog" where
  "deleteRBFinalizer E roleBinding =
     UpdateObjectE (api_rb E)
       (\<lambda>obj. OK (obj\<lparr>meta_finalizers := removeFinalizer E RbFinalizer (meta_finalizers obj)\<rparr>)) roleBinding"

definition rb_cleanUp ::
  "('w, 'q) env \<Rightarrow> role_binding object_context \<Rightarrow> 'q subnamespace list \<Rightarrow> (('w, 'q) hns, unit) prog" where
  "rb_cleanUp E rbObject snsList =
     (let rbName = oc_name rbObject; rbNamespace = oc_namespace rbObject in
     bind (if \<not> IsServiceAccount (oc_object rbObject) then
             wrapf ''failed to delete subjects from roleBinding %q to HNS View ClusterRoleBinding: %v'' [rbName]
               (deleteSubjectsFromHNSViewClusterRoleBinding E rbObject)
           else ret ()) (\<lambda>_.
     bind (wrapf ''failed to delete RoleBinding in every child of namespace %q: %v'' [rbNamespace]
             (deleteRoleBindingsInSnsList E rbObject snsList)) (\<lambda>rbObject.
     bind (wrapf ''failed to delete finalizer to roleBinding %q: %v'' [rbName]
             (deleteRBFinalizer E rbObject)) (\<lambda>_.
     ret ()))))"

subsection \<open>controller.go\<close>

text \<open>The index \<^verbatim>\<open>rb.propagate\<close> and the event filter of \<^verbatim>\<open>SetupWithManager\<close>.\<close>

definition rb_index :: "role_binding \<Rightarrow> string list" where
  "rb_index rawObj = (if IsHNSRelated rawObj then [''true''] else [])"

definition rb_event_filter :: "('w, 'q) env \<Rightarrow> 'w \<Rightarrow> 'a object_meta_scheme \<Rightarrow> bool" where
  "rb_event_filter E w obj =
     (case Get (api_ns E) w (nskey (meta_namespace obj)) of
        OK rbNs \<Rightarrow> mget (meta_labels rbNs) HnsKey \<noteq> None
      | _ \<Rightarrow> False)"

definition rb_Reconcile :: "('w, 'q) env \<Rightarrow> objkey \<Rightarrow> (('w, 'q) hns, unit) prog" where
  "rb_Reconcile E req =
     bind (wrapf ''failed to get object %q: %v'' [key_string req]
             (reads (\<lambda>s. New (api_rb E) (world s) req empty_rb))) (\<lambda>rbObject.
     if \<not> IsPresent rbObject then ret ()
     else if \<not> IsHNSRelated (oc_object rbObject) then ret ()
     else
     bind (wrapf ''failed to get list of subnamespaces in namespace %q: %v'' [key_namespace req]
             (reads (\<lambda>s. NewList (api_sns E) (world s) (InNamespace (key_namespace req))))) (\<lambda>snsList.
     if DeletionTimeStampExists (oc_object rbObject) then rb_cleanUp E rbObject snsList
     else rb_init E rbObject snsList))"

subsection \<open>deletevalidator.go and validator.go\<close>

definition validateNamespaceDeletion :: "namespace object_context \<Rightarrow> response outcome" where
  "validateNamespaceDeletion ns =
     (if DeletionTimeStampExists (oc_object ns)
      then OK (Allowed ''it is allowed to delete the RoleBinding because the Namespace it's in is being deleted'')
      else OK (Denied '''' []))"

definition validateParentRoleBinding ::
  "('w, 'q) env \<Rightarrow> 'w \<Rightarrow> namespace object_context \<Rightarrow> string \<Rightarrow> response outcome" where
  "validateParentRoleBinding E w ns nm =
     (let rbParentNS = Parent (oc_object ns) in
     or_errored BadRequest (New (api_rb E) w (nnkey rbParentNS nm) empty_rb) (\<lambda>parentRoleBinding.
     if DeletionTimeStampExists (oc_object parentRoleBinding)
     then OK (Allowed ''it is allowed to delete the RoleBinding because its parent RoleBinding is being deleted'')
     else if \<not> IsPresent parentRoleBinding
     then OK (Allowed ''it is allowed to delete the RoleBinding because its parent RoleBinding doesn't exist'')
     else OK (Denied '''' [])))"

text \<open>\<^verbatim>\<open>if response := f(); response.Allowed { return response }\<close>\<close>

definition unless_allowed :: "response outcome \<Rightarrow> response outcome \<Rightarrow> response outcome" where
  "unless_allowed m rest = obind m (\<lambda>r. if is_allowed r then OK r else rest)"

definition rb_handle ::
  "('w, 'q) env \<Rightarrow> 'w \<Rightarrow> role_binding object_context \<Rightarrow> response outcome" where
  "rb_handle E w rbObject =
     (let rbNamespace = oc_namespace rbObject; rbName = oc_name rbObject in
     or_errored BadRequest (New (api_ns E) w (nskey rbNamespace) empty_meta) (\<lambda>ns.
     unless_allowed (validateNamespaceDeletion ns) (
     unless_allowed (validateParentRoleBinding E w ns rbName) (
     OK (Denied ''it's forbidden to delete a RoleBinding not at the top of the hierarchy.Delete the RoleBinding %q in the highest hierarchy it exists'' [rbName])))))"

definition rb_Handle ::
  "('w, 'q) env \<Rightarrow> 'w \<Rightarrow> role_binding admission_request \<Rightarrow> response outcome" where
  "rb_Handle E w req =
     or_errored BadRequest (New (api_rb E) w (nskey '''') empty_rb) (\<lambda>rbObject.
     if req_operation req = OpDelete then
       or_errored BadRequest (decode_into (req_oldObject req) rbObject) (\<lambda>rbObject.
       guard (rb_handle E w rbObject) (OK (Allowed '''')))
     else OK (Allowed ''''))"

subsection \<open>Propagation\<close>

text \<open>Creating an object that may be there already: afterwards it is there, what was there is as it was, and
  a new object is the one composed.\<close>

definition created_as ::
  "(objkey \<Rightarrow> 'a object_meta_scheme option) \<Rightarrow> 'a object_meta_scheme \<Rightarrow> (objkey \<Rightarrow> 'a object_meta_scheme option) \<Rightarrow> bool" where
  "created_as before obj after \<longleftrightarrow>
     (\<forall>k. k \<noteq> obj_key obj \<or> before k \<noteq> None \<longrightarrow> after k = before k) \<and>
     (\<exists>obj'. after (obj_key obj) = Some obj' \<and> (before (obj_key obj) = None \<longrightarrow> stored obj obj'))"

lemma EnsureCreate_effect:
  fixes s :: "('w, 'q) hns"
  assumes "lawful k view" "New k (world s) (obj_key obj) obj = OK r" "EnsureCreate k r s = (OK r', s')"
  shows "created_as (view (world s)) obj (view (world s'))"
  using assms(2)
proof (cases rule: New_cases)
  case found
  then have "view (world s) (obj_key obj) = Some (oc_object r)" using lawful_getD [OF assms(1)] by blast
  moreover have "s' = s" using found(2) assms(3) by (simp add: EnsureCreate_def IsPresent_def ret_def)
  ultimately show ?thesis by (simp add: created_as_def)
next
  case (absent e)
  have none: "view (world s) (obj_key obj) = None" using lawful_NotFoundD [OF assms(1) absent(1,2)] .
  have run: "CreateObject k r s = (OK r', s')" using absent(4) assms(3) by (simp add: EnsureCreate_def IsPresent_def)
  obtain a w' where aw: "k_create k obj (world s) = (a, w')" by (cases "k_create k obj (world s)")
  show ?thesis
  proof (cases a)
    case (Inl err)
    with run aw absent(3) have "IsAlreadyExists err" by (auto simp: CreateObject_def split: if_splits)
    then have "view (world s) (obj_key obj) \<noteq> None"
      using assms(1) aw Inl unfolding lawful_def by blast
    with none show ?thesis by simp
  next
    case (Inr obj')
    then have "stored obj obj' \<and> view w' = (view (world s))(obj_key obj \<mapsto> obj')"
      using assms(1) aw unfolding lawful_def by blast
    moreover have "world s' = w'" using run aw absent(3) Inr by (auto simp: CreateObject_def)
    ultimately show ?thesis using none by (simp add: created_as_def)
  qed
qed

lemma stored_fields:
  assumes "stored a b"
  shows "rb_subjects b = rb_subjects a" "rb_roleRef b = rb_roleRef a"
proof -
  have "b\<lparr>meta_version := meta_version a\<rparr> = a" using assms by (simp only: stored_def)
  from arg_cong [OF this, of rb_subjects] arg_cong [OF this, of rb_roleRef]
  show "rb_subjects b = rb_subjects a" "rb_roleRef b = rb_roleRef a" by simp_all
qed

lemma Subjects_idem: "Subjects obj = OK (subjects, obj') \<Longrightarrow> Subjects obj' = OK (subjects, obj') \<and>
    meta_name obj' = meta_name obj \<and> rb_roleRef obj' = rb_roleRef obj"
  by (auto simp: Subjects_def Let_def split: list.splits if_splits)

lemma createRoleBinding_effect:
  fixes s :: "('w, 'q) hns"
  assumes "lawful (api_rb E) view" "Subjects (oc_object rb) = OK (subjects, obj)"
    and "createRoleBinding E rb sns s = (OK rb', s')"
  shows "rb' = rb\<lparr>oc_object := obj\<rparr> \<and>
    created_as (view (world s)) (ComposeRB (oc_name rb) (meta_name sns) subjects (rb_roleRef (oc_object rb))) (view (world s'))"
proof -
  let ?new = "ComposeRB (oc_name rb) (meta_name sns) subjects (rb_roleRef (oc_object rb))"
  have key: "obj_key ?new = nnkey (meta_name sns) (oc_name rb)" by (simp add: ComposeRB_def obj_key_def)
  have ref: "rb_roleRef obj = rb_roleRef (oc_object rb)" using Subjects_idem [OF assms(2)] by simp
  from assms(2,3) obtain r r' where "New (api_rb E) (world s) (nnkey (meta_name sns) (oc_name rb)) ?new = OK r"
    "EnsureCreate (api_rb E) r s = (OK r', s')" "rb' = rb\<lparr>oc_object := obj\<rparr>"
    by (auto simp: createRoleBinding_def child_role_binding_def Let_def bind_OK_iff reads_def ret_def lift_def
        RoleRef_def ref)
  then show ?thesis using EnsureCreate_effect [OF assms(1), of s ?new r r' s'] by (simp add: key)
qed

text \<open>C19: propagating a RoleBinding to the subnamespaces of its namespace leaves every one of their namespaces
  with a RoleBinding of that name; those that are new carry its role and its subjects (the first one with its
  namespace filled in), and no RoleBinding that was there is changed.\<close>

theorem createRoleBindingsInSNSList_propagates:
  fixes s :: "('w, 'q) hns"
  assumes "lawful (api_rb E) view" "Subjects (oc_object rb) = OK (subjects, obj)"
    and "createRoleBindingsInSNSList E rb snsList s = (OK rb', s')"
  shows "(\<forall>sns \<in> set snsList. view (world s') (nnkey (meta_name sns) (oc_name rb)) \<noteq> None) \<and>
    (\<forall>k old. view (world s) k = Some old \<longrightarrow> view (world s') k = Some old) \<and>
    (\<forall>k new. view (world s) k = None \<longrightarrow> view (world s') k = Some new \<longrightarrow>
       (\<exists>sns \<in> set snsList. k = nnkey (meta_name sns) (oc_name rb)) \<and>
       rb_subjects new = subjects \<and> rb_roleRef new = rb_roleRef (oc_object rb))"
  using assms(2,3)
proof (induction snsList arbitrary: rb s)
  case Nil
  then show ?case by (auto simp: ret_def)
next
  case (Cons sns snsList)
  from Cons.prems(2) obtain rb1 s1 where one: "createRoleBinding E rb sns s = (OK rb1, s1)"
    and rest: "createRoleBindingsInSNSList E rb1 snsList s1 = (OK rb', s')" by (auto simp: bind_OK_iff)
  let ?new = "ComposeRB (oc_name rb) (meta_name sns) subjects (rb_roleRef (oc_object rb))"
  have key: "obj_key ?new = nnkey (meta_name sns) (oc_name rb)" by (simp add: ComposeRB_def obj_key_def)
  note eff = createRoleBinding_effect [OF assms(1) Cons.prems(1) one]
  have rb1: "oc_object rb1 = obj" "oc_name rb1 = oc_name rb" "rb_roleRef (oc_object rb1) = rb_roleRef (oc_object rb)"
    using eff Subjects_idem [OF Cons.prems(1)] by simp_all
  have "Subjects (oc_object rb1) = OK (subjects, obj)" using Subjects_idem [OF Cons.prems(1)] rb1(1) by simp
  note IH = Cons.IH [OF this rest, unfolded rb1(2,3)]
  have here: "\<exists>new. view (world s1) (obj_key ?new) = Some new \<and> (view (world s) (obj_key ?new) = None \<longrightarrow> stored ?new new)"
    and frame: "\<And>k. k \<noteq> obj_key ?new \<or> view (world s) k \<noteq> None \<Longrightarrow> view (world s1) k = view (world s) k"
    using eff unfolding created_as_def by blast+
  have content: "rb_subjects new = subjects \<and> rb_roleRef new = rb_roleRef (oc_object rb)" if "stored ?new new" for new
    using that stored_fields [OF that] by (simp add: ComposeRB_def)
  show ?case
  proof (intro conjI ballI allI impI)
    fix x assume "x \<in> set (sns # snsList)"
    then show "view (world s') (nnkey (meta_name x) (oc_name rb)) \<noteq> None"
      using IH here key by (metis option.distinct(1) set_ConsD)
  next
    fix k old assume "view (world s) k = Some old"
    then show "view (world s') k = Some old" using IH frame [of k] by simp
  next
    fix k new assume k: "view (world s) k = None" "view (world s') k = Some new"
    then show "\<exists>sns \<in> set (sns # snsList). k = nnkey (meta_name sns) (oc_name rb)"
      using IH frame [of k] key by (metis list.set_intros)
    show "rb_subjects new = subjects" "rb_roleRef new = rb_roleRef (oc_object rb)"
      using k IH frame [of k] here content by (metis option.inject option.distinct(1))+
  qed
qed

text \<open>A RoleBinding may be deleted exactly when its namespace is being deleted, or the RoleBinding it was
  copied from is being deleted or is gone: only at the top of the hierarchy can a user start the deletion.\<close>

lemma rb_handle_iff:
  assumes "New (api_ns E) w (nskey (oc_namespace rb)) empty_meta = OK ns"
    and "New (api_rb E) w (nnkey (Parent (oc_object ns)) (oc_name rb)) empty_rb = OK parent"
  shows "allows (rb_handle E w rb) \<longleftrightarrow>
    meta_deleting (oc_object ns) \<or> meta_deleting (oc_object parent) \<or> \<not> oc_present parent"
  using assms unfolding rb_handle_def validateNamespaceDeletion_def validateParentRoleBinding_def Let_def
  by (simp add: unless_allowed_def or_errored_def DeletionTimeStampExists_def IsPresent_def)

text \<open>A RoleBinding in the namespace \<open>a\<close> of the sample tree, whose subnamespaces are \<open>b\<close> and
  \<open>d\<close>; \<open>d\<close> already holds one of that name.\<close>

definition dev_group :: subject where
  "dev_group = \<lparr>subj_kind = ''Group'', subj_apiGroup = ''rbac.authorization.k8s.io'', subj_name = ''dev'',
     subj_namespace = ''''\<rparr>"

definition edit_ref :: role_ref where
  "edit_ref = \<lparr>ref_apiGroup = ''rbac.authorization.k8s.io'', ref_kind = ''ClusterRole'', ref_name = ''edit''\<rparr>"

definition dev_edit :: "role_binding object_context" where
  "dev_edit = ctx (ComposeRB ''dev-edit'' ''a'' [dev_group] edit_ref)"

definition rb_sample :: mem where
  "rb_sample = sample\<lparr>mem_rb := [oc_object dev_edit, ComposeRB ''dev-edit'' ''d'' [] edit_ref]\<rparr>"

definition sns_of_a :: "(int \<times> string) subnamespace list" where
  "sns_of_a = filter (mem_match (InNamespace ''a'')) (mem_sns sample)"

definition dev_edit_named :: role_binding where
  "dev_edit_named = ComposeRB ''dev-edit'' ''a'' [dev_group\<lparr>subj_namespace := ''a''\<rparr>] edit_ref"

lemma dev_edit_evaluates:
  "Subjects (oc_object dev_edit) = OK ([dev_group\<lparr>subj_namespace := ''a''\<rparr>], dev_edit_named)"
  "createRoleBindingsInSNSList mem_env dev_edit sns_of_a (mem_state rb_sample []) =
     (OK (ctx dev_edit_named), snd (createRoleBindingsInSNSList mem_env dev_edit sns_of_a (mem_state rb_sample [])))"
  "map meta_name sns_of_a = [''b'', ''d'']"
  "mem_view mem_rb rb_sample (nnkey ''d'' ''dev-edit'') = Some (ComposeRB ''dev-edit'' ''d'' [] edit_ref)"
  by code_simp+

theorem createRoleBindingsInSNSList_propagates_witness:
  "let w = world (snd (createRoleBindingsInSNSList mem_env dev_edit sns_of_a (mem_state rb_sample []))) in
   mem_view mem_rb w (nnkey ''b'' ''dev-edit'') \<noteq> None \<and>
   mem_view mem_rb w (nnkey ''d'' ''dev-edit'') = Some (ComposeRB ''dev-edit'' ''d'' [] edit_ref)"
proof -
  have "''b'' \<in> set (map meta_name sns_of_a)" by (simp add: dev_edit_evaluates(3))
  then obtain sns where sns: "sns \<in> set sns_of_a" "meta_name sns = ''b''" unfolding set_map by (metis imageE)
  have "oc_name dev_edit = ''dev-edit''" by code_simp
  moreover have "world (mem_state rb_sample []) = rb_sample" by (simp add: mem_state_def)
  ultimately show ?thesis
    using createRoleBindingsInSNSList_propagates [OF mem_env_lawful(7) dev_edit_evaluates(1,2)] sns dev_edit_evaluates(4)
    unfolding Let_def by metis
qed

text \<open>The copy in \<open>b\<close> of a RoleBinding that \<open>a\<close> has may not be deleted by itself.\<close>

lemma sample_rb_handle:
  "\<not> allows (rb_handle mem_env rb_sample (ctx (ComposeRB ''dev-edit'' ''b'' [dev_group] edit_ref)))"
proof -
  let ?rb = "ctx (ComposeRB ''dev-edit'' ''b'' [dev_group] edit_ref)"
  have ns: "New (api_ns mem_env) rb_sample (nskey (oc_namespace ?rb)) empty_meta = OK (ctx (mk_ns ''b'' ''a'' ''root/a/b'' ''2''))"
    by code_simp
  have parent: "New (api_rb mem_env) rb_sample
      (nnkey (Parent (oc_object (ctx (mk_ns ''b'' ''a'' ''root/a/b'' ''2'')))) (oc_name ?rb)) empty_rb = OK dev_edit"
    by code_simp
  have "\<not> meta_deleting (oc_object (ctx (mk_ns ''b'' ''a'' ''root/a/b'' ''2'')))" "\<not> meta_deleting (oc_object dev_edit)"
    "oc_present dev_edit" by code_simp+
  then show ?thesis using rb_handle_iff [OF ns parent] by simp
qed

end
