(* ===== verification/Operator.thy ===== *)
theory Operator
  imports Migration RoleBinding
begin

section \<open>The controllers together\<close>

text \<open>
  The operator runs its controllers on requests that arrive in any order, between which other
  clients change the cluster (\<^verbatim>\<open>internal/setup\<close>). The namespace database is the state the
  controllers share: this theory follows it along any sequence of requests to the subnamespace,
  namespace, RoleBinding and UpdateQuota controllers. A migration of a namespace that is a key
  breaks it, so migrations are left out of that theorem.
\<close>

subsection \<open>setup: the webhooks\<close>

record Options =
  opt_NoWebhooks :: bool
  opt_OnlyResourcePool :: bool
  opt_MaxSNSInHierarchy :: int

text \<open>The defaults of the command line, \<^verbatim>\<open>parseFlags\<close>.\<close>

definition default_options :: Options where
  "default_options = \<lparr>opt_NoWebhooks = False, opt_OnlyResourcePool = False, opt_MaxSNSInHierarchy = 250\<rparr>"

datatype 'q hook_request =
    NamespaceHook "namespace admission_request"
  | SubnamespaceHook "'q subnamespace admission_request"
  | RoleBindingHook "role_binding admission_request"
  | BuildConfigHook "'q build_config admission_request"
  | UpdatequotaHook "'q updatequota admission_request"
  | MigrationHierarchyHook "migration_hierarchy admission_request"

datatype 'q hook_answer =
    Validated "response outcome"
  | PatchedBuildConfig "'q build_config mutation outcome"
  | PatchedUpdatequota "'q updatequota mutation"
  | PatchedMigrationHierarchy "migration_hierarchy mutation"

text \<open>The handler registered for a path, on a request for the kind it decodes; the webhook server answers on no
  other path, and with \<^verbatim>\<open>NoWebhooks\<close> on none.\<close>

definition Webhooks ::
  "('w, 'q) env \<Rightarrow> 'w \<Rightarrow> forest \<Rightarrow> Options \<Rightarrow> string \<Rightarrow> 'q hook_request \<Rightarrow> 'q hook_answer option" where
  "Webhooks E w ndb opts path request =
     (if opt_NoWebhooks opts then None
      else case request of
        NamespaceHook req \<Rightarrow>
          if path = ''/validate-v1-namespace'' then Some (Validated (ns_Handle E w req)) else None
      | SubnamespaceHook req \<Rightarrow>
          if path = ''/validate-v1-subnamespace''
          then Some (Validated (Handle E w \<lparr>sv_NamespaceDB = ndb, sv_MaxSNS = opt_MaxSNSInHierarchy opts,
                                             sv_OnlyRP = opt_OnlyResourcePool opts\<rparr> req))
          else None
      | RoleBindingHook req \<Rightarrow>
          if path = ''/validate-v1-rolebinding'' then Some (Validated (rb_Handle E w req)) else None
      | BuildConfigHook req \<Rightarrow>
          if path = ''/mutate-v1-buildconfig'' then Some (PatchedBuildConfig (bc_Handle E req)) else None
      | MigrationHierarchyHook req \<Rightarrow>
          if path = ''/mutate-v1-migrationhierarchy'' then Some (PatchedMigrationHierarchy (mh_mutator_Handle req))
          else if path = ''/validate-v1-migrationhierarchy''
          then Some (Validated (mh_Handle E w \<lparr>mv_NamespaceDB = ndb, mv_MaxSNS = opt_MaxSNSInHierarchy opts\<rparr> req))
          else None
      | UpdatequotaHook req \<Rightarrow>
          if path = ''/mutate-v1-updatequota'' then Some (PatchedUpdatequota (upq_mutator_Handle req))
          else if path = ''/validate-v1-updatequota'' then Some (Validated (upq_Handle E w req))
          else None)"

subsection \<open>What the controllers touch\<close>

text \<open>
  What the RoleBinding, UpdateQuota and namespace controllers ask of the state they act on: a
  preorder that the writes to the other kinds, the changes and deletions of subnamespaces, the
  events and \<^verbatim>\<open>time.Sleep\<close> stay within, and a property \<open>ok\<close> of the context of a namespace under
  which an update of the namespace stays within it and which the changes of the namespace
  controller keep: finalizers, the role, any label, and the annotations about ResourcePools.
\<close>

locale operator_frame = hns_frame R for R :: "('w, 'q) hns \<Rightarrow> ('w, 'q) hns \<Rightarrow> bool" +
  fixes E :: "('w, 'q) env" and ok :: "namespace object_context \<Rightarrow> bool"
  assumes quiet_kinds: "quiet R (api_rq E)" "quiet R (api_crq E)" "quiet R (api_rb E)" "quiet R (api_cr E)"
      "quiet R (api_crb E)" "quiet R (api_upq E)"
    and tame_sns: "tame R (api_sns E)"
    and R_sleep: "R s (s\<lparr>world := sleep E ms (world s)\<rparr>)"
    and R_events: "R s (s\<lparr>snsEvents := ks\<rparr>)"
    and R_update: "(\<And>obj. upd (oc_object r) = OK obj \<Longrightarrow> ok (r\<lparr>oc_object := obj\<rparr>)) \<Longrightarrow>
          keeps R ok (UpdateObjectE (api_ns E) upd r)"
    and ok_finalizers: "ok r \<Longrightarrow> ok (r\<lparr>oc_object := (oc_object r)\<lparr>meta_finalizers := fs\<rparr>\<rparr>)"
    and ok_role: "ok r \<Longrightarrow> ns_role_update role (oc_object r) = OK obj \<Longrightarrow> ok (r\<lparr>oc_object := obj\<rparr>)"
    and ok_labels: "ok r \<Longrightarrow> mput_all new (meta_labels (oc_object r)) = OK m \<Longrightarrow>
          ok (r\<lparr>oc_object := (oc_object r)\<lparr>meta_labels := m\<rparr>\<rparr>)"
    and ok_pool: "ok r \<Longrightarrow> ok (r\<lparr>oc_object := (oc_object r)\<lparr>meta_annotations :=
          (case meta_annotations (oc_object r) of None \<Rightarrow> Some [(IsUpperRpKey, a), (UpperRpKey, b)]
           | Some old \<Rightarrow> Some (put_all [(IsUpperRpKey, a), (UpperRpKey, b)] old))\<rparr>\<rparr>)"
begin

lemma keeps_update_attempt: "keeps R (\<lambda>_. True) (update_attempt (api_sns E) x upd False r)"
  by (auto simp: keeps_def update_attempt_def Let_def R_refl split: outcome.splits prod.splits sum.splits
      dest: tameD(1) [OF tame_sns])

lemma keeps_refresh: "keeps R (\<lambda>_. True) (refresh k r)"
  by (auto simp: keeps_def refresh_def R_refl split: sum.splits)

lemmas keeps_calls = keeps_bind [where Q = "\<lambda>_. True"] keeps_ret keeps_fail keeps_reads keeps_wrapf keeps_check_err
  keeps_EnsureCreate keeps_EnsureDelete keeps_CreateObject keeps_UpdateObject keeps_UpdateObjectE
  quiet_kinds quiet_kinds [THEN quiet_tame] tame_sns
  keeps_lift keeps_if keeps_option keeps_sum keeps_prod keeps_for_each TrueI

lemma keeps_attempt_True: "keeps R Q m \<Longrightarrow> keeps R (\<lambda>_. True) (attempt m)"
  by (rule keeps_True [OF keeps_attempt])

lemma keeps_EnsureUpdateObject: "keeps R (\<lambda>_. True) (EnsureUpdateObject E (api_sns E) upd False r)"
proof -
  have "keeps R (\<lambda>_. True) (forceUpdate (api_sns E) n upd False r)" for n
    by (induction n arbitrary: r) (simp_all, (intro keeps_calls keeps_update_attempt keeps_refresh; simp)+)
  then show ?thesis by (simp add: EnsureUpdateObject_def)
qed

text \<open>RoleBindings.\<close>

lemma keeps_role_bindings:
  "keeps R (\<lambda>_. True) (createRoleBindingsInSNSList E rb snsList)"
  "keeps R (\<lambda>_. True) (deleteRoleBindingsInSnsList E rb snsList)"
proof -
  have child: "keeps R (\<lambda>_. True) (child_role_binding E rb sns)" for rb sns
    unfolding child_role_binding_def Let_def by (intro keeps_calls)
  show "keeps R (\<lambda>_. True) (createRoleBindingsInSNSList E rb snsList)"
    by (induction snsList arbitrary: rb) (simp_all add: createRoleBinding_def, (intro keeps_calls child; simp)+)
  show "keeps R (\<lambda>_. True) (deleteRoleBindingsInSnsList E rb snsList)"
    by (induction snsList arbitrary: rb) (simp_all add: deleteRoleBinding_def, (intro keeps_calls child; simp)+)
qed

lemma keeps_rb_Reconcile: "keeps R (\<lambda>_. True) (rb_Reconcile E req)"
  unfolding rb_Reconcile_def rb_init_def rb_cleanUp_def addRBFinalizer_def deleteRBFinalizer_def
    addSubjectsToHNSViewClusterRoleBinding_def deleteSubjectsFromHNSViewClusterRoleBinding_def
    UpdateNamespaceHNSViewCRBSubjects_def Let_def
  by (intro keeps_calls keeps_role_bindings)

text \<open>UpdateQuotas.\<close>

lemma keeps_wait: "keeps R (\<lambda>_. True) (ensureSnsEqualQuota E r)"
proof -
  have "keeps R (\<lambda>_. True) (equal_quota_loop E n r)" for n
    by (induction n) (simp_all add: Let_def, (intro keeps_calls keeps_modify R_sleep; simp)+)
  then show ?thesis by (simp add: ensureSnsEqualQuota_def)
qed

lemma keeps_upq_failure: "keeps R (\<lambda>_. True) (upq_failure E upq err e)"
  unfolding upq_failure_def updateUPQStatus_def by (intro keeps_calls)

lemma keeps_upq_step: "keeps R Q m \<Longrightarrow> keeps R (\<lambda>_. True) (upq_step E upq f m)"
  unfolding upq_step_def by (intro keeps_calls keeps_attempt_True keeps_upq_failure)

lemma keeps_moves:
  "keeps R (\<lambda>_. True) (moveResourcesDown E anc ns upq)" "keeps R (\<lambda>_. True) (moveResourcesUp E anc ns upq)"
  unfolding moveResourcesDown_def moveResourcesUp_def addSnsQuota_def subSnsQuota_def
  by (intro keeps_calls keeps_EnsureUpdateObject keeps_wait)+

lemma keeps_upq_Reconcile: "keeps R (\<lambda>_. True) (upq_Reconcile E req)"
  unfolding upq_Reconcile_def upq_reconcile_def moveBetweenBranches_def upq_complete_def updateUPQStatus_def Let_def
  by (intro keeps_calls keeps_upq_step [OF keeps_moves(1)] keeps_upq_step [OF keeps_moves(2)] keeps_upq_failure)

text \<open>Namespaces; the clean-up takes the namespace out of the database.\<close>

lemma keeps_ns_updates:
  assumes "ok r"
  shows "keeps R ok (addNSFinalizer E r)" "keeps R ok (updateNSRole E r role)"
    "keeps R ok (AppendLabels (api_ns E) new r)" "keeps R ok (deleteNSFinalizer E r)"
    "keeps R ok (AppendAnnotations (api_ns E) (Some [(IsUpperRpKey, a), (UpperRpKey, b)]) r)"
proof -
  show "keeps R ok (addNSFinalizer E r)" "keeps R ok (deleteNSFinalizer E r)"
    unfolding addNSFinalizer_def deleteNSFinalizer_def by (rule R_update, auto intro: ok_finalizers [OF assms])+
  show "keeps R ok (updateNSRole E r role)"
    unfolding updateNSRole_def by (rule R_update) (rule ok_role [OF assms])
  show "keeps R ok (AppendLabels (api_ns E) new r)"
    unfolding AppendLabels_def
    by (rule keeps_bind [OF keeps_lift [where Q = "\<lambda>m. mput_all (mentries new) (meta_labels (oc_object r)) = OK m"]])
      (assumption, rule R_update, auto intro: ok_labels [OF assms])
  show "keeps R ok (AppendAnnotations (api_ns E) (Some [(IsUpperRpKey, a), (UpperRpKey, b)]) r)"
    unfolding AppendAnnotations_def Let_def
    by (rule R_update) (use ok_pool [OF assms, of a b] in \<open>simp cong: option.case_cong\<close>)
qed

lemma keeps_HNSView: "keeps R (\<lambda>_. True) (CreateHNSView E ns)" "keeps R (\<lambda>_. True) (deleteNSHnsView E ns)"
  unfolding CreateHNSView_def deleteNSHnsView_def by (intro keeps_calls)+

text \<open>A step that hands on the context of the namespace.\<close>

lemma keeps_step: "keeps R ok m \<Longrightarrow> (\<And>r. ok r \<Longrightarrow> keeps R Q (f r)) \<Longrightarrow> keeps R Q (bind (wrapf msg as m) f)"
  by (rule keeps_bind [OF keeps_wrapf])

lemma keeps_ns_init: "ok ns \<Longrightarrow> keeps R (\<lambda>_. True) (ns_init E ns)"
  unfolding ns_init_def createParentRoleBindingsInNS_def CreateRB_def Let_def
  by (rule keeps_step [OF keeps_ns_updates(1)], assumption, intro keeps_calls keeps_HNSView)

lemma keeps_pools: "ok ns \<Longrightarrow> keeps R (\<lambda>_. True) (ensureNSResourcePoolLabelsAndAnnotations E ns)"
  unfolding ensureNSResourcePoolLabelsAndAnnotations_def Let_def
  by (intro keeps_bind [OF keeps_attempt_True [OF keeps_reads]] keeps_sum keeps_option keeps_if keeps_ret keeps_fail TrueI
      keeps_step [OF keeps_ns_updates(5)] keeps_bind [OF keeps_wrapf [OF keeps_ns_updates(3)]])

lemma keeps_ns_sync: "ok ns \<Longrightarrow> keeps R (\<lambda>_. True) (ns_sync E ns)"
proof -
  assume ns: "ok ns"
  have labels: "keeps R ok (ensureHierarchyLabels E r)" if "ok r" for r
    unfolding ensureHierarchyLabels_def Let_def by (rule keeps_bind [OF keeps_reads keeps_ns_updates(3) [OF that]])
  have children: "keeps R (\<lambda>_. True) (ensureChildrenSNSResourcePoolLabel E r)" for r
    unfolding ensureChildrenSNSResourcePoolLabel_def updateChildResourcePoolLabel_def Let_def by (intro keeps_calls)
  show ?thesis
    unfolding ns_sync_def Let_def
    by (rule keeps_bind [OF keeps_wrapf [OF keeps_HNSView(1)]], rule keeps_bind [OF keeps_reads],
        rule keeps_step [OF keeps_ns_updates(2) [OF ns]], rule keeps_step [OF labels], assumption,
        rule keeps_bind [OF keeps_wrapf [OF children]], rule keeps_wrapf, erule keeps_pools)
qed

lemma keeps_quota_delete: "keeps R (\<lambda>_. True) (quota_EnsureDelete E q)"
  by (cases q; simp; intro keeps_calls)

lemma keeps_ns_cleanUp:
  assumes "ok ns" "\<And>s. R s (snd (deleteNamespaceFromNamespaceDB (oc_name ns) s))"
  shows "keeps R (\<lambda>_. True) (ns_cleanUp E ns)"
proof -
  have "keeps R (\<lambda>_. True) (deleteNamespaceFromNamespaceDB (oc_name ns))" by (simp add: keeps_def assms(2))
  then show ?thesis
    unfolding ns_cleanUp_def deleteNamespaceQuotaObject_def deleteSNSFromParentNS_def enqueueParentSNSEvent_def
      enqueueSNSEvent_def Let_def
    by (intro keeps_calls keeps_HNSView keeps_quota_delete keeps_modify R_events keeps_True [OF keeps_ns_updates(4) [OF assms(1)]])
qed

lemma ns_Reconcile_within:
  assumes "\<And>ns. New (api_ns E) (world s) req empty_meta = OK ns \<Longrightarrow> oc_present ns \<Longrightarrow>
      ok ns \<and> (\<forall>s. R s (snd (deleteNamespaceFromNamespaceDB (oc_name ns) s)))"
  shows "R s (snd (ns_Reconcile E req s))"
proof (cases "New (api_ns E) (world s) req empty_meta")
  case (OK ns)
  let ?rest = "if \<not> IsPresent ns then ret () else if IsRoot (oc_object ns) then ret ()
     else if DeletionTimeStampExists (oc_object ns) then ns_cleanUp E ns
     else if \<not> doesNamespaceFinalizerExist E (oc_object ns) then ns_init E ns else ns_sync E ns"
  have "keeps R (\<lambda>_. True) ?rest"
    using assms [OF OK]
    by (intro keeps_if keeps_ret keeps_ns_init keeps_ns_sync keeps_ns_cleanUp TrueI) (simp_all add: IsPresent_def)
  moreover have "ns_Reconcile E req s = ?rest s"
    unfolding ns_Reconcile_def using OK by (simp add: wrapf_def catch_def bind_def reads_def)
  ultimately show ?thesis by (simp only: keepsD(1))
qed (simp_all add: ns_Reconcile_def go_defs reads_def R_refl)

end

subsection \<open>Requests\<close>

text \<open>\<^verbatim>\<open>setup.Controllers\<close> starts the five controllers, which share the namespace database and the two
  channels of events. What arrives is a request for an object a controller watches, an event that another controller has put into a channel,
  or a change of the cluster by somebody else.\<close>

datatype 'w request =
    SnsRequest objkey
  | NsRequest objkey
  | RbRequest objkey
  | UpqRequest objkey
  | MhRequest objkey
  | SnsDelivery
  | NsDelivery
  | OtherClients 'w

fun handle_request :: "('w, 'q) env \<Rightarrow> 'w request \<Rightarrow> ('w, 'q) hns \<Rightarrow> ('w, 'q) hns" where
  "handle_request E (SnsRequest req) s = snd (Reconcile E req s)"
| "handle_request E (NsRequest req) s = snd (ns_Reconcile E req s)"
| "handle_request E (RbRequest req) s = snd (rb_Reconcile E req s)"
| "handle_request E (UpqRequest req) s = snd (upq_Reconcile E req s)"
| "handle_request E (MhRequest req) s = snd (mh_Reconcile E req s)"
| "handle_request E SnsDelivery s =
     (case snsEvents s of [] \<Rightarrow> s | req # rest \<Rightarrow> snd (Reconcile E req (s\<lparr>snsEvents := rest\<rparr>)))"
| "handle_request E NsDelivery s =
     (case nsEvents s of [] \<Rightarrow> s | nm # rest \<Rightarrow> snd (ns_Reconcile E (nskey nm) (s\<lparr>nsEvents := rest\<rparr>)))"
| "handle_request E (OtherClients w) s = s\<lparr>world := w\<rparr>"

fun operate :: "('w, 'q) env \<Rightarrow> 'w request list \<Rightarrow> ('w, 'q) hns \<Rightarrow> ('w, 'q) hns" where
  "operate E [] s = s"
| "operate E (r # rs) s = operate E rs (handle_request E r s)"

text \<open>The names the namespace controller is asked about.\<close>

fun asked_of_ns :: "'w request \<Rightarrow> ('w, 'q) hns \<Rightarrow> string set" where
  "asked_of_ns (NsRequest req) s = {key_name req}"
| "asked_of_ns NsDelivery s = set (take 1 (nsEvents s))"
| "asked_of_ns _ s = {}"

fun all_asked_of_ns :: "('w, 'q) env \<Rightarrow> 'w request list \<Rightarrow> ('w, 'q) hns \<Rightarrow> string set" where
  "all_asked_of_ns E [] s = {}"
| "all_asked_of_ns E (r # rs) s = asked_of_ns r s \<union> all_asked_of_ns E rs (handle_request E r s)"

text \<open>The database stays well-formed, and only hierarchies of the given names are touched.\<close>

definition forest_within :: "string set \<Rightarrow> ('w, 'q) hns \<Rightarrow> ('w, 'q) hns \<Rightarrow> bool" where
  "forest_within N s s' \<longleftrightarrow> (forest_ok (crqForest s) \<longrightarrow> forest_ok (crqForest s') \<and>
     (\<forall>n. Key (crqForest s) n \<noteq> '''' \<and> n \<notin> N \<and> Key (crqForest s) n \<notin> N \<longrightarrow> Key (crqForest s') n = Key (crqForest s) n))"

lemma forest_within_same: "crqForest s' = crqForest s \<Longrightarrow> forest_within N s s'"
  by (simp add: forest_within_def)

lemma forest_within_trans: "forest_within N s t \<Longrightarrow> forest_within N t u \<Longrightarrow> forest_within N s u"
  by (simp add: forest_within_def)

lemma forest_within_mono: "forest_within N s t \<Longrightarrow> N \<subseteq> N' \<Longrightarrow> forest_within N' s t"
  unfolding forest_within_def by blast

lemma keeps_UpdateObjectE_world:
  "(\<And>s w. R s (s\<lparr>world := w\<rparr>)) \<Longrightarrow> (\<And>s. R s s) \<Longrightarrow> keeps R (\<lambda>_. True) (UpdateObjectE k upd r)"
  by (auto simp: keeps_def UpdateObjectE_def UpdateObject_def check_err_def go_defs Let_def
      split: outcome.splits prod.splits sum.splits option.splits)

interpretation within: operator_frame "forest_within N" E "\<lambda>_. True" for N E
proof
  show "keeps (forest_within N) (\<lambda>_. True) (UpdateObjectE (api_ns E) upd r)" for upd r
    by (rule keeps_UpdateObjectE_world) (simp_all add: forest_within_same)
qed (auto simp: quiet_def tame_def intro: forest_within_same forest_within_trans)

lemma forget_within: "n \<in> N \<Longrightarrow> forest_within N s (snd (deleteNamespaceFromNamespaceDB n s))"
  using deleteNamespaceFromNamespaceDB_effect [of s n] by (auto simp: forest_within_def)

lemma ns_request_within:
  assumes "lawful (api_ns E) nsView"
  shows "forest_within {key_name req} s (snd (ns_Reconcile E req s))"
proof (rule within.ns_Reconcile_within)
  fix ns
  assume "New (api_ns E) (world s) req empty_meta = OK ns" "oc_present ns"
  then have "obj_key (oc_object ns) = req" using New_present [OF assms] by blast
  then have "oc_name ns = key_name req" by (auto simp: obj_key_def nnkey_def)
  then show "True \<and> (\<forall>s'. forest_within {key_name req} s' (snd (deleteNamespaceFromNamespaceDB (oc_name ns) s')))"
    by (simp add: forget_within)
qed

lemma key_name_nskey: "key_name (nskey n) = n"
  by (simp add: nskey_def)

text \<open>A read without a name is an error of the client.\<close>

lemma sns_request_within:
  assumes "sns_laws E view" "\<And>w ns obj. k_get (api_sns E) (nnkey ns '''') w \<noteq> Inr obj"
  shows "forest_within {} s (snd (Reconcile E req s))"
proof (cases "key_name req = ''''")
  case True
  then have req: "req = nnkey (key_namespace req) ''''" by (simp add: nnkey_def)
  show ?thesis
  proof (cases rule: Reconcile_cases [of E req s])
    case nothing
    then show ?thesis by (simp add: forest_within_same)
  next
    case (handled sns p f)
    from handled(1) have "\<not> oc_present sns"
      by (cases rule: New_cases) (use req assms(2) in metis, simp)
    then show ?thesis using handled(2) by simp
  qed
next
  case False
  then show ?thesis
    using Reconcile_forest_frame [OF assms(1), of req s] assms(1) unfolding forest_frame_def forest_within_def by metis
qed

lemma handle_request_within:
  assumes "\<And>req. r \<noteq> MhRequest req" "sns_laws E view" "\<And>w ns obj. k_get (api_sns E) (nnkey ns '''') w \<noteq> Inr obj" "lawful (api_ns E) nsView"
  shows "forest_within (asked_of_ns r s) s (handle_request E r s)"
proof (cases r)
  case SnsDelivery
  then show ?thesis
    using forest_within_trans [OF forest_within_same sns_request_within [OF assms(2,3)]]
    by (simp add: forest_within_same split: list.split)
next
  case NsDelivery
  then show ?thesis
    using forest_within_trans [OF forest_within_same ns_request_within [OF assms(4)], where req1 = "nskey _"]
    by (auto simp: forest_within_same key_name_nskey split: list.split)
qed (simp_all add: assms(1) sns_request_within [OF assms(2,3)] ns_request_within [OF assms(4)] forest_within_same
      keepsD(1) [OF within.keeps_rb_Reconcile] keepsD(1) [OF within.keeps_upq_Reconcile])

lemma operate_within:
  assumes "\<And>req. MhRequest req \<notin> set rs" "sns_laws E view" "\<And>w ns obj. k_get (api_sns E) (nnkey ns '''') w \<noteq> Inr obj" "lawful (api_ns E) nsView"
  shows "forest_within (all_asked_of_ns E rs s) s (operate E rs s)"
  using assms(1)
proof (induction rs arbitrary: s)
  case (Cons r rs)
  have no: "r \<noteq> MhRequest req" "MhRequest req \<notin> set rs" for req using Cons.prems [of req] by auto
  have "forest_within (all_asked_of_ns E (r # rs) s) s (handle_request E r s)"
    by (rule forest_within_mono [OF handle_request_within [OF no(1) assms(2-4)]]) simp
  moreover have "forest_within (all_asked_of_ns E (r # rs) s) (handle_request E r s) (operate E rs (handle_request E r s))"
    by (rule forest_within_mono [OF Cons.IH [OF no(2)]]) simp
  ultimately show ?case by (simp add: forest_within_trans)
qed (simp add: forest_within_same)

text \<open>C9: along any sequence of requests to the subnamespace, namespace, RoleBinding and UpdateQuota controllers,
  in any order, without a migration and with any changes of the cluster in between, the namespace database stays well-formed, and a
  namespace keeps its hierarchy as long as the namespace controller is asked neither about it nor about the
  namespace its hierarchy is named after.\<close>

theorem operate_keeps_forest:
  assumes "\<And>req. MhRequest req \<notin> set rs"
    and "sns_laws E view" "\<And>w ns obj. k_get (api_sns E) (nnkey ns '''') w \<noteq> Inr obj" "lawful (api_ns E) nsView"
    and "forest_ok (crqForest s)"
  shows "forest_ok (crqForest (operate E rs s)) \<and>
    (\<forall>n. Key (crqForest s) n \<noteq> '''' \<and> n \<notin> all_asked_of_ns E rs s \<and> Key (crqForest s) n \<notin> all_asked_of_ns E rs s \<longrightarrow>
       Key (crqForest (operate E rs s)) n = Key (crqForest s) n)"
  using operate_within [OF assms(1-4), of s] assms(5) by (simp add: forest_within_def)

subsection \<open>An instance\<close>

text \<open>The cluster in memory with the client's check of names.\<close>

definition named_env :: "(mem, int \<times> string) env" where
  "named_env = mem_env\<lparr>api_sns := (api_sns mem_env)\<lparr>k_get := \<lambda>key w.
     if key_name key = '''' then Inl (Errorf ''resource name may not be empty'' []) else k_get (api_sns mem_env) key w\<rparr>\<rparr>"

lemma lawful_get:
  "lawful k view \<Longrightarrow> \<not> IsNotFound e \<Longrightarrow>
   lawful (k\<lparr>k_get := \<lambda>key w. if key_name key = '''' then Inl e else k_get k key w\<rparr>) view"
  unfolding lawful_def by (auto split: if_splits)

lemma named_env_laws:
  "sns_laws named_env (mem_view mem_sns)" "k_get (api_sns named_env) (nnkey ns '''') w \<noteq> Inr obj"
  "lawful (api_ns named_env) (mem_view mem_ns)"
proof -
  have "\<not> IsNotFound (Errorf ''resource name may not be empty'' [])" by code_simp
  note lawful_get [OF mem_env_lawful(2) this]
  then show "sns_laws named_env (mem_view mem_sns)"
    using mem_sns_laws unfolding sns_laws_def by (simp add: named_env_def)
  show "k_get (api_sns named_env) (nnkey ns '''') w \<noteq> Inr obj" by (simp add: named_env_def nnkey_def)
  show "lawful (api_ns named_env) (mem_view mem_ns)" using mem_env_lawful(1) by (simp add: named_env_def)
qed

text \<open>A new subnamespace \<open>e\<close> is taken in, \<open>d\<close> is deleted by a user and cleaned up.\<close>

definition sample_requests :: "mem request list" where
  "sample_requests =
     [SnsRequest (nnkey ''c'' ''e''), SnsDelivery, RbRequest (nnkey ''a'' ''dev-edit''),
      OtherClients (sample\<lparr>mem_ns := map (\<lambda>ns. if meta_name ns = ''d'' then ns\<lparr>meta_deleting := True\<rparr> else ns) (mem_ns sample)\<rparr>),
      NsRequest (nskey ''d''), UpqRequest (nnkey ''b'' ''move'')]"

lemma sample_requests_effect:
  "crqForest (operate named_env sample_requests (mem_state (sample_e Missing) sample_forest)) = [(''b'', [''c'', ''e''])]"
  by code_simp

theorem operate_keeps_forest_witness:
  "Key (crqForest (operate named_env sample_requests (mem_state (sample_e Missing) sample_forest))) ''c'' = ''b''"
proof -
  let ?s = "mem_state (sample_e Missing) sample_forest"
  have s: "crqForest ?s = sample_forest" by (simp add: mem_state_def)
  have asked: "all_asked_of_ns named_env sample_requests ?s = {''d''}" by (simp add: sample_requests_def key_name_nskey)
  have no: "MhRequest req \<notin> set sample_requests" for req by (simp add: sample_requests_def)
  have "Key sample_forest ''c'' = ''b''" by code_simp
  then show ?thesis
    using operate_keeps_forest [OF no named_env_laws, of ?s, unfolded s asked] sample_forest_ok by auto
qed

end
