(* ===== verification/ClusterPlacement.thy ===== *)
theory ClusterPlacement
  imports SnsPlacement Operator
begin

section \<open>The tree of namespaces while the operator runs\<close>

text \<open>
  The namespaces and subnamespaces of the cluster along any run of the controllers without a
  migration, with other clients in between who may do what the webhooks let through. Nobody
  creates a subnamespace but the clients. The controllers move no namespace and ask for the
  deletion of none: a namespace disappears in a step of theirs only when someone else has deleted it
  and the controller takes its last finalizer. Every namespace they create belongs to a
  subnamespace and is well placed below its parent.
\<close>

subsection \<open>Namespaces that stay where they are\<close>

definition keeps_pos :: "namespace \<Rightarrow> namespace \<Rightarrow> bool" where
  "keeps_pos ns ns' \<longleftrightarrow> obj_key ns' = obj_key ns \<and> (well_placed ns \<longrightarrow> well_placed ns' \<and> ns_path ns' = ns_path ns)"

lemma keeps_pos_refl [simp]: "keeps_pos ns ns"
  by (simp add: keeps_pos_def)

text \<open>The controllers do not change whether it is being deleted, either.\<close>

definition stays_put :: "namespace \<Rightarrow> namespace \<Rightarrow> bool" where
  "stays_put ns ns' \<longleftrightarrow> keeps_pos ns ns' \<and> meta_deleting ns' = meta_deleting ns"

lemma stays_put_refl [simp]: "stays_put ns ns"
  by (simp add: stays_put_def keeps_pos_def)

lemma stays_put_trans: "stays_put a b \<Longrightarrow> stays_put b c \<Longrightarrow> stays_put a c"
  by (simp add: stays_put_def keeps_pos_def)

lemma stays_putD: "stays_put a b \<Longrightarrow> obj_key b = obj_key a \<and> meta_deleting b = meta_deleting a"
  by (simp add: stays_put_def keeps_pos_def)

lemma same_place_stays_put: "same_place a b \<Longrightarrow> stays_put a b"
  using same_place_well_placed [of a b] by (auto simp: stays_put_def keeps_pos_def same_place_def)

lemma well_placed_Depth: "well_placed ns \<Longrightarrow> Depth ns = int (length (ns_path ns)) - 1"
  by (simp add: well_placed_def)

text \<open>The annotations that place a namespace.\<close>

definition place_key :: "string \<Rightarrow> bool" where
  "place_key k \<longleftrightarrow> k = DisplayNameKey \<or> k = DepthKey \<or> (\<exists>i. k = selector_key i)"

lemma stays_putI:
  assumes "obj_key ns' = obj_key ns" "meta_deleting ns' = meta_deleting ns" "wf_map (meta_annotations ns) \<Longrightarrow> wf_map (meta_annotations ns')"
    and "wf_map (meta_labels ns) \<Longrightarrow> wf_map (meta_labels ns')" "meta_labels ns \<noteq> None \<Longrightarrow> meta_labels ns' \<noteq> None"
    and get: "\<And>k. place_key k \<Longrightarrow> mget (meta_annotations ns') k = mget (meta_annotations ns) k"
  shows "stays_put ns ns'"
proof -
  have "ns_path ns' = ns_path ns" "Depth ns' = Depth ns"
    by (simp_all add: ns_path_def DisplayName_def Depth_def mgetd_def get place_key_def)
  moreover have "meta_name ns' = meta_name ns" using assms(1) by (simp add: obj_key_def nnkey_def)
  moreover have "mget (meta_annotations ns') (selector_key i) = mget (meta_annotations ns) (selector_key i)" for i
    by (rule get) (auto simp: place_key_def)
  ultimately show ?thesis using assms(1-5) unfolding stays_put_def keeps_pos_def well_placed_def by simp
qed

lemma role_keys_not_place: "place_key k \<Longrightarrow> k \<noteq> RoleKey \<and> k \<noteq> IsUpperRpKey \<and> k \<noteq> UpperRpKey"
proof -
  have "\<not> Contains RoleKey CrqSelectorKey" "\<not> Contains IsUpperRpKey CrqSelectorKey" "\<not> Contains UpperRpKey CrqSelectorKey"
    by code_simp+
  then have "selector_key i \<noteq> RoleKey" "selector_key i \<noteq> IsUpperRpKey" "selector_key i \<noteq> UpperRpKey" for i
    using selector_key_contains by metis+
  moreover have "DisplayNameKey \<noteq> RoleKey" "DisplayNameKey \<noteq> IsUpperRpKey" "DisplayNameKey \<noteq> UpperRpKey"
    "DepthKey \<noteq> RoleKey" "DepthKey \<noteq> IsUpperRpKey" "DepthKey \<noteq> UpperRpKey" by (simp_all add: key_defs)
  ultimately show "place_key k \<Longrightarrow> k \<noteq> RoleKey \<and> k \<noteq> IsUpperRpKey \<and> k \<noteq> UpperRpKey"
    by (auto simp: place_key_def)
qed

text \<open>The changes of the namespace controller.\<close>

lemma ns_changes_keep_pos:
  "stays_put ns (ns\<lparr>meta_finalizers := fs\<rparr>)"
  "ns_role_update role ns = OK obj \<Longrightarrow> stays_put ns obj"
  "mput_all new (meta_labels ns) = OK m \<Longrightarrow> stays_put ns (ns\<lparr>meta_labels := m\<rparr>)"
  "stays_put ns (ns\<lparr>meta_annotations := (case meta_annotations ns of None \<Rightarrow> Some [(IsUpperRpKey, a), (UpperRpKey, b)]
     | Some old \<Rightarrow> Some (put_all [(IsUpperRpKey, a), (UpperRpKey, b)] old))\<rparr>)"
proof -
  show "stays_put ns (ns\<lparr>meta_finalizers := fs\<rparr>)" by (rule stays_putI) (simp_all add: obj_key_def)
  show "ns_role_update role ns = OK obj \<Longrightarrow> stays_put ns obj"
    by (rule stays_putI; cases "meta_labels ns"; cases "meta_annotations ns")
      (auto simp: ns_role_update_def mput_def obj_key_def dest: role_keys_not_place)
  show "mput_all new (meta_labels ns) = OK m \<Longrightarrow> stays_put ns (ns\<lparr>meta_labels := m\<rparr>)"
    by (rule stays_putI; cases "meta_labels ns") (auto simp: mput_all_def obj_key_def distinct_put_all split: if_splits)
  have "IsUpperRpKey \<noteq> UpperRpKey" by (simp add: key_defs)
  then show "stays_put ns (ns\<lparr>meta_annotations := (case meta_annotations ns of None \<Rightarrow> Some [(IsUpperRpKey, a), (UpperRpKey, b)]
     | Some old \<Rightarrow> Some (put_all [(IsUpperRpKey, a), (UpperRpKey, b)] old))\<rparr>)"
    by (intro stays_putI; cases "meta_annotations ns") (auto simp: obj_key_def dest: role_keys_not_place)
qed

subsection \<open>What the other controllers do to the cluster\<close>

definition calm_laws ::
  "('w, 'q) env \<Rightarrow> ('w \<Rightarrow> objkey \<Rightarrow> 'q subnamespace option) \<Rightarrow> ('w \<Rightarrow> objkey \<Rightarrow> namespace option) \<Rightarrow> bool" where
  "calm_laws E view nsView \<longleftrightarrow> sns_laws E view \<and> ns_laws E nsView \<and>
     leaves (api_rb E) (\<lambda>w. (view w, nsView w)) \<and> leaves (api_cr E) (\<lambda>w. (view w, nsView w)) \<and>
     leaves (api_crb E) (\<lambda>w. (view w, nsView w)) \<and> leaves (api_upq E) (\<lambda>w. (view w, nsView w)) \<and>
     (\<forall>ms w. (view (sleep E ms w), nsView (sleep E ms w)) = (view w, nsView w))"

text \<open>A namespace that keeps its position, or was being deleted and is no more.\<close>

definition kept_or_done :: "namespace \<Rightarrow> namespace option \<Rightarrow> bool" where
  "kept_or_done ns x' = (case x' of None \<Rightarrow> meta_deleting ns | Some ns' \<Rightarrow> stays_put ns ns')"

lemma kept_or_done_simps [simp]:
  "kept_or_done ns (Some ns') = stays_put ns ns'" "kept_or_done ns None = meta_deleting ns"
  by (simp_all add: kept_or_done_def)

text \<open>No subnamespace appears; the namespace \<open>key\<close>, where it is stored, keeps the position of \<open>ns0\<close> or has its
  deletion completed; no other namespace is touched.\<close>

definition calm_frame ::
  "('w, 'q) env \<Rightarrow> ('w \<Rightarrow> objkey \<Rightarrow> 'q subnamespace option) \<Rightarrow> ('w \<Rightarrow> objkey \<Rightarrow> namespace option) \<Rightarrow>
   objkey \<Rightarrow> namespace \<Rightarrow> ('w, 'q) hns \<Rightarrow> ('w, 'q) hns \<Rightarrow> bool" where
  "calm_frame E view nsView key ns0 s s' \<longleftrightarrow> (calm_laws E view nsView \<longrightarrow>
     (\<forall>k. view (world s) k = None \<longrightarrow> view (world s') k = None) \<and>
     (\<forall>k. k \<noteq> key \<longrightarrow> nsView (world s') k = nsView (world s) k) \<and>
     (nsView (world s) key = None \<longrightarrow> nsView (world s') key = None) \<and>
     (\<forall>cur. nsView (world s) key = Some cur \<and> stays_put ns0 cur \<longrightarrow> kept_or_done ns0 (nsView (world s') key)))"

definition calm_ok ::
  "('w, 'q) env \<Rightarrow> ('w \<Rightarrow> objkey \<Rightarrow> 'q subnamespace option) \<Rightarrow> ('w \<Rightarrow> objkey \<Rightarrow> namespace option) \<Rightarrow>
   objkey \<Rightarrow> namespace \<Rightarrow> namespace object_context \<Rightarrow> bool" where
  "calm_ok E view nsView key ns0 r \<longleftrightarrow>
     (calm_laws E view nsView \<longrightarrow> obj_key (oc_object r) = key \<and> stays_put ns0 (oc_object r))"

lemma calm_frame_same:
  "(calm_laws E view nsView \<Longrightarrow> (view (world s'), nsView (world s')) = (view (world s), nsView (world s))) \<Longrightarrow>
   calm_frame E view nsView key ns0 s s'"
  by (auto simp: calm_frame_def)

lemma calm_frame_trans:
  assumes "calm_frame E view nsView key ns0 s t" "calm_frame E view nsView key ns0 t u"
  shows "calm_frame E view nsView key ns0 s u"
  unfolding calm_frame_def
proof (rule impI, intro conjI)
  assume law: "calm_laws E view nsView"
  note st = assms(1) [unfolded calm_frame_def, rule_format, OF law] and tu = assms(2) [unfolded calm_frame_def, rule_format, OF law]
  show "\<forall>k. view (world s) k = None \<longrightarrow> view (world u) k = None"
    "\<forall>k. k \<noteq> key \<longrightarrow> nsView (world u) k = nsView (world s) k"
    "nsView (world s) key = None \<longrightarrow> nsView (world u) key = None" using st tu by simp_all
  show "\<forall>cur. nsView (world s) key = Some cur \<and> stays_put ns0 cur \<longrightarrow> kept_or_done ns0 (nsView (world u) key)"
  proof (intro allI impI)
    fix cur assume "nsView (world s) key = Some cur \<and> stays_put ns0 cur"
    then have "kept_or_done ns0 (nsView (world t) key)" using st by blast
    then show "kept_or_done ns0 (nsView (world u) key)" using tu by (cases "nsView (world t) key") simp_all
  qed
qed

lemma calm_ok_keep: "calm_ok E view nsView key ns0 r \<Longrightarrow> stays_put (oc_object r) obj \<Longrightarrow>
    calm_ok E view nsView key ns0 (r\<lparr>oc_object := obj\<rparr>)"
  by (auto simp: calm_ok_def stays_put_def keeps_pos_def)

lemma calm_laws_both:
  assumes "calm_laws E view nsView"
  shows "leaves (api_rq E) (\<lambda>w. (view w, nsView w))" "leaves (api_crq E) (\<lambda>w. (view w, nsView w))"
  using assms unfolding calm_laws_def sns_laws_def ns_laws_def leaves_def by simp_all

lemma lawful_delete_view:
  assumes "lawful k view" "k_delete k obj w = (e, w')"
  shows "view w' = view w \<or> view w' = (view w)(obj_key obj := None) \<or>
    (\<exists>cur v. view w (obj_key obj) = Some cur \<and>
       view w' = (view w)(obj_key obj \<mapsto> cur\<lparr>meta_deleting := True, meta_version := v\<rparr>))"
proof (cases e)
  case None
  have "\<forall>obj w w'. k_delete k obj w = (None, w') \<longrightarrow> view w' = (view w)(obj_key obj := None) \<or>
      (\<exists>cur. view w (obj_key obj) = Some cur \<and>
         (\<exists>v. view w' = (view w)(obj_key obj \<mapsto> cur\<lparr>meta_deleting := True, meta_version := v\<rparr>)))"
    using assms(1) by (simp add: lawful_def)
  then show ?thesis using assms(2) unfolding None by blast
next
  case (Some err)
  have "\<forall>obj w e w'. k_delete k obj w = (Some e, w') \<longrightarrow> view w' = view w" using assms(1) by (simp add: lawful_def)
  then show ?thesis using assms(2) unfolding Some by blast
qed

text \<open>Subnamespaces are changed and deleted only.\<close>

lemma calm_tame_sns: "tame (calm_frame E view nsView key ns0) (api_sns E)"
  unfolding tame_def
proof (intro allI conjI)
  fix obj and s :: "('a, 'b) hns"
  have ns: "nsView (snd (k_update (api_sns E) obj w)) = nsView w" "nsView (snd (k_delete (api_sns E) obj w)) = nsView w"
    if "calm_laws E view nsView" for w
    using that unfolding calm_laws_def ns_laws_def leaves_def by blast+
  obtain a w' where u: "k_update (api_sns E) obj (world s) = (a, w')" by (cases "k_update (api_sns E) obj (world s)")
  have "view (world s) k = None \<Longrightarrow> view w' k = None" if "calm_laws E view nsView" for k
    using sns_update_view [OF _ u, of view] that by (auto simp: calm_laws_def split: sum.splits if_splits)
  then show "calm_frame E view nsView key ns0 s (s\<lparr>world := snd (k_update (api_sns E) obj (world s))\<rparr>)"
    using ns(1) [of "world s"] u by (auto simp: calm_frame_def)
  obtain e w2 where d: "k_delete (api_sns E) obj (world s) = (e, w2)" by (cases "k_delete (api_sns E) obj (world s)")
  have "view (world s) k = None \<Longrightarrow> view w2 k = None" if "calm_laws E view nsView" for k
  proof -
    assume none: "view (world s) k = None"
    have "lawful (api_sns E) view" using that by (simp add: calm_laws_def sns_laws_def)
    from lawful_delete_view [OF this d] show "view w2 k = None" using none by (elim disjE exE conjE) auto
  qed
  then show "calm_frame E view nsView key ns0 s (s\<lparr>world := snd (k_delete (api_sns E) obj (world s))\<rparr>)"
    using ns(2) [of "world s"] d by (auto simp: calm_frame_def)
qed

lemma calm_update:
  assumes "\<And>obj. upd (oc_object r) = OK obj \<Longrightarrow> calm_ok E view nsView key ns0 (r\<lparr>oc_object := obj\<rparr>)"
  shows "keeps (calm_frame E view nsView key ns0) (calm_ok E view nsView key ns0) (UpdateObjectE (api_ns E) upd r)"
proof (cases "upd (oc_object r)")
  case (OK obj)
  note okay = assms [OF OK]
  show ?thesis
    unfolding keeps_def
  proof (intro allI)
    fix s :: "('a, 'b) hns"
    obtain a w' where aw: "k_update (api_ns E) obj (world s) = (a, w')" by (cases "k_update (api_ns E) obj (world s)")
    have step: "calm_frame E view nsView key ns0 s (s\<lparr>world := w'\<rparr>) \<and>
        (\<forall>obj'. a = Inr obj' \<longrightarrow> calm_ok E view nsView key ns0 (r\<lparr>oc_object := obj'\<rparr>))"
    proof (cases "calm_laws E view nsView")
      case True
      then have "ns_laws E nsView" "leaves (api_ns E) view" by (simp_all add: calm_laws_def sns_laws_leaves)
      note law = finishing_writeD [OF finishesD(3) [OF ns_lawsD(1) [OF this(1)]]]
      have sns: "view w' = view (world s)" using \<open>leaves (api_ns E) view\<close> aw unfolding leaves_def by (metis snd_conv)
      have obj: "obj_key obj = key" "stays_put ns0 obj" using okay True by (simp_all add: calm_ok_def)
      have accept: "calm_frame E view nsView key ns0 s (s\<lparr>world := w'\<rparr>) \<and> obj_key obj' = key \<and> stays_put ns0 obj'"
        if "accepted nsView obj (world s) obj' w'" for obj'
      proof -
        have st: "stored obj obj'" using that by (simp add: accepted_def)
        have "stays_put ns0 obj'" by (rule stays_put_trans [OF obj(2) same_place_stays_put [OF same_place_stored [OF st]]])
        then show ?thesis
          using that stored_key [OF st] obj(1) sns by (auto simp: accepted_def calm_frame_def dest: stays_putD)
      qed
      show ?thesis
      proof (cases a)
        case (Inl e)
        then show ?thesis using law(2) [OF aw [unfolded Inl]] accept sns by (auto simp: calm_frame_same)
      next
        case (Inr obj')
        then show ?thesis using law(1) [OF aw [unfolded Inr]] accept by (simp add: calm_ok_def)
      qed
    qed (simp add: calm_frame_def calm_ok_def)
    show "calm_frame E view nsView key ns0 s (snd (UpdateObjectE (api_ns E) upd r s)) \<and>
        (\<forall>r'. fst (UpdateObjectE (api_ns E) upd r s) = OK r' \<longrightarrow> calm_ok E view nsView key ns0 r')"
      using step okay OK aw
      by (cases a) (auto simp: UpdateObjectE_def UpdateObject_def check_err_def go_defs Let_def calm_frame_same)
  qed
qed (auto simp: keeps_def UpdateObjectE_def UpdateObject_def go_defs calm_frame_same)

interpretation calm: operator_frame "calm_frame E view nsView key ns0" E "calm_ok E view nsView key ns0"
  for E view nsView key ns0
proof
  show "calm_frame E view nsView key ns0 s s" for s by (rule calm_frame_same) simp
  show "calm_frame E view nsView key ns0 s t \<Longrightarrow> calm_frame E view nsView key ns0 t u \<Longrightarrow> calm_frame E view nsView key ns0 s u"
    for s t u by (rule calm_frame_trans)
  have quiet: "quiet (calm_frame E view nsView key ns0) k"
    if "calm_laws E view nsView \<Longrightarrow> leaves k (\<lambda>w. (view w, nsView w))" for k :: "('a, 'o) kind_api"
    by (rule leaves_quiet [OF _ that, where L = "calm_laws E view nsView"]) (auto intro: calm_frame_same)
  show "quiet (calm_frame E view nsView key ns0) (api_rq E)" "quiet (calm_frame E view nsView key ns0) (api_crq E)"
    by (rule quiet, erule calm_laws_both)+
  show "quiet (calm_frame E view nsView key ns0) (api_rb E)" "quiet (calm_frame E view nsView key ns0) (api_cr E)"
    "quiet (calm_frame E view nsView key ns0) (api_crb E)" "quiet (calm_frame E view nsView key ns0) (api_upq E)"
    by (rule quiet, simp add: calm_laws_def)+
  show "calm_frame E view nsView key ns0 s (s\<lparr>world := sleep E ms (world s)\<rparr>)" for s ms
    by (rule calm_frame_same) (simp add: calm_laws_def)
qed (auto intro: calm_tame_sns calm_update calm_ok_keep ns_changes_keep_pos calm_frame_same)

subsection \<open>The tree\<close>

text \<open>Every subnamespace has a name without a slash and lives, where its namespace exists, in one that is well placed,
  at most \<open>d\<close> levels below the root.\<close>

definition tree_placed ::
  "('w \<Rightarrow> objkey \<Rightarrow> 'q subnamespace option) \<Rightarrow> ('w \<Rightarrow> objkey \<Rightarrow> namespace option) \<Rightarrow> int \<Rightarrow> 'w \<Rightarrow> bool" where
  "tree_placed view nsView d w \<longleftrightarrow> (\<forall>k. view w k \<noteq> None \<longrightarrow> CHR ''/'' \<notin> set (key_name k) \<and>
     (\<forall>p. nsView w (nskey (key_namespace k)) = Some p \<longrightarrow> well_placed p \<and> Depth p \<le> d))"

text \<open>What a step of a controller may do: it creates no subnamespace, moves no namespace, removes none but one that was
  already being deleted, and a namespace that it creates is that of a subnamespace, well placed below the
  namespace the subnamespace is in.\<close>

definition grows ::
  "('w \<Rightarrow> objkey \<Rightarrow> 'q subnamespace option) \<Rightarrow> ('w \<Rightarrow> objkey \<Rightarrow> namespace option) \<Rightarrow> 'w \<Rightarrow> 'w \<Rightarrow> bool" where
  "grows view nsView w w' \<longleftrightarrow>
     (\<forall>k. view w k = None \<longrightarrow> view w' k = None) \<and>
     (\<forall>k ns. nsView w k = Some ns \<longrightarrow> kept_or_done ns (nsView w' k)) \<and>
     (\<forall>k ns'. nsView w k = None \<and> nsView w' k = Some ns' \<longrightarrow>
        (\<exists>key p. view w key \<noteq> None \<and> k = nskey (key_name key) \<and> nsView w (nskey (key_namespace key)) = Some p \<and>
           well_placed ns' \<and> ns_path ns' = ns_path p @ [key_name key] \<and> Parent ns' = meta_name p))"

lemma grows_refl: "grows view nsView w w"
  by (auto simp: grows_def)

lemma grows_calm:
  assumes "\<And>k. view w k = None \<Longrightarrow> view w' k = None"
    and "\<And>k ns. nsView w k = Some ns \<Longrightarrow> kept_or_done ns (nsView w' k)"
    and "\<And>k. nsView w k = None \<Longrightarrow> nsView w' k = None"
  shows "grows view nsView w w'"
  using assms unfolding grows_def by fastforce

lemma tree_placed_mono: "tree_placed view nsView d w \<Longrightarrow> d \<le> d' \<Longrightarrow> tree_placed view nsView d' w"
  unfolding tree_placed_def by fastforce

lemma tree_placedD:
  assumes "tree_placed view nsView d w" "view w k \<noteq> None"
  shows "CHR ''/'' \<notin> set (key_name k)" "nsView w (nskey (key_namespace k)) = Some p \<Longrightarrow> well_placed p \<and> Depth p \<le> d"
  using assms unfolding tree_placed_def by simp_all

lemma grows_tree_placed:
  assumes "tree_placed view nsView d w" "grows view nsView w w'"
  shows "tree_placed view nsView (d + 1) w'"
  unfolding tree_placed_def
proof (intro allI impI)
  fix k assume "view w' k \<noteq> None"
  then have k: "view w k \<noteq> None" using assms(2) unfolding grows_def by metis
  have "well_placed p' \<and> Depth p' \<le> d + 1" if p': "nsView w' (nskey (key_namespace k)) = Some p'" for p'
  proof (cases "nsView w (nskey (key_namespace k))")
    case (Some p)
    have p: "well_placed p" "Depth p \<le> d" using tree_placedD(2) [OF assms(1) k Some] by simp_all
    have "kept_or_done p (nsView w' (nskey (key_namespace k)))" using assms(2) Some unfolding grows_def by blast
    then have "stays_put p p'" by (simp add: p')
    then have "well_placed p'" "ns_path p' = ns_path p" using p(1) by (simp_all add: stays_put_def keeps_pos_def)
    then show ?thesis using p by (simp add: well_placed_Depth)
  next
    case None
    then obtain key p where new: "view w key \<noteq> None" "nsView w (nskey (key_namespace key)) = Some p"
        "well_placed p'" "ns_path p' = ns_path p @ [key_name key]"
      using assms(2) p' unfolding grows_def by metis
    have "well_placed p" "Depth p \<le> d" using tree_placedD(2) [OF assms(1) new(1,2)] by simp_all
    then show ?thesis using new(3,4) by (simp add: well_placed_Depth)
  qed
  then show "CHR ''/'' \<notin> set (key_name k) \<and>
      (\<forall>p. nsView w' (nskey (key_namespace k)) = Some p \<longrightarrow> well_placed p \<and> Depth p \<le> d + 1)"
    using tree_placedD(1) [OF assms(1) k] by simp
qed

subsection \<open>The steps\<close>

lemma calm_request:
  assumes "calm_laws E view nsView" "\<And>key ns0. calm_frame E view nsView key ns0 s s'"
  shows "grows view nsView (world s) (world s')"
proof -
  have "nsView (world s') k = nsView (world s) k" for k
  proof -
    have "k \<noteq> nnkey (key_namespace k) (CHR ''x'' # key_name k)" by (cases k) (simp add: nnkey_def)
    then show ?thesis using assms unfolding calm_frame_def by blast
  qed
  moreover have "view (world s) k = None \<Longrightarrow> view (world s') k = None" for k
    using assms unfolding calm_frame_def by blast
  ultimately show ?thesis by (intro grows_calm) simp_all
qed

lemma deleteNamespaceFromNamespaceDB_world: "world (snd (deleteNamespaceFromNamespaceDB n s)) = world s"
  by (auto simp: deleteNamespaceFromNamespaceDB_def bind_reads wrapf_def catch_def fail_def on_forest_def modify_def ret_def
      split: outcome.splits prod.splits if_splits)

lemma ns_request_grows:
  assumes "calm_laws E view nsView"
  shows "grows view nsView (world s) (world (snd (ns_Reconcile E req s)))"
proof -
  have law: "readable (api_ns E) nsView" using assms by (simp add: calm_laws_def ns_lawsD)
  have frame: "calm_frame E view nsView req ns0 s (snd (ns_Reconcile E req s))"
    if "\<And>cur. nsView (world s) req = Some cur \<Longrightarrow> stays_put ns0 cur" for ns0
  proof (rule calm.ns_Reconcile_within)
    fix ns assume "New (api_ns E) (world s) req empty_meta = OK ns" "oc_present ns"
    from New_readable [OF law this] show "calm_ok E view nsView req ns0 ns \<and>
        (\<forall>s. calm_frame E view nsView req ns0 s (snd (deleteNamespaceFromNamespaceDB (oc_name ns) s)))"
      using that by (auto simp: calm_ok_def calm_frame_same deleteNamespaceFromNamespaceDB_world)
  qed
  show ?thesis
  proof (cases "nsView (world s) req")
    case None
    have "calm_frame E view nsView req undefined s (snd (ns_Reconcile E req s))" by (rule frame) (simp add: None)
    then have calm: "\<forall>k. view (world s) k = None \<longrightarrow> view (world (snd (ns_Reconcile E req s))) k = None"
      "\<forall>k. nsView (world (snd (ns_Reconcile E req s))) k = nsView (world s) k"
      using assms None unfolding calm_frame_def by metis+
    then show ?thesis by (intro grows_calm) simp_all
  next
    case (Some ns)
    have "calm_frame E view nsView req ns s (snd (ns_Reconcile E req s))" by (rule frame) (simp add: Some)
    then have calm: "\<forall>k. view (world s) k = None \<longrightarrow> view (world (snd (ns_Reconcile E req s))) k = None"
      "\<forall>k. k \<noteq> req \<longrightarrow> nsView (world (snd (ns_Reconcile E req s))) k = nsView (world s) k"
      "kept_or_done ns (nsView (world (snd (ns_Reconcile E req s))) req)"
      using assms Some unfolding calm_frame_def by simp_all
    show ?thesis
    proof (rule grows_calm)
      show "kept_or_done x (nsView (world (snd (ns_Reconcile E req s))) k)"
        if "nsView (world s) k = Some x" for k x
        using calm(2,3) that Some by (cases "k = req") auto
    qed (use calm(1,2) Some in \<open>simp, metis option.distinct(1)\<close>)
  qed
qed

lemma sns_request_keeps_absent:
  assumes "sns_laws E view" "view (world s) k = None"
  shows "view (world (snd (Reconcile E req s))) k = None"
proof (cases rule: Reconcile_cases [of E req s])
  case nothing
  then show ?thesis using assms(2) by simp
next
  case (handled sns p f)
  note start = placement_start [OF assms(1) handled(1,2)]
  have names: "phase_ok E view req UNIV = names E view req" by (simp add: phase_ok_def names_def fun_eq_iff)
  have "keeps (phase_frame E view req UNIV) (\<lambda>_. True) (f p sns)"
    by (rule phase.keeps_phase_func [OF handled(3)], unfold names)
      (rule start(1), rule TrueI, rule start(4), simp_all add: names_def obj_key_def)
  then have "phase_frame E view req UNIV s (snd (Reconcile E req s))" using handled(4) by (simp add: keeps_def)
  then show ?thesis using assms unfolding phase_frame_def by metis
qed

lemma sns_request_grows:
  assumes "calm_laws E view nsView" "tree_placed view nsView d (world s)" "d + 1 < 2 ^ 63"
  shows "grows view nsView (world s) (world (snd (Reconcile E req s)))"
proof (cases rule: Reconcile_cases [of E req s])
  case nothing
  then show ?thesis by (simp add: grows_refl)
next
  case (handled sns p f)
  have laws: "sns_laws E view" "ns_laws E nsView" "readable (api_ns E) nsView"
    using assms(1) by (simp_all add: calm_laws_def ns_lawsD)
  note start = placement_start [OF laws(1) handled(1,2)]
  have key: "view (world s) req \<noteq> None" using phase_start(1) [OF laws(1) handled(1,2)] by simp
  have read: "New (api_ns E) (world s) (nskey (key_namespace req)) empty_meta = OK p" using handled(5) by (simp add: start(3))
  have p: "nsView (world s) (nskey (key_namespace req)) = Some (oc_object p)" using New_readable [OF laws(3) read handled(6)] by simp
  have placed: "well_placed (oc_object p)" "Depth (oc_object p) \<le> d" using tree_placedD(2) [OF assms(2) key p] by simp_all
  have "Depth (oc_object p) \<ge> 0" using placed(1) by (simp add: well_placed_Depth ns_path_def Suc_le_eq)
  then have "in_i64 (Depth (oc_object p) + 1)" using placed(2) assms(3) by (simp add: in_i64_def)
  note new = Reconcile_places [OF laws(1,2) tree_placedD(1) [OF assms(2) key] read placed(1) this]
  have "kept_or_done ns (nsView (world (snd (Reconcile E req s))) k)" if "nsView (world s) k = Some ns" for k ns
    using new that same_place_stays_put by fastforce
  then show ?thesis
    using new p key sns_request_keeps_absent [OF laws(1)] unfolding grows_def by blast
qed

subsection \<open>Runs\<close>

text \<open>The requests to the controllers, the migrations left out.\<close>

fun controller_request :: "'w request \<Rightarrow> bool" where
  "controller_request (MhRequest req) = False"
| "controller_request (OtherClients w) = False"
| "controller_request r = True"

lemma handle_request_grows:
  assumes "calm_laws E view nsView" "tree_placed view nsView d (world s)" "d + 1 < 2 ^ 63" "controller_request r"
  shows "grows view nsView (world s) (world (handle_request E r s))"
proof -
  have sns: "grows view nsView (world s) (world (snd (Reconcile E req t)))" if "world t = world s" for t req
    using sns_request_grows [OF assms(1) _ assms(3), where s = t] assms(2) that by simp
  have ns: "grows view nsView (world s) (world (snd (ns_Reconcile E req t)))" if "world t = world s" for t req
    using ns_request_grows [OF assms(1), where s = t] that by simp
  show ?thesis
  proof (cases r)
    case (RbRequest req)
    have "grows view nsView (world s) (world (snd (rb_Reconcile E req s)))"
      by (rule calm_request [OF assms(1) keepsD(1) [OF calm.keeps_rb_Reconcile]])
    then show ?thesis by (simp add: RbRequest)
  next
    case (UpqRequest req)
    have "grows view nsView (world s) (world (snd (upq_Reconcile E req s)))"
      by (rule calm_request [OF assms(1) keepsD(1) [OF calm.keeps_upq_Reconcile]])
    then show ?thesis by (simp add: UpqRequest)
  qed (use assms(4) in \<open>auto simp: sns ns grows_refl split: list.split\<close>)
qed

text \<open>
  What the other clients are relied on to do: they delete what they like, give a subnamespace a
  name without a slash, as the webhook demands, and the namespace of a subnamespace is one that
  they have not moved, or a well-placed one not more than \<open>D\<close> levels below the root.
\<close>

definition client_step ::
  "('w \<Rightarrow> objkey \<Rightarrow> 'q subnamespace option) \<Rightarrow> ('w \<Rightarrow> objkey \<Rightarrow> namespace option) \<Rightarrow> int \<Rightarrow> 'w \<Rightarrow> 'w \<Rightarrow> bool" where
  "client_step view nsView D w w' \<longleftrightarrow> (\<forall>k. view w' k \<noteq> None \<longrightarrow>
     (view w k \<noteq> None \<or> CHR ''/'' \<notin> set (key_name k)) \<and>
     (\<forall>p'. nsView w' (nskey (key_namespace k)) = Some p' \<longrightarrow>
        (\<exists>p. view w k \<noteq> None \<and> nsView w (nskey (key_namespace k)) = Some p \<and> keeps_pos p p') \<or>
        well_placed p' \<and> Depth p' \<le> D))"

text \<open>The states reached from \<open>s\<close> by \<open>n\<close> requests, with steps of other clients in between.\<close>

inductive operates ::
  "('w, 'q) env \<Rightarrow> ('w \<Rightarrow> objkey \<Rightarrow> 'q subnamespace option) \<Rightarrow> ('w \<Rightarrow> objkey \<Rightarrow> namespace option) \<Rightarrow> int \<Rightarrow>
   ('w, 'q) hns \<Rightarrow> nat \<Rightarrow> ('w, 'q) hns \<Rightarrow> bool" for E view nsView D s where
  at_start: "operates E view nsView D s 0 s"
| by_controller: "operates E view nsView D s n t \<Longrightarrow> controller_request r \<Longrightarrow>
    operates E view nsView D s (Suc n) (handle_request E r t)"
| by_client: "operates E view nsView D s n t \<Longrightarrow> client_step view nsView D (world t) w \<Longrightarrow>
    operates E view nsView D s n (handle_request E (OtherClients w) t)"

lemma client_step_placed:
  assumes "tree_placed view nsView d w" "client_step view nsView D w w'" "D \<le> d"
  shows "tree_placed view nsView d w'"
  unfolding tree_placed_def
proof (intro allI impI)
  fix k assume k: "view w' k \<noteq> None"
  have step: "view w k \<noteq> None \<or> CHR ''/'' \<notin> set (key_name k)"
    "\<And>p'. nsView w' (nskey (key_namespace k)) = Some p' \<Longrightarrow>
       (\<exists>p. view w k \<noteq> None \<and> nsView w (nskey (key_namespace k)) = Some p \<and> keeps_pos p p') \<or>
       well_placed p' \<and> Depth p' \<le> D"
    using assms(2) k unfolding client_step_def by blast+
  have "well_placed p' \<and> Depth p' \<le> d" if p': "nsView w' (nskey (key_namespace k)) = Some p'" for p'
    using step(2) [OF p']
  proof (elim disjE exE conjE)
    fix p assume p: "view w k \<noteq> None" "nsView w (nskey (key_namespace k)) = Some p" "keeps_pos p p'"
    from tree_placedD(2) [OF assms(1) p(1,2)] p(3) show ?thesis
      using well_placed_Depth [of p] well_placed_Depth [of p'] by (simp add: keeps_pos_def)
  qed (use assms(3) in simp)
  then show "CHR ''/'' \<notin> set (key_name k) \<and> (\<forall>p. nsView w' (nskey (key_namespace k)) = Some p \<longrightarrow> well_placed p \<and> Depth p \<le> d)"
    using step(1) tree_placedD(1) [OF assms(1)] by blast
qed

lemma operates_placed:
  assumes "operates E view nsView D s n t" "calm_laws E view nsView" "tree_placed view nsView D (world s)" "D + int n < 2 ^ 63"
  shows "tree_placed view nsView (D + int n) (world t)"
  using assms(1,4)
proof (induction rule: operates.induct)
  case at_start
  then show ?case using assms(3) by simp
next
  case (by_controller n t r)
  then have "tree_placed view nsView (D + int n) (world t)" "D + int n + 1 < 2 ^ 63" by simp_all
  from grows_tree_placed [OF this(1) handle_request_grows [OF assms(2) this by_controller.hyps(2)]]
  show ?case by (simp add: algebra_simps)
next
  case (by_client n t w)
  then show ?case using client_step_placed [of view nsView "D + int n" "world t" D w] by simp
qed

text \<open>C4: as long as the operator runs, without a migration and with other clients that respect the rules of the
  webhooks, every subnamespace lives in a well-placed namespace; and whatever request a controller handles in such a state, it
  creates no subnamespace, moves no namespace, removes none but one that somebody else was already deleting (the
  controller takes its last finalizer), and creates none but the namespace of a subnamespace, well
  placed below the namespace that the subnamespace is in.\<close>

theorem operates_grows_tree:
  assumes "calm_laws E view nsView" "tree_placed view nsView D (world s)"
    and "operates E view nsView D s n t" "D + int n + 1 < 2 ^ 63"
  shows "tree_placed view nsView (D + int n) (world t) \<and>
    (\<forall>r. controller_request r \<longrightarrow> grows view nsView (world t) (world (handle_request E r t)))"
proof -
  have "tree_placed view nsView (D + int n) (world t)" by (rule operates_placed [OF assms(3,1,2)]) (use assms(4) in simp)
  then show ?thesis using handle_request_grows [OF assms(1) _ assms(4)] by blast
qed

subsection \<open>An instance\<close>

text \<open>The controller creates the namespace of \<open>e\<close> under \<open>c\<close>; a user creates the subnamespace \<open>f\<close> in it.\<close>

definition with_e :: "(mem, int \<times> string) hns" where
  "with_e = handle_request mem_env (SnsRequest (nnkey ''c'' ''e'')) (mem_state placed_e sample_forest)"

definition user_f :: "mem \<Rightarrow> mem" where
  "user_f w = w\<lparr>mem_sns := mk_sns ''e'' ''f'' Missing [(''cpu'', 1)] # mem_sns w\<rparr>"

definition by_user_f :: "(mem, int \<times> string) hns \<Rightarrow> (mem, int \<times> string) hns" where
  "by_user_f s = handle_request mem_env (OtherClients (user_f (world s))) s"

definition with_f :: "(mem, int \<times> string) hns" where
  "with_f = by_user_f with_e"

lemma mem_calm_laws: "calm_laws mem_env (mem_view mem_sns) (mem_view mem_ns)"
proof -
  have "leaves (api_rb mem_env) (\<lambda>w. (mem_view mem_sns w, mem_view mem_ns w))"
    "leaves (api_cr mem_env) (\<lambda>w. (mem_view mem_sns w, mem_view mem_ns w))"
    "leaves (api_crb mem_env) (\<lambda>w. (mem_view mem_sns w, mem_view mem_ns w))"
    "leaves (api_upq mem_env) (\<lambda>w. (mem_view mem_sns w, mem_view mem_ns w))"
    by (simp_all add: mem_env_def mem_api_leaves)
  then show ?thesis using mem_sns_laws mem_ns_laws by (simp add: calm_laws_def mem_env_def)
qed

definition mem_placed :: "int \<Rightarrow> mem \<Rightarrow> bool" where
  "mem_placed d w = list_all (\<lambda>sns. CHR ''/'' \<notin> set (meta_name sns) \<and>
     (case mem_find (nskey (meta_namespace sns)) (mem_ns w) of None \<Rightarrow> True | Some p \<Rightarrow> well_placed p \<and> Depth p \<le> d))
     (mem_sns w)"

lemma mem_find_in: "mem_find k objs = Some obj \<Longrightarrow> obj \<in> set objs \<and> k = nnkey (meta_namespace obj) (meta_name obj)"
  by (induction objs) (auto simp: obj_key_def split: if_splits)

lemma mem_tree_placed: "mem_placed d w \<Longrightarrow> tree_placed (mem_view mem_sns) (mem_view mem_ns) d w"
  by (fastforce simp: tree_placed_def mem_placed_def list_all_iff nnkey_def dest: mem_find_in)

lemma placed_e_steps:
  "mem_placed 4 placed_e"
  "(case mem_find (nskey ''e'') (mem_ns (world with_e)) of None \<Rightarrow> False | Some p \<Rightarrow> well_placed p \<and> Depth p \<le> 4)"
  by code_simp+

lemma no_f_yet: "mem_find (nskey ''f'') (mem_ns (world with_f)) = None"
  by code_simp

lemma then_f: "(case mem_find (nskey ''f'') (mem_ns (world (handle_request mem_env (SnsRequest (nnkey ''e'' ''f'')) with_f))) of
    None \<Rightarrow> False | Some _ \<Rightarrow> True)"
  by code_simp

lemma with_f_reached:
  "operates mem_env (mem_view mem_sns) (mem_view mem_ns) 4 (mem_state placed_e sample_forest) 1 with_f"
proof -
  have "operates mem_env (mem_view mem_sns) (mem_view mem_ns) 4 (mem_state placed_e sample_forest) 1 with_e"
    unfolding with_e_def using by_controller [OF at_start, of "SnsRequest (nnkey ''c'' ''e'')"] by simp
  then show ?thesis
    unfolding with_f_def by_user_f_def
  proof (rule by_client)
    have "CHR ''/'' \<notin> set ''f''" by simp
    then show "client_step (mem_view mem_sns) (mem_view mem_ns) 4 (world with_e)
        (user_f (world with_e))"
      using placed_e_steps(2)
      by (auto simp: client_step_def user_f_def mk_sns_def obj_key_def nnkey_def split: option.splits if_splits)
  qed
qed

theorem operates_grows_tree_witness:
  "\<exists>ns. mem_find (nskey ''f'') (mem_ns (world (handle_request mem_env (SnsRequest (nnkey ''e'' ''f'')) with_f))) = Some ns \<and>
     well_placed ns"
proof -
  have start: "tree_placed (mem_view mem_sns) (mem_view mem_ns) 4 (world (mem_state placed_e sample_forest))"
    using mem_tree_placed [OF placed_e_steps(1)] by (simp add: mem_state_def)
  have "(4 :: int) + int 1 + 1 < 2 ^ 63" by simp
  from operates_grows_tree [OF mem_calm_laws start with_f_reached this]
  have "grows (mem_view mem_sns) (mem_view mem_ns) (world with_f)
      (world (handle_request mem_env (SnsRequest (nnkey ''e'' ''f'')) with_f))"
    using controller_request.simps by blast
  moreover obtain ns where
    "mem_find (nskey ''f'') (mem_ns (world (handle_request mem_env (SnsRequest (nnkey ''e'' ''f'')) with_f))) = Some ns"
    using then_f by (auto split: option.splits)
  ultimately show ?thesis using no_f_yet unfolding grows_def by blast
qed

end
