(* ===== verification/SnsProgress.thy ===== *)
theory SnsProgress
  imports SnsPlacement RoleBinding
begin

section \<open>Progress of a subnamespace\<close>

text \<open>
  A reconciliation that returns without an error and does not ask to be called again has moved the
  phase of the subnamespace a step. The code takes an update that meets a conflict for a success,
  so this needs that the context stays current: nobody else writes the subnamespace between the
  steps of one reconciliation, and each update hands back what is stored. When the phase is
  Created, the namespace and a quota object of the subnamespace exist.
\<close>

subsection \<open>Contexts that are current\<close>

definition current ::
  "('w \<Rightarrow> objkey \<Rightarrow> 'a object_meta_scheme option) \<Rightarrow> objkey \<Rightarrow> 'a object_meta_scheme object_context \<Rightarrow> ('w, 'q) hns \<Rightarrow> bool" where
  "current view key r t \<longleftrightarrow> oc_present r \<and> obj_key (oc_object r) = key \<and>
     (\<exists>cur. view (world t) key = Some cur \<and> meta_version cur = meta_version (oc_object r))"

text \<open>What the update of a current context stores.\<close>

definition updated ::
  "('w \<Rightarrow> objkey \<Rightarrow> 'a object_meta_scheme option) \<Rightarrow> objkey \<Rightarrow> 'a object_meta_scheme outcome \<Rightarrow> 'a object_meta_scheme object_context \<Rightarrow>
   ('w, 'q) hns \<Rightarrow> bool" where
  "updated view key sent r t \<longleftrightarrow> current view key r t \<and> view (world t) key = Some (oc_object r) \<and>
     (\<exists>obj. sent = OK obj \<and> stored obj (oc_object r))"

lemma update_triple:
  assumes "lawful k view" "\<And>obj. upd (oc_object r) = OK obj \<Longrightarrow> obj_key obj = obj_key (oc_object r) \<and> meta_version obj = meta_version (oc_object r)"
  shows "triple (current view key r) (UpdateObjectE k upd r) (updated view key (upd (oc_object r))) (\<lambda>_. True)"
proof (rule tripleI)
  fix s r' s'
  assume cur: "current view key r s" and run: "UpdateObjectE k upd r s = (OK r', s')"
  have law: "lawful_write view (k_update k)" by (rule lawful_writeD(1) [OF assms(1)])
  obtain obj where obj: "upd (oc_object r) = OK obj"
    using run by (cases "upd (oc_object r)") (auto simp: UpdateObjectE_def UpdateObject_def go_defs)
  have same: "obj_key obj = key" "meta_version obj = meta_version (oc_object r)" "oc_present r"
    using assms(2) [OF obj] cur by (simp_all add: current_def)
  obtain a w' where aw: "k_update k obj (world s) = (a, w')" by (cases "k_update k obj (world s)")
  show "updated view key (upd (oc_object r)) r' s'"
  proof (cases a)
    case (Inl e)
    have "\<not> IsConflict e"
    proof
      assume "IsConflict e"
      from lawful_write_ConflictD [OF law aw [unfolded Inl] this] show False
        using cur same by (auto simp: current_def)
    qed
    then show ?thesis
      using run obj aw Inl same(3) by (auto simp: UpdateObjectE_def UpdateObject_def check_err_def go_defs Let_def)
  next
    case (Inr obj')
    note stored = lawful_write_OKD(1,2) [OF law aw [unfolded Inr]]
    have "r' = r\<lparr>oc_object := obj'\<rparr>" "world s' = w'"
      using run obj aw Inr same(3) by (auto simp: UpdateObjectE_def UpdateObject_def check_err_def go_defs Let_def)
    then show ?thesis
      using stored stored_key [OF stored(1)] same obj by (auto simp: updated_def current_def)
  qed
qed simp_all

lemma updated_current: "updated view key sent r t \<Longrightarrow> current view key r t"
  by (simp add: updated_def)

subsection \<open>Quota objects that are there\<close>

text \<open>A context that is present is so because the object is stored.\<close>

definition backed ::
  "('w \<Rightarrow> objkey \<Rightarrow> 'a object_meta_scheme option) \<Rightarrow> objkey \<Rightarrow> 'a object_meta_scheme object_context \<Rightarrow> ('w, 'q) hns \<Rightarrow> bool" where
  "backed view key r t \<longleftrightarrow> obj_key (oc_object r) = key \<and> (oc_present r \<longrightarrow> view (world t) key \<noteq> None)"

lemma New_backed: "lawful k view \<Longrightarrow> New k (world t) key obj = OK r \<Longrightarrow> obj_key obj = key \<Longrightarrow> backed view key r t"
  by (erule New_cases) (auto simp: backed_def dest: lawful_getD)

lemma update_backed:
  assumes "lawful k view" "\<And>obj. upd (oc_object r) = OK obj \<Longrightarrow> obj_key obj = obj_key (oc_object r)"
  shows "triple (backed view key r) (UpdateObjectE k upd r) (\<lambda>r'. backed view key r') (\<lambda>_. True)"
proof (rule tripleI)
  fix s r' s'
  assume r: "backed view key r s" and run: "UpdateObjectE k upd r s = (OK r', s')"
  have law: "lawful_write view (k_update k)" by (rule lawful_writeD(1) [OF assms(1)])
  obtain obj where obj: "upd (oc_object r) = OK obj"
    using run by (cases "upd (oc_object r)") (auto simp: UpdateObjectE_def UpdateObject_def go_defs)
  have key: "obj_key obj = key" using assms(2) [OF obj] r by (simp add: backed_def)
  obtain a w' where aw: "k_update k obj (world s) = (a, w')" by (cases "k_update k obj (world s)")
  show "backed view key r' s'"
  proof (cases "oc_present r")
    case False
    then show ?thesis
      using run obj key by (auto simp: UpdateObjectE_def UpdateObject_def check_err_def go_defs Let_def backed_def)
  next
    case True
    show ?thesis
    proof (cases a)
      case (Inl e)
      then have "view w' = view (world s)" using lawful_write_ErrD [OF law] aw by blast
      then show ?thesis
        using run obj aw Inl True key r
        by (auto simp: UpdateObjectE_def UpdateObject_def check_err_def go_defs Let_def backed_def split: if_splits)
    next
      case (Inr obj')
      note stored = lawful_write_OKD(1,2) [OF law aw [unfolded Inr]]
      then show ?thesis
        using run obj aw Inr True key stored_key [OF stored(1)]
        by (auto simp: UpdateObjectE_def UpdateObject_def check_err_def go_defs Let_def backed_def)
    qed
  qed
qed simp_all

lemma create_backed:
  assumes "lawful k view"
  shows "triple (backed view key r) (EnsureCreate k r) (\<lambda>_ t. view (world t) key \<noteq> None) (\<lambda>_. True)"
proof (rule tripleI)
  fix s r' s'
  assume r: "backed view key r s" and run: "EnsureCreate k r s = (OK r', s')"
  show "view (world s') key \<noteq> None"
  proof (cases "oc_present r")
    case True
    then show ?thesis using run r by (simp add: EnsureCreate_def IsPresent_def ret_def backed_def)
  next
    case False
    obtain a w' where aw: "k_create k (oc_object r) (world s) = (a, w')" by (cases "k_create k (oc_object r) (world s)")
    have exists: "IsAlreadyExists e \<longrightarrow> view w' (obj_key (oc_object r)) \<noteq> None" if "a = Inl e" for e
      using assms aw that unfolding lawful_def by metis
    have new: "view w' (obj_key (oc_object r)) \<noteq> None" if "a = Inr obj" for obj
    proof -
      have "view w' = (view (world s))(obj_key (oc_object r) \<mapsto> obj)" using assms aw that unfolding lawful_def by metis
      then show ?thesis by simp
    qed
    show ?thesis
      using run aw False exists new r
      by (cases a) (auto simp: EnsureCreate_def IsPresent_def CreateObject_def backed_def split: if_splits)
  qed
qed simp_all

text \<open>The quota object of a name: a ResourceQuota in its namespace, or a ClusterResourceQuota.\<close>

definition quota_there ::
  "('w \<Rightarrow> objkey \<Rightarrow> 'q resource_quota option) \<Rightarrow> ('w \<Rightarrow> objkey \<Rightarrow> 'q cluster_resource_quota option) \<Rightarrow> string \<Rightarrow> 'w \<Rightarrow> bool" where
  "quota_there rqView crqView n w \<longleftrightarrow> rqView w (nnkey n n) \<noteq> None \<or> crqView w (nskey n) \<noteq> None"

definition quota_backed ::
  "('w \<Rightarrow> objkey \<Rightarrow> 'q resource_quota option) \<Rightarrow> ('w \<Rightarrow> objkey \<Rightarrow> 'q cluster_resource_quota option) \<Rightarrow> string \<Rightarrow>
   'q quota_context \<Rightarrow> ('w, 'q) hns \<Rightarrow> bool" where
  "quota_backed rqView crqView n q t \<longleftrightarrow>
     (case q of RQ r \<Rightarrow> backed rqView (nnkey n n) r t | CRQ r \<Rightarrow> backed crqView (nskey n) r t)"

definition progress_laws ::
  "('w, 'q) env \<Rightarrow> ('w \<Rightarrow> objkey \<Rightarrow> 'q subnamespace option) \<Rightarrow> ('w \<Rightarrow> objkey \<Rightarrow> namespace option) \<Rightarrow>
   ('w \<Rightarrow> objkey \<Rightarrow> 'q resource_quota option) \<Rightarrow> ('w \<Rightarrow> objkey \<Rightarrow> 'q cluster_resource_quota option) \<Rightarrow> bool" where
  "progress_laws E view nsView rqView crqView \<longleftrightarrow> sns_laws E view \<and> ns_laws E nsView \<and>
     lawful (api_rq E) rqView \<and> lawful (api_crq E) crqView \<and>
     leaves (api_sns E) (\<lambda>w. (rqView w, crqView w)) \<and> leaves (api_lr E) (\<lambda>w. (rqView w, crqView w))"

lemma progress_lawsD:
  assumes "progress_laws E view nsView rqView crqView"
  shows "sns_laws E view" "ns_laws E nsView" "lawful (api_sns E) view" "lawful (api_rq E) rqView" "lawful (api_crq E) crqView"
  using assms by (simp_all add: progress_laws_def sns_laws_def)

lemma setupObject_backed:
  fixes E :: "('w, 'q) env"
  assumes "progress_laws E view nsView rqView crqView" "setupObject E (world t) n isRq resources sns = OK q"
  shows "quota_backed rqView crqView n q t"
proof -
  note law = progress_lawsD [OF assms(1)]
  have "obj_key (composeRQ n n h) = nnkey n n" "obj_key (composeCRQ n h m) = nskey n" for h :: "'q resource_list" and m
    by (simp_all add: composeRQ_def composeCRQ_def obj_key_def nskey_def nnkey_def empty_crq_def empty_meta_def object_meta.defs)
  then show ?thesis
    using assms(2)
    by (auto simp: setupObject_def quota_backed_def obind_OK_iff split: if_splits
        elim!: New_backed [OF law(4)] New_backed [OF law(5)])
qed

lemma quota_create_triple:
  assumes "progress_laws E view nsView rqView crqView"
  shows "triple (quota_backed rqView crqView n q) (quota_EnsureCreate E q)
    (\<lambda>_ t. quota_there rqView crqView n (world t)) (\<lambda>_. True)"
proof -
  note law = progress_lawsD [OF assms]
  show ?thesis
    by (cases q; simp add: quota_backed_def [abs_def]; rule triple_bind [OF create_backed triple_ret])
      (auto intro: law simp: quota_there_def)
qed

lemma quota_update_triple:
  assumes "progress_laws E view nsView rqView crqView"
  shows "triple (quota_backed rqView crqView n q) (UpdateQuotaObject E q h isRq)
    (\<lambda>q'. quota_backed rqView crqView n q') (\<lambda>_. True)"
proof -
  note law = progress_lawsD [OF assms]
  have rq: "triple (backed rqView (nnkey n n) r) (UpdateObjectE (api_rq E) (\<lambda>obj. OK (obj\<lparr>rq_hard := h\<rparr>)) r)
      (\<lambda>r'. backed rqView (nnkey n n) r') (\<lambda>_. True)" for r
    by (rule update_backed [OF law(4)]) (auto simp: obj_key_def)
  have crq: "triple (backed crqView (nskey n) r) (UpdateObjectE (api_crq E) (\<lambda>obj. OK (obj\<lparr>crq_hard := h\<rparr>)) r)
      (\<lambda>r'. backed crqView (nskey n) r') (\<lambda>_. True)" for r
    by (rule update_backed [OF law(5)]) (auto simp: obj_key_def)
  show ?thesis
    by (cases q; cases isRq; simp add: UpdateQuotaObject_def quota_backed_def [abs_def];
        (rule triple_fail, simp)?; (rule triple_bind [OF rq triple_ret] triple_bind [OF crq triple_ret], simp)?)
qed

lemma ensure_quota_triple:
  assumes "progress_laws E view nsView rqView crqView"
  shows "triple (\<lambda>_. True) (ensure_quota_object E sns isRq h) (\<lambda>_ t. quota_there rqView crqView (oc_name sns) (world t)) (\<lambda>_. True)"
proof -
  have compose: "triple (\<lambda>_. True) (reads (\<lambda>s. setupObject E (world s) (oc_name sns) isRq h sns))
      (quota_backed rqView crqView (oc_name sns)) (\<lambda>_. True)"
    by (rule triple_reads) (auto intro: setupObject_backed [OF assms])
  have upd: "triple (quota_backed rqView crqView (oc_name sns) q) (if c then UpdateQuotaObject E q h isRq else ret q)
      (quota_backed rqView crqView (oc_name sns)) (\<lambda>_. True)" for q c
    by (rule triple_if [OF quota_update_triple [OF assms] triple_ret]) assumption
  show ?thesis
    unfolding ensure_quota_object_def
    by (rule triple_bind [OF compose], rule triple_bind [OF upd], rule triple_bind [OF quota_create_triple [OF assms]],
        rule triple_ret)
qed

lemma default_quota_triple:
  fixes E :: "('w, 'q) env"
  assumes "progress_laws E view nsView rqView crqView"
  shows "triple (\<lambda>_. True) (CreateDefaultSNSResourceQuota E sns) (\<lambda>_ t. quota_there rqView crqView (oc_name sns) (world t)) (\<lambda>_. True)"
proof -
  let ?n = "oc_name sns"
  have key: "obj_key (composeRQ ?n ?n h) = nnkey ?n ?n" for h :: "'q resource_list" by (simp add: composeRQ_def obj_key_def)
  have new: "triple (\<lambda>_. True) (reads (\<lambda>s. New (api_rq E) (world s) (nnkey ?n ?n) (composeRQ ?n ?n (Some (DefaultQuotaHard E)))))
      (backed rqView (nnkey ?n ?n)) (\<lambda>_. True)"
    by (rule triple_reads) (auto intro: New_backed [OF progress_lawsD(4) [OF assms]] key)
  show ?thesis
    unfolding CreateDefaultSNSResourceQuota_def Let_def
    by (rule triple_bind [OF new], rule triple_bind [OF create_backed [OF progress_lawsD(4) [OF assms]]], rule triple_ret)
      (simp add: quota_there_def)
qed

subsection \<open>Steps that leave an abstraction of the cluster alone\<close>

definition unseen :: "('w \<Rightarrow> 'v) \<Rightarrow> ('w, 'q) hns \<Rightarrow> ('w, 'q) hns \<Rightarrow> bool" where
  "unseen v s s' \<longleftrightarrow> v (world s') = v (world s)"

interpretation unseen: hns_frame "unseen v" for v
  by unfold_locales (simp_all add: unseen_def)

lemma leaves_unseen: "leaves k v \<Longrightarrow> quiet (unseen v) k" "leaves k v \<Longrightarrow> tame (unseen v) k"
  by (auto simp: quiet_def tame_def leaves_def unseen_def)

lemma keeps_db_unseen: "keeps (unseen v) (\<lambda>_. True) (EnsureSNSInDB E r)"
  by (simp add: keeps_def unseen_def EnsureSNSInDB_world)

lemma keeps_limits_unseen: "leaves (api_lr E) v \<Longrightarrow> keeps (unseen v) (\<lambda>_. True) (CreateDefaultSNSLimitRange E r)"
  unfolding CreateDefaultSNSLimitRange_def Let_def
  by (intro unseen.keeps_bind [where Q = "\<lambda>_. True"] unseen.keeps_wrapf unseen.keeps_reads unseen.keeps_ret
      unseen.keeps_EnsureCreate leaves_unseen TrueI)

text \<open>The steps about quotas, with the frame of the subnamespace controller where nothing is asked of its updates.\<close>

definition quota_steps :: "('w, 'q) env \<Rightarrow> ('w \<Rightarrow> 'v) \<Rightarrow> ('w, 'q) hns \<Rightarrow> ('w, 'q) hns \<Rightarrow> bool" where
  "quota_steps E v s s' \<longleftrightarrow>
     (leaves (api_rq E) v \<and> leaves (api_crq E) v \<and> leaves (api_lr E) v \<longrightarrow> v (world s') = v (world s))"

interpretation quota_steps: sns_frame "quota_steps E v" E "\<lambda>_. False" "\<lambda>_. False" for E v
proof
  have quiet: "quiet (quota_steps E v) k"
    if "leaves (api_rq E) v \<and> leaves (api_crq E) v \<and> leaves (api_lr E) v \<Longrightarrow> leaves k v" for k :: "('a, 'o) kind_api"
    using that by (auto simp: quiet_def quota_steps_def leaves_def)
  show "quiet (quota_steps E v) (api_rq E)" "quiet (quota_steps E v) (api_crq E)" "quiet (quota_steps E v) (api_lr E)"
    by (rule quiet, simp)+
  show "keeps (quota_steps E v) (\<lambda>_. False) (UpdateObjectE (api_sns E) upd r)"
    if "\<And>obj. upd (oc_object r) = OK obj \<Longrightarrow> False" for upd r
    using that by (cases "upd (oc_object r)") (auto simp: keeps_def UpdateObjectE_def UpdateObject_def go_defs quota_steps_def)
qed (auto simp: quota_steps_def)

lemma current_quota_steps:
  "sns_laws E view \<Longrightarrow> current view key r s \<Longrightarrow> quota_steps E view s t \<Longrightarrow> current view key r t"
  by (simp add: quota_steps_def sns_laws_leaves current_def)

lemma current_name: "current view key r t \<Longrightarrow> oc_name r = key_name key"
  by (auto simp: current_def obj_key_def nnkey_def)

lemma triple_same: "triple P (reads f) (\<lambda>_. P) (\<lambda>_. True)" "triple P (lift x) (\<lambda>_. P) (\<lambda>_. True)"
  "(\<And>s. P s \<Longrightarrow> Q s) \<Longrightarrow> triple P (ret a) (\<lambda>_. Q) X"
  by (rule tripleI; auto simp: reads_def lift_def ret_def)+

lemma triple_replacef: "triple P m Q (\<lambda>_. True) \<Longrightarrow> triple P (replacef f as m) Q (\<lambda>_. True)"
  unfolding replacef_def by (rule triple_catch) (auto intro: triple_fail)

subsection \<open>init\<close>

text \<open>A triple about the context of the subnamespace that its quota object is added to.\<close>

lemma quota_and_current:
  assumes "sns_laws E view" "triple (\<lambda>_. True) m (\<lambda>_ t. quota_there rqView crqView n (world t)) (\<lambda>_. True)"
    "keeps (quota_steps E view) T m"
  shows "triple (current view key r) m (\<lambda>_ t. quota_there rqView crqView n (world t) \<and> current view key r t) (\<lambda>_. True)"
proof -
  have "triple (\<lambda>t. True \<and> current view key r t) m
      (\<lambda>_ t. quota_there rqView crqView n (world t) \<and> current view key r t) (\<lambda>_. True)"
    by (rule triple_and_keeps [OF assms(2,3)]) (rule current_quota_steps [OF assms(1)])
  then show ?thesis by simp
qed

lemma ensure_object_triple:
  assumes "progress_laws E view nsView rqView crqView"
  shows "triple (current view key r) (EnsureSubnamespaceObject E r isRq)
    (\<lambda>p t. current view key (snd p) t \<and> (\<not> fst p \<longrightarrow> quota_there rqView crqView (key_name key) (world t))) (\<lambda>_. True)"
proof -
  note law = progress_lawsD [OF assms]
  have quota: "triple (current view key r) (ensure_quota_object E r isRq h)
      (\<lambda>_ t. quota_there rqView crqView (key_name key) (world t) \<and> current view key r t) (\<lambda>_. True)" for r h
  proof -
    have "triple (\<lambda>t. current view key r t) (ensure_quota_object E r isRq h)
        (\<lambda>_ t. quota_there rqView crqView (oc_name r) (world t) \<and> current view key r t) (\<lambda>_. True)"
      by (rule quota_and_current [OF law(1) ensure_quota_triple [OF assms] quota_steps.keeps_ensure_quota_object])
    then show ?thesis by (rule triple_conseq) (auto dest: current_name)
  qed
  have create: "triple (current view key r) (quota_EnsureCreate E q) (\<lambda>_. current view key r) (current view key r)" for q r
    by (rule triple_keeps [OF quota_steps.keeps_quota(1)]) (rule current_quota_steps [OF law(1)])
  have create': "triple (current view key r) (quota_EnsureCreate E q) (\<lambda>_. current view key r) (\<lambda>_. True)" for q r
    by (rule triple_conseq [OF create]) simp_all
  have spec: "triple (current view key r) (updateSubnamespaceSpec E r h) (\<lambda>r'. current view key r') (\<lambda>_. True)" for h
    unfolding updateSubnamespaceSpec_def
    by (rule triple_conseq [OF update_triple [OF law(3)]]) (auto simp: obj_key_def dest: updated_current)
  show ?thesis
    unfolding EnsureSubnamespaceObject_def Let_def
  proof (rule triple_bind [OF triple_same(1)], rule triple_if)
    show "triple (current view key r)
        (bind (reads (\<lambda>s. setupObject E (world s) (oc_name r) isRq observed r)) (\<lambda>quotaObject.
         bind (quota_EnsureCreate E quotaObject) (\<lambda>_. bind (reads (\<lambda>s. used E (world s) r)) (\<lambda>quotaObjectUsed.
         if quotaObjectUsed = None then ret (True, r)
         else bind (updateSubnamespaceSpec E r quotaObjectUsed) (\<lambda>snsObject.
              bind (ensure_quota_object E snsObject isRq quotaObjectUsed) (\<lambda>_. ret (False, snsObject)))))))
        (\<lambda>p t. current view key (snd p) t \<and> (\<not> fst p \<longrightarrow> quota_there rqView crqView (key_name key) (world t))) (\<lambda>_. True)"
      for observed
      by (rule triple_bind [OF triple_same(1)], rule triple_bind [OF create'], rule triple_bind [OF triple_same(1)], rule triple_if,
          rule triple_ret, simp, rule triple_bind [OF spec], rule triple_bind [OF quota], rule triple_ret) simp
    show "triple (current view key r)
        (bind (ensure_quota_object E r isRq (SubnamespaceSpec (oc_object r))) (\<lambda>_. ret (False, r)))
        (\<lambda>p t. current view key (snd p) t \<and> (\<not> fst p \<longrightarrow> quota_there rqView crqView (key_name key) (world t))) (\<lambda>_. True)"
      by (rule triple_bind [OF quota], rule triple_ret) simp
  qed
qed

text \<open>What \<^verbatim>\<open>init\<close> has reached when it returns without asking to be called again.\<close>

definition finished ::
  "('w \<Rightarrow> objkey \<Rightarrow> 'q subnamespace option) \<Rightarrow> ('w \<Rightarrow> objkey \<Rightarrow> 'q resource_quota option) \<Rightarrow>
   ('w \<Rightarrow> objkey \<Rightarrow> 'q cluster_resource_quota option) \<Rightarrow> objkey \<Rightarrow> 'w \<Rightarrow> bool" where
  "finished view rqView crqView key w \<longleftrightarrow> quota_there rqView crqView (key_name key) w \<and>
     (\<exists>obj. view w key = Some obj \<and> sns_phase obj = Created)"

lemma init_finish_triple:
  assumes "progress_laws E view nsView rqView crqView"
  shows "triple (\<lambda>t. quota_there rqView crqView (key_name key) (world t) \<and> current view key r t) (init_finish E p isRq r)
    (\<lambda>_ t. finished view rqView crqView key (world t)) (\<lambda>_. True)"
proof -
  note law = progress_lawsD [OF assms]
  let ?quota = "\<lambda>t. quota_there rqView crqView (key_name key) (world t)"
  have leave: "leaves (api_lr E) (\<lambda>w. (rqView w, crqView w))" "leaves (api_sns E) (\<lambda>w. (rqView w, crqView w))"
    using assms by (simp_all add: progress_laws_def)
  have stays: "?quota s \<Longrightarrow> unseen (\<lambda>w. (rqView w, crqView w)) s s' \<Longrightarrow> ?quota s'" for s s'
    by (simp add: unseen_def quota_there_def)
  have both: "triple (\<lambda>t. ?quota t \<and> current view key r t) m (\<lambda>_ t. ?quota t \<and> current view key r t) (\<lambda>_. True)"
    if "keeps (unseen (\<lambda>w. (rqView w, crqView w))) (\<lambda>_. True) m" "keeps (unseen view) (\<lambda>_. True) m"
    for r and m :: "(('a, 'b) hns, unit) prog"
  proof -
    have "triple ?quota m (\<lambda>_. ?quota) (\<lambda>_. True)"
      by (rule triple_conseq [OF triple_keeps [OF that(1), where P = ?quota]]) (auto dest: stays)
    then show ?thesis
      by (rule triple_and_keeps [OF _ that(2)]) (auto simp: unseen_def current_def)
  qed
  have update: "triple (\<lambda>t. ?quota t \<and> current view key r t) (UpdateObjectE (api_sns E) upd r)
      (\<lambda>r' t. ?quota t \<and> updated view key (upd (oc_object r)) r' t) (\<lambda>_. True)"
    if "\<And>obj. upd (oc_object r) = OK obj \<Longrightarrow> obj_key obj = obj_key (oc_object r) \<and> meta_version obj = meta_version (oc_object r)"
    for r upd
    by (rule triple_conseq [OF triple_and_keeps [OF update_triple [where upd = upd, OF law(3) that]
          unseen.keeps_UpdateObjectE [OF leaves_unseen(2) [OF leave(2)]], where V = ?quota]]) (auto dest: stays)
  have append: "triple (\<lambda>t. ?quota t \<and> current view key r t) (AppendAnnotations (api_sns E) new r)
      (\<lambda>r' t. ?quota t \<and> current view key r' t) (\<lambda>_. True)" for new
    unfolding AppendAnnotations_def Let_def
    by (rule triple_conseq [OF update]) (auto simp: current_def obj_key_def updated_def)
  have phase: "triple (\<lambda>t. ?quota t \<and> current view key r t) (UpdateObjectE (api_sns E) (set_phase Created) r)
      (\<lambda>_ t. finished view rqView crqView key (world t)) (\<lambda>_. True)" for r
    by (rule triple_conseq [OF update])
      (auto simp: set_phase_def obj_key_def updated_def finished_def dest: stored_phase)
  show ?thesis
    unfolding init_finish_def Let_def
    by (rule triple_bind [OF triple_wrapf [OF both]], (rule keeps_limits_unseen, simp add: leave sns_laws_leaves [OF law(1)])+,
        rule triple_bind [OF triple_wrapf [OF append]],
        rule triple_bind [OF triple_replacef [OF both [OF keeps_db_unseen keeps_db_unseen]]],
        rule triple_bind [OF triple_replacef [OF phase]], rule triple_ret)
qed

lemma init_triple:
  assumes "progress_laws E view nsView rqView crqView"
  shows "triple (current view key r) (init E p r)
    (\<lambda>res t. \<not> res \<longrightarrow> finished view rqView crqView key (world t)) (\<lambda>_. True)"
proof -
  note law = progress_lawsD [OF assms]
  have create: "triple (current view key r) (createSNSNamespace E p r) (\<lambda>_. current view key r) (\<lambda>_. True)"
    by (rule triple_conseq [OF triple_keeps [OF unseen.keeps_createSNSNamespace [OF leaves_unseen(1) [OF sns_laws_leaves(1) [OF law(1)]]]]])
      (auto simp: unseen_def current_def)
  have label: "triple (current view key r) (if c then wrapf f as (SetSNSResourcePoolLabel E p r) else ret r)
      (\<lambda>r'. current view key r') (\<lambda>_. True)" for c f as
  proof (rule triple_if)
    show "triple (current view key r) (ret r) (\<lambda>r'. current view key r') (\<lambda>_. True)" by (rule triple_ret)
    show "triple (current view key r) (wrapf f as (SetSNSResourcePoolLabel E p r)) (\<lambda>r'. current view key r') (\<lambda>_. True)"
      unfolding SetSNSResourcePoolLabel_def
      by (rule triple_wrapf, rule triple_bind [OF triple_same(1)], rule triple_conseq [OF update_triple [OF law(3)]])
        (auto simp: set_pool_label_def obj_key_def dest: updated_current)
  qed
  have default: "triple (current view key r) (CreateDefaultSNSResourceQuota E r)
      (\<lambda>_ t. quota_there rqView crqView (key_name key) (world t) \<and> current view key r t) (\<lambda>_. True)" for r
    by (rule triple_conseq [OF quota_and_current [OF law(1) default_quota_triple [OF assms] quota_steps.keeps_defaults(1)]])
      (auto dest: current_name)
  have finish: "triple (\<lambda>t. quota_there rqView crqView (key_name key) (world t) \<and> current view key r' t) (init_finish E p b r')
      (\<lambda>res t. \<not> res \<longrightarrow> finished view rqView crqView key (world t)) (\<lambda>_. True)" for b r'
    by (rule triple_conseq [OF init_finish_triple [OF assms, where key = key]]) blast+
  have last_step: "triple (\<lambda>t. current view key (snd q) t \<and> (\<not> fst q \<longrightarrow> quota_there rqView crqView (key_name key) (world t)))
      (case q of (res, r) \<Rightarrow> if res then ret res else init_finish E p b r)
      (\<lambda>res t. \<not> res \<longrightarrow> finished view rqView crqView key (world t)) (\<lambda>_. True)" for q b
  proof (cases q)
    case (Pair res r')
    have "\<not> res \<Longrightarrow> triple (\<lambda>t. current view key r' t \<and> quota_there rqView crqView (key_name key) (world t)) (init_finish E p b r')
        (\<lambda>res t. \<not> res \<longrightarrow> finished view rqView crqView key (world t)) (\<lambda>_. True)"
      using finish [of r' b] by (simp add: conj_commute)
    then show ?thesis by (cases res) (simp_all add: Pair triple_ret)
  qed
  show ?thesis
    unfolding init_def init_quota_def Let_def
    by (rule triple_bind [OF triple_wrapf [OF create]], rule triple_bind [OF label],
        (rule triple_bind [OF triple_wrapf [OF triple_same(1)]] triple_bind [OF triple_wrapf [OF triple_same(2)]])+,
        rule triple_if, rule triple_bind [OF triple_wrapf [OF ensure_object_triple [OF assms]]], rule last_step,
        rule triple_bind [OF triple_wrapf [OF default]], rule finish)
qed

subsection \<open>The controller\<close>

lemma stored_status: "stored a b \<Longrightarrow> sns_phase b = sns_phase a \<and> sns_namespaceRef b = sns_namespaceRef a"
  unfolding stored_def by (cases a; cases b) simp

lemma setup_triple:
  assumes "sns_laws E view"
  shows "triple (current view key r) (setupSNS E p r)
    (\<lambda>_ t. \<exists>obj. view (world t) key = Some obj \<and> sns_phase obj = Missing \<and> sns_namespaceRef obj = key_name key) (\<lambda>_. True)"
proof (cases "setControllerReference E (oc_object p) (oc_object r)")
  case (Inl e)
  then show ?thesis by (simp add: setupSNS_def triple_fail)
next
  case (Inr obj)
  then obtain owners where obj: "obj = (oc_object r)\<lparr>meta_owners := owners\<rparr>" using assms unfolding sns_laws_def by blast
  have law: "lawful (api_sns E) view" using assms by (simp add: sns_laws_def)
  let ?r = "r\<lparr>oc_object := obj\<rparr>"
  have "triple (current view key ?r) (UpdateObjectE (api_sns E) (setup_update (oc_name r)) ?r)
      (updated view key (setup_update (oc_name r) obj)) (\<lambda>_. True)"
    using update_triple [OF law, where upd = "setup_update (oc_name r)" and r = ?r]
    by (simp add: setup_update_def obj_key_def)
  then have "triple (current view key r) (UpdateObjectE (api_sns E) (setup_update (oc_name r)) ?r)
      (\<lambda>_ t. \<exists>obj. view (world t) key = Some obj \<and> sns_phase obj = Missing \<and> sns_namespaceRef obj = key_name key) (\<lambda>_. True)"
  proof (rule triple_conseq)
    show "current view key r s \<Longrightarrow> current view key ?r s" for s by (simp add: current_def obj obj_key_def)
    show "\<exists>obj. view (world t) key = Some obj \<and> sns_phase obj = Missing \<and> sns_namespaceRef obj = key_name key"
      if "updated view key (setup_update (oc_name r) obj) r' t" for r' t
    proof -
      let ?sent = "obj\<lparr>sns_namespaceRef := oc_name r, sns_phase := Missing\<rparr>"
      have r': "view (world t) key = Some (oc_object r')" "stored ?sent (oc_object r')" "obj_key (oc_object r') = key"
        using that by (auto simp: updated_def current_def setup_update_def)
      have "oc_name r = key_name key" using stored_key [OF r'(2)] r'(3) by (auto simp: obj obj_key_def nnkey_def)
      then show ?thesis using r'(1) stored_status [OF r'(2)] by simp
    qed
  qed simp
  then show ?thesis
    unfolding setupSNS_def Let_def Inr sum.case by (rule triple_bind [OF triple_replacef triple_ret])
qed

text \<open>C6: a reconciliation of a subnamespace that is not yet Created, when what it reads is what is stored and nobody
  else writes the subnamespace meanwhile (so that none of its updates meets a conflict), and when it succeeds
  without asking to be called again, moves the phase a step: from None to Missing, with the reference to the
  namespace, and from Missing or Migrated to Created, and then its namespace and its quota object exist.\<close>

theorem Reconcile_advances:
  fixes s s' :: "('w, 'q) hns"
  assumes "progress_laws E view nsView rqView crqView"
    and "view (world s) req = Some obj" "sns_phase obj \<noteq> Created" "Reconcile E req s = (OK False, s')"
  shows "\<exists>obj'. view (world s') req = Some obj' \<and> sns_step (sns_phase obj) (sns_phase obj') \<and>
    (sns_phase obj = NonePhase \<longrightarrow> sns_namespaceRef obj' = key_name req) \<and>
    (sns_phase obj \<noteq> NonePhase \<longrightarrow> nsView (world s') (nskey (key_name req)) \<noteq> None \<and>
       quota_there rqView crqView (key_name req) (world s'))"
proof -
  note law = progress_lawsD [OF assms(1)]
  obtain sns where sns: "New (api_sns E) (world s) req empty_sns = OK sns"
    using assms(4) by (auto simp: Reconcile_start split: outcome.splits)
  from sns have "oc_present sns"
  proof (cases rule: New_cases)
    case (absent e)
    from lawful_NotFoundD [OF law(3) absent(1,2)] show ?thesis using assms(2) by simp
  qed
  note start = phase_start [OF law(1) sns this]
  have obj: "oc_object sns = obj" using start(1) assms(2) by simp
  have now: "current view req sns s" using start \<open>oc_present sns\<close> by (simp add: current_def)
  obtain p where p: "New (api_ns E) (world s) (nskey (oc_namespace sns)) empty_meta = OK p" "oc_present p"
    using assms(4) sns \<open>oc_present sns\<close> by (auto simp: Reconcile_start fail_def split: outcome.splits if_splits)
  have run: "(case phase_func E (sns_phase obj) of None \<Rightarrow> panic | Some f \<Rightarrow> f p sns) s = (OK False, s')"
    using assms(4) sns p \<open>oc_present sns\<close> obj by (simp add: Reconcile_start)
  show ?thesis
  proof (cases "sns_phase obj = NonePhase")
    case True
    then have "setupSNS E p sns s = (OK False, s')" using run by (simp add: phase_func_def)
    from tripleD(1) [OF setup_triple [OF law(1)] now this] show ?thesis using True by (auto intro: sns_step.intros)
  next
    case False
    then have phase: "sns_phase obj \<in> {Missing, Migrated}" and init: "init E p sns s = (OK False, s')"
      using run assms(3) by (auto simp: phase_func_def panic_def split: if_splits)
    have "nsView (world s') (nskey (key_name req)) \<noteq> None"
      by (rule Reconcile_creates_namespace [OF law(1,2) sns \<open>oc_present sns\<close> _ assms(4)]) (simp only: obj phase)
    moreover have "finished view rqView crqView req (world s')"
      using tripleD(1) [OF init_triple [OF assms(1)] now init] by simp
    ultimately show ?thesis using phase False by (auto simp: finished_def intro: sns_step.intros)
  qed
qed

text \<open>With a conflict (what was read came from a cache that is behind) the reconciliation reports success all the same,
  and the phase stays where it was.\<close>

lemma setup_swallows_conflict:
  fixes s :: "('w, 'q) hns"
  assumes "New (api_sns E) (world s) req empty_sns = OK sns" "oc_present sns" "sns_phase (oc_object sns) = NonePhase"
    and "New (api_ns E) (world s) (nskey (oc_namespace sns)) empty_meta = OK p" "oc_present p"
    and "setControllerReference E (oc_object p) (oc_object sns) = Inr obj"
    and "k_update (api_sns E) (obj\<lparr>sns_namespaceRef := oc_name sns, sns_phase := Missing\<rparr>) (world s) = (Inl e, w')"
    and "IsConflict e" "lawful_write view (k_update (api_sns E))"
  shows "Reconcile E req s = (OK False, s\<lparr>world := w'\<rparr>)" "view w' = view (world s)"
proof -
  have "UpdateObjectE (api_sns E) (setup_update (oc_name sns)) (sns\<lparr>oc_object := obj\<rparr>) s =
      (OK (sns\<lparr>oc_object := obj\<lparr>sns_namespaceRef := oc_name sns, sns_phase := Missing\<rparr>\<rparr>), s\<lparr>world := w'\<rparr>)"
    using assms(2,7,8)
    by (simp add: UpdateObjectE_def UpdateObject_def setup_update_def check_err_def go_defs Let_def)
  then show "Reconcile E req s = (OK False, s\<lparr>world := w'\<rparr>)"
    using assms(1-6) by (simp add: Reconcile_start phase_func_def setupSNS_def Let_def replacef_def bind_step catch_step ret_def)
  show "view w' = view (world s)" by (rule lawful_write_ErrD [OF assms(9,7)])
qed

subsection \<open>An instance\<close>

text \<open>A cache that hands out another version than the stored one.\<close>

definition cached_env :: "(mem, int \<times> string) env" where
  "cached_env = mem_env\<lparr>api_sns := (api_sns mem_env)\<lparr>k_get := (\<lambda>key w.
     case k_get (api_sns mem_env) key w of Inl e \<Rightarrow> Inl e | Inr obj \<Rightarrow> Inr (raise_version 7 obj))\<rparr>\<rparr>"

lemma setup_swallows_conflict_instance:
  "Reconcile cached_env (nnkey ''c'' ''e'') (mem_state (sample_e NonePhase) sample_forest) =
     (OK False, mem_state (sample_e NonePhase) sample_forest)"
proof -
  let ?s = "mem_state (sample_e NonePhase) sample_forest"
  let ?sns = "ctx (raise_version 7 (mk_sns ''c'' ''e'' NonePhase [(''cpu'', 1)])) :: (int \<times> string) subnamespace object_context"
  let ?obj = "projr (setControllerReference cached_env (oc_object sample_c) (oc_object ?sns))"
  have reads: "New (api_sns cached_env) (sample_e NonePhase) (nnkey ''c'' ''e'') empty_sns = OK ?sns"
    "New (api_ns cached_env) (sample_e NonePhase) (nskey (oc_namespace ?sns)) empty_meta = OK sample_c"
    "setControllerReference cached_env (oc_object sample_c) (oc_object ?sns) = Inr ?obj"
    "k_update (api_sns cached_env) (?obj\<lparr>sns_namespaceRef := oc_name ?sns, sns_phase := Missing\<rparr>)
       (sample_e NonePhase) = (Inl conflict, sample_e NonePhase)"
    "sns_phase (oc_object ?sns) = NonePhase" "IsConflict conflict"
    by code_simp+
  have present: "oc_present ?sns" "oc_present sample_c" by (simp_all add: ctx_def)
  have w: "world ?s = sample_e NonePhase" "?s\<lparr>world := sample_e NonePhase\<rparr> = ?s" by (simp_all add: mem_state_def)
  have law: "lawful_write (mem_view mem_sns) (k_update (api_sns cached_env))"
    using lawful_writeD(1) [OF mem_env_lawful(2)] by (simp add: cached_env_def)
  show ?thesis
    using setup_swallows_conflict(1) [where s = ?s, unfolded w(1), OF reads(1) present(1) reads(5,2) present(2) reads(3,4,6) law]
    unfolding w(2) .
qed

lemma mem_progress_laws:
  "progress_laws mem_env (mem_view mem_sns) (mem_view mem_ns) (mem_view mem_rq) (mem_view mem_crq)"
proof -
  have "leaves (api_sns mem_env) (\<lambda>w. (mem_view mem_rq w, mem_view mem_crq w))"
    "leaves (api_lr mem_env) (\<lambda>w. (mem_view mem_rq w, mem_view mem_crq w))"
    by (simp_all add: mem_env_def mem_api_leaves)
  then show ?thesis using mem_sns_laws mem_ns_laws mem_env_lawful(3,4) by (simp add: progress_laws_def)
qed

theorem Reconcile_advances_witness:
  "\<exists>obj. mem_find (nnkey ''c'' ''e'') (mem_sns (world (snd (Reconcile mem_env (nnkey ''c'' ''e'') (mem_state placed_e sample_forest))))) =
       Some obj \<and> sns_phase obj = Created"
proof -
  have w: "world (mem_state placed_e sample_forest) = placed_e" by (simp add: mem_state_def)
  obtain s' where s': "Reconcile mem_env (nnkey ''c'' ''e'') (mem_state placed_e sample_forest) = (OK False, s')"
    using placed_e_runs(1) by (metis fst_conv surj_pair)
  let ?e = "mk_sns ''c'' ''e'' Missing [(''cpu'', 1)]"
  have e: "mem_view mem_sns (world (mem_state placed_e sample_forest)) (nnkey ''c'' ''e'') = Some ?e"
    unfolding w by (simp add: placed_e_def sample_e_def mk_sns_def obj_key_def)
  have "sns_phase ?e = Missing" by (simp add: mk_sns_def)
  then obtain obj where "mem_find (nnkey ''c'' ''e'') (mem_sns (world s')) = Some obj" "sns_step Missing (sns_phase obj)"
    using Reconcile_advances [OF mem_progress_laws e _ s'] by auto
  then show ?thesis by (auto simp: s' elim: sns_step.cases)
qed

end
