(* ===== verification/ForestSpec.thy ===== *)
theory ForestSpec
  imports NamespaceDB
begin

section \<open>The namespace database against its specification\<close>

text \<open>
  What the database promises: it is the partial function from namespaces to the key of their
  hierarchy (the empty string for none). The specification acts on that function; the operations
  on the forest refine it. The second part shows what start-up puts into the forest, and where the
  code leaves the specification: a path of ten levels, and the migration of a key.
\<close>

subsection \<open>Specification\<close>

datatype db_op =
    OpenKey string
  | Join_key string string
  | Leave_key string string
  | CloseKey string

text \<open>An operation that the specification allows, on the function of keys.\<close>

fun spec_step :: "db_op \<Rightarrow> (string \<Rightarrow> string) \<Rightarrow> (string \<Rightarrow> string) option" where
  "spec_step (OpenKey n) f = (if n \<noteq> '''' \<and> f n = '''' then Some (f(n := n)) else None)"
| "spec_step (Join_key key n) f =
     (if n \<noteq> '''' \<and> f n = '''' \<and> key \<noteq> '''' \<and> f key = key then Some (f(n := key)) else None)"
| "spec_step (Leave_key key n) f =
     (if n \<noteq> key \<and> key \<noteq> '''' \<and> f n = key then Some (f(n := '''')) else None)"
| "spec_step (CloseKey key) f =
     (if key \<noteq> '''' \<and> f key = key then Some (\<lambda>n. if f n = key then '''' else f n) else None)"

fun spec_run :: "db_op list \<Rightarrow> (string \<Rightarrow> string) \<Rightarrow> (string \<Rightarrow> string) option" where
  "spec_run [] f = Some f"
| "spec_run (p # ps) f = (case spec_step p f of None \<Rightarrow> None | Some g \<Rightarrow> spec_run ps g)"

fun db_step :: "db_op \<Rightarrow> forest \<Rightarrow> forest outcome" where
  "db_step (OpenKey n) ndb = addNSToKey n n ndb"
| "db_step (Join_key key n) ndb = addNSToKey key n ndb"
| "db_step (Leave_key key n) ndb = RemoveNS n key ndb"
| "db_step (CloseKey key) ndb = OK (DeleteKey key ndb)"

lemma db_step_refines:
  assumes "forest_ok ndb" "spec_step p (Key ndb) = Some f"
  shows "\<exists>ndb'. db_step p ndb = OK ndb' \<and> forest_ok ndb' \<and> Key ndb' = f"
proof (cases p)
  case (OpenKey n)
  then show ?thesis using ndb.add_key [OF assms(1), of n] assms(2) by (auto split: if_splits)
next
  case (Join_key key n)
  then show ?thesis using ndb.add_member [OF assms(1), of n key] assms(2) by (auto split: if_splits)
next
  case (Leave_key key n)
  then show ?thesis using ndb.remove_member [OF assms(1), of n key] assms(2) by (auto split: if_splits)
next
  case (CloseKey key)
  then show ?thesis using ndb.drop_key [OF assms(1), of key] assms(2) by (auto split: if_splits)
qed

text \<open>C1: every sequence of operations that the specification allows runs without an error on the forest,
  keeps its invariant, and yields the keys the specification gives.\<close>

theorem forest_refines_spec:
  assumes "forest_ok ndb" "spec_run ps (Key ndb) = Some f"
  shows "\<exists>ndb'. fold_outcome db_step ps ndb = OK ndb' \<and> forest_ok ndb' \<and> Key ndb' = f"
  using assms
proof (induction ps arbitrary: ndb)
  case (Cons p ps)
  then obtain g where g: "spec_step p (Key ndb) = Some g" "spec_run ps g = Some f"
    by (auto split: option.splits)
  obtain d where d: "db_step p ndb = OK d" "forest_ok d" "Key d = g"
    using db_step_refines [OF Cons.prems(1) g(1)] by blast
  from Cons.IH [OF d(2)] d(3) g(2) obtain ndb' where
    "fold_outcome db_step ps d = OK ndb'" "forest_ok ndb'" "Key ndb' = f" by blast
  with d show ?case by auto
qed simp

theorem forest_refines_spec_witness:
  "\<exists>ndb'. fold_outcome db_step [OpenKey ''x'', Join_key ''x'' ''y'', Join_key ''b'' ''z'', Leave_key ''x'' ''y'', CloseKey ''b'']
      sample_forest = OK ndb' \<and> Key ndb' ''x'' = ''x'' \<and> Key ndb' ''y'' = '''' \<and> Key ndb' ''c'' = ''''"
proof -
  have keys: "Key sample_forest = (\<lambda>n. if n = ''b'' \<or> n = ''c'' then ''b'' else if n = ''d'' then ''d'' else '''')"
    by (auto simp: fun_eq_iff sample_forest_def)
  let ?ops = "[OpenKey ''x'', Join_key ''x'' ''y'', Join_key ''b'' ''z'', Leave_key ''x'' ''y'', CloseKey ''b'']"
  obtain f where f: "spec_run ?ops (Key sample_forest) = Some f" "f ''x'' = ''x''" "f ''y'' = ''''" "f ''c'' = ''''"
    by (simp add: keys)
  show ?thesis using forest_refines_spec [OF sample_forest_ok f(1)] f(2-4) by auto
qed

subsection \<open>Start-up\<close>

text \<open>A path from below the root down, with its depths written in one digit.\<close>

definition numbered :: "namespace list \<Rightarrow> bool" where
  "numbered path \<longleftrightarrow> length path \<le> 9 \<and> map depth_string path = map (\<lambda>i. Itoa (int i)) [1..<Suc (length path)]"

lemma single_digits: "map (\<lambda>i. Itoa (int i)) [1..<10] = [''1'', ''2'', ''3'', ''4'', ''5'', ''6'', ''7'', ''8'', ''9'']"
  by code_simp

lemma single_digits_sorted: "sorted_wrt (<) (map (\<lambda>i. Itoa (int i)) [1..<10])"
  unfolding single_digits by code_simp

lemma numbered_sorted:
  assumes "numbered path"
  shows "sorted_wrt (<) (map depth_string path)"
proof -
  have "[1..<10] = [1..<Suc (length path)] @ [Suc (length path)..<10]"
    using assms upt_add_eq_append [of 1 "Suc (length path)" "9 - length path"] by (simp add: numbered_def)
  then have "map (\<lambda>i. Itoa (int i)) [1..<10] =
      map depth_string path @ map (\<lambda>i. Itoa (int i)) [Suc (length path)..<10]"
    using assms by (simp add: numbered_def)
  then show ?thesis using single_digits_sorted by (metis sorted_wrt_append)
qed

text \<open>Sorting by keys that are all different has one result.\<close>

lemma sort_key_unique:
  assumes "sorted_wrt (<) (map f ys)" "set xs = set ys" "length xs = length ys"
  shows "sort_key f xs = ys"
proof -
  have ys: "sorted (map f ys)" "distinct (map f ys)" using assms(1) by (simp_all add: strict_sorted_iff)
  then have "distinct xs" using assms(2,3) by (intro card_distinct) (simp add: distinct_map distinct_card)
  then have "distinct (map f (sort_key f xs))" using ys(2) assms(2) by (simp add: distinct_map)
  then have "map f (sort_key f xs) = map f ys"
    using ys assms(2) by (intro sorted_distinct_set_unique) simp_all
  then show ?thesis by (rule map_inj_on) (use ys(2) assms(2) in \<open>simp add: distinct_map\<close>)
qed

lemma sort_rev_path: "numbered path \<Longrightarrow> sort_key depth_string (rev path) = path"
  by (rule sort_key_unique [OF numbered_sorted]) simp_all

lemma add_missing_places:
  assumes "forest_ok ndb" "key \<noteq> ''''" "Key ndb key = key" "'''' \<notin> set nms" "key \<notin> set nms"
    and "\<And>n. n \<in> set nms \<Longrightarrow> Key ndb n = '''' \<or> Key ndb n = key"
  shows "\<exists>F. add_missing key nms ndb = OK F \<and> forest_ok F \<and> Key F = (\<lambda>n. if n \<in> set nms then key else Key ndb n)"
  using assms
proof (induction nms arbitrary: ndb)
  case Nil
  then show ?case by auto
next
  case (Cons n nms)
  have step: "\<exists>d. (if \<not> valInKeyExist ndb key n then addNSToKey key n ndb else OK ndb) = OK d \<and> forest_ok d \<and>
      Key d = (Key ndb)(n := key)"
  proof (cases "valInKeyExist ndb key n")
    case True
    then have "placed ndb n key"
      by (cases "map_of ndb key") (auto simp: valInKeyExist_def members_def placed_def)
    then have "Key ndb n = key" using Key_eq_iff [OF Cons.prems(1,2)] by blast
    then show ?thesis using True Cons.prems(1) by (auto simp: fun_upd_idem)
  next
    case False
    have "\<not> placed ndb n key"
      using False Cons.prems(5) by (auto simp: valInKeyExist_def members_def placed_def split: option.splits)
    then have "Key ndb n = ''''"
      using Cons.prems(6) [of n] Key_eq_iff [OF Cons.prems(1,2), of n] by auto
    then show ?thesis
      using False ndb.add_member [OF Cons.prems(1), of n key] Cons.prems by auto
  qed
  then obtain d where d: "(if \<not> valInKeyExist ndb key n then addNSToKey key n ndb else OK ndb) = OK d" "forest_ok d"
    "Key d = (Key ndb)(n := key)" by blast
  have "Key d key = key" "\<And>m. m \<in> set nms \<Longrightarrow> Key d m = '''' \<or> Key d m = key"
    using d(3) Cons.prems by auto
  from Cons.IH [OF d(2) Cons.prems(2) this(1) _ _ this(2)] Cons.prems obtain F where
    "add_missing key nms d = OK F" "forest_ok F" "Key F = (\<lambda>m. if m \<in> set nms then key else Key d m)" by auto
  with d show ?case by (auto simp: fun_eq_iff)
qed

text \<open>A leaf puts the namespaces of its path, in the order they are sorted in, that are below the depth of
  ResourceQuotas into the hierarchy of the first of them.\<close>

lemma addHierarchy_places:
  assumes "forest_ok ndb" "NSListUp ns (meta_name root) nsList = OK l" "sort_key depth_string l = path"
    and "fst (Atoi (mstr (meta_annotations root) RqDepthKey)) = int r" "r < length path"
    and "distinct (map meta_name path)" "'''' \<notin> set (map meta_name path)"
    and "\<And>n. n \<in> set (map meta_name (drop r path)) \<Longrightarrow> Key ndb n = '''' \<or> Key ndb n = meta_name (path ! r)"
  shows "\<exists>F. addHierarchy ns nsList (Some root) ndb = OK F \<and> forest_ok F \<and>
    Key F = (\<lambda>n. if n \<in> set (map meta_name (drop r path)) then meta_name (path ! r) else Key ndb n)"
proof -
  let ?key = "meta_name (path ! r)" and ?rest = "map meta_name (drop (Suc r) path)"
  have split: "map meta_name (drop r path) = ?key # ?rest"
    using assms(5) by (simp add: Cons_nth_drop_Suc [symmetric])
  have "distinct (map meta_name (drop r path))" "set (map meta_name (drop r path)) \<subseteq> set (map meta_name path)"
    using assms(6) by (auto simp: drop_map [symmetric] dest: in_set_dropD)
  then have nms: "?key \<notin> set ?rest" "?key \<noteq> ''''" "'''' \<notin> set ?rest"
    using assms(7) unfolding split by auto
  have "\<exists>d. (if \<not> doesKeyExist ndb ?key then addNSToKey ?key ?key ndb else OK ndb) = OK d \<and> forest_ok d \<and>
      Key d = (Key ndb)(?key := ?key)"
  proof (cases "doesKeyExist ndb ?key")
    case True
    then have "Key ndb ?key = ?key" using Key_self [OF assms(1) nms(2)] by (simp add: doesKeyExist_def)
    then show ?thesis using True assms(1) by (auto simp: fun_upd_idem)
  next
    case False
    then have "Key ndb ?key = ''''"
      using Key_self [OF assms(1) nms(2)] assms(8) [of ?key] split by (auto simp: doesKeyExist_def)
    then show ?thesis using False ndb.add_key [OF assms(1) nms(2)] by auto
  qed
  then obtain d where d: "(if \<not> doesKeyExist ndb ?key then addNSToKey ?key ?key ndb else OK ndb) = OK d" "forest_ok d"
    "Key d = (Key ndb)(?key := ?key)" by blast
  have "Key d n = '''' \<or> Key d n = ?key" if "n \<in> set ?rest" for n using that assms(8) [of n] d(3) split by auto
  from add_missing_places [OF d(2) nms(2) _ nms(3,1) this] d(3) obtain F where
    F: "add_missing ?key ?rest d = OK F" "forest_ok F" "Key F = (\<lambda>n. if n \<in> set ?rest then ?key else Key d n)" by auto
  have len: "length l = length path" by (simp add: assms(3) [symmetric])
  have "addHierarchy ns nsList (Some root) ndb = OK F"
    using d(1) F(1) assms(2,4,5) len by (simp add: addHierarchy_def Let_def assms(3))
  moreover have "Key F = (\<lambda>n. if n \<in> set (map meta_name (drop r path)) then ?key else Key ndb n)"
    unfolding split using F(3) d(3) by (auto simp: fun_eq_iff)
  ultimately show ?thesis using F(2) by blast
qed

text \<open>The tree at start-up: every leaf has a path of at most nine levels up to the root, with distinct names; and
  a name that occurs on two paths has the same namespaces above it on both.\<close>

definition up_path :: "namespace list \<Rightarrow> namespace \<Rightarrow> namespace \<Rightarrow> string list" where
  "up_path nsList root ns = (case NSListUp ns (meta_name root) nsList of OK l \<Rightarrow> map meta_name (rev l) | _ \<Rightarrow> [])"

definition path_ok :: "namespace list \<Rightarrow> namespace \<Rightarrow> namespace \<Rightarrow> bool" where
  "path_ok nsList root ns \<longleftrightarrow>
     (case NSListUp ns (meta_name root) nsList of
        OK l \<Rightarrow> numbered (rev l) \<and> distinct (map meta_name l) \<and> '''' \<notin> set (map meta_name l)
      | _ \<Rightarrow> False)"

definition one_place :: "string list \<Rightarrow> string list \<Rightarrow> bool" where
  "one_place xs ys \<longleftrightarrow>
     list_all (\<lambda>i. list_all (\<lambda>j. xs ! i = ys ! j \<longrightarrow> take (Suc i) xs = take (Suc j) ys) [0..<length ys]) [0..<length xs]"

definition tree_ok :: "namespace list \<Rightarrow> namespace list \<Rightarrow> namespace \<Rightarrow> bool" where
  "tree_ok nss nsList root \<longleftrightarrow> list_all (path_ok nsList root) nss \<and>
     list_all (\<lambda>a. list_all (\<lambda>b. one_place (up_path nsList root a) (up_path nsList root b)) nss) nss"

definition leaf_of_sns :: "'q subnamespace list \<Rightarrow> namespace \<Rightarrow> bool" where
  "leaf_of_sns snsList ns \<longleftrightarrow> isSNS snsList (meta_name ns) \<and> mstr (meta_annotations ns) RoleKey = Leaf"

lemma one_place_same_key:
  assumes "one_place xs ys" "n \<in> set (drop r xs)" "n \<in> set (drop r ys)"
  shows "xs ! r = ys ! r"
proof -
  obtain i j where i: "i < length (drop r xs)" "drop r xs ! i = n" and j: "j < length (drop r ys)" "drop r ys ! j = n"
    using assms(2,3) by (metis in_set_conv_nth)
  then have "take (Suc (r + i)) xs = take (Suc (r + j)) ys"
    using assms(1) by (auto simp: one_place_def list_all_iff)
  then have "take (Suc (r + i)) xs ! r = take (Suc (r + j)) ys ! r" by simp
  then show ?thesis by simp
qed

lemma addHierarchy_path:
  assumes "forest_ok ndb" "path_ok nsList root ns" "fst (Atoi (mstr (meta_annotations root) RqDepthKey)) = int r"
    and "\<And>n. n \<in> set (drop r (up_path nsList root ns)) \<Longrightarrow> Key ndb n = '''' \<or> Key ndb n = up_path nsList root ns ! r"
  shows "\<exists>F. addHierarchy ns nsList (Some root) ndb = OK F \<and> forest_ok F \<and>
    Key F = (\<lambda>n. if n \<in> set (drop r (up_path nsList root ns)) then up_path nsList root ns ! r else Key ndb n)"
proof -
  obtain l where l: "NSListUp ns (meta_name root) nsList = OK (rev (rev l))" "numbered (rev l)"
    "distinct (map meta_name (rev l))" "'''' \<notin> set (map meta_name (rev l))"
    using assms(2) by (auto simp: path_ok_def rev_map [symmetric] split: outcome.splits)
  have path: "up_path nsList root ns = map meta_name (rev l)" using l(1) by (simp add: up_path_def)
  show ?thesis
  proof (cases "r < length (rev l)")
    case True
    have nth: "map meta_name (rev l) ! r = meta_name (rev l ! r)" by (rule nth_map [OF True])
    with addHierarchy_places [OF assms(1) l(1) sort_rev_path [OF l(2)] assms(3) True l(3,4)] assms(4) show ?thesis
      unfolding path nth drop_map by blast
  next
    case False
    then have "addHierarchy ns nsList (Some root) ndb = OK ndb"
      using l(1) assms(3) by (simp add: addHierarchy_def Let_def)
    with False show ?thesis using assms(1) by (simp add: path)
  qed
qed

lemma init_leaves_places:
  assumes "forest_ok ndb" "fst (Atoi (mstr (meta_annotations root) RqDepthKey)) = int r"
    and "\<And>ns. ns \<in> set nss \<Longrightarrow> mstr (meta_annotations ns) RoleKey = Leaf \<Longrightarrow> path_ok nsList root ns"
    and "\<And>ns n. ns \<in> set nss \<Longrightarrow> mstr (meta_annotations ns) RoleKey = Leaf \<Longrightarrow> n \<in> set (drop r (up_path nsList root ns)) \<Longrightarrow>
      up_path nsList root ns ! r = keyOf n"
    and "\<And>n. Key ndb n = '''' \<or> Key ndb n = keyOf n"
  shows "\<exists>F. init_leaves nss nsList (Some root) ndb = OK F \<and> forest_ok F \<and>
    Key F = (\<lambda>n. if \<exists>ns \<in> set nss. mstr (meta_annotations ns) RoleKey = Leaf \<and> n \<in> set (drop r (up_path nsList root ns))
                 then keyOf n else Key ndb n)"
  using assms
proof (induction nss arbitrary: ndb)
  case Nil
  then show ?case by simp
next
  case (Cons ns nss)
  show ?case
  proof (cases "mstr (meta_annotations ns) RoleKey = Leaf")
    case True
    let ?path = "up_path nsList root ns"
    have keys: "Key ndb n = '''' \<or> Key ndb n = ?path ! r" if "n \<in> set (drop r ?path)" for n
      using Cons.prems(4) [of ns n] Cons.prems(5) [of n] True that by auto
    obtain d where d: "addHierarchy ns nsList (Some root) ndb = OK d" "forest_ok d"
      "Key d = (\<lambda>n. if n \<in> set (drop r ?path) then ?path ! r else Key ndb n)"
      using addHierarchy_path [OF Cons.prems(1) _ Cons.prems(2) keys] Cons.prems(3) [of ns] True by auto
    have keyOf: "Key d = (\<lambda>n. if n \<in> set (drop r ?path) then keyOf n else Key ndb n)"
      unfolding d(3) using Cons.prems(4) [of ns] True by (auto simp: fun_eq_iff)
    have "Key d n = '''' \<or> Key d n = keyOf n" for n unfolding keyOf using Cons.prems(5) [of n] by auto
    from Cons.IH [OF d(2) Cons.prems(2) _ _ this] Cons.prems(3,4) obtain F where
      "init_leaves nss nsList (Some root) d = OK F" "forest_ok F"
      "Key F = (\<lambda>n. if \<exists>ns \<in> set nss. mstr (meta_annotations ns) RoleKey = Leaf \<and> n \<in> set (drop r (up_path nsList root ns))
                    then keyOf n else Key d n)" by auto
    then show ?thesis using True d(1) keyOf by (auto simp: fun_eq_iff)
  next
    case False
    with Cons.IH [OF Cons.prems(1,2) _ _ Cons.prems(5)] Cons.prems(3,4) show ?thesis by auto
  qed
qed

lemma Init_forest:
  assumes "NewList (api_ns E) w ListAll = OK nsList" "NewList (api_sns E) w ListAll = OK snsList"
    and "LocateNS nsList (meta_name root) = Some root" "fst (Atoi (mstr (meta_annotations root) RqDepthKey)) = int r"
    and "\<And>ns. ns \<in> set nsList \<Longrightarrow> isSNS snsList (meta_name ns) \<Longrightarrow> mstr (meta_annotations ns) RootCrqSelectorKey = meta_name root"
    and "tree_ok (filter (leaf_of_sns snsList) nsList) nsList root"
  shows "\<exists>F. Init E w = OK F \<and> forest_ok F \<and>
    (\<forall>ns \<in> set nsList. leaf_of_sns snsList ns \<longrightarrow>
       (\<forall>n \<in> set (drop r (up_path nsList root ns)). Key F n = up_path nsList root ns ! r)) \<and>
    (\<forall>n. (\<forall>ns \<in> set nsList. leaf_of_sns snsList ns \<longrightarrow> n \<notin> set (drop r (up_path nsList root ns))) \<longrightarrow> Key F n = '''')"
proof -
  let ?nss = "filter (\<lambda>ns. isSNS snsList (meta_name ns)) nsList"
  let ?on = "\<lambda>ns n. ns \<in> set nsList \<and> leaf_of_sns snsList ns \<and> n \<in> set (drop r (up_path nsList root ns))"
  define keyOf where "keyOf n = up_path nsList root (SOME ns. ?on ns n) ! r" for n
  have keyOf: "up_path nsList root ns ! r = keyOf n" if "?on ns n" for ns n
  proof -
    have "?on (SOME ns. ?on ns n) n" using that by (rule someI)
    then show ?thesis
      unfolding keyOf_def using that assms(6) by (intro one_place_same_key [of _ _ n]) (auto simp: tree_ok_def list_all_iff)
  qed
  have root: "Init E w = init_leaves ?nss nsList (Some root) []"
  proof (cases ?nss)
    case (Cons ns nss)
    then have "ns \<in> set ?nss" by simp
    then have "mstr (meta_annotations ns) RootCrqSelectorKey = meta_name root" using assms(5) by simp
    then show ?thesis using Cons assms(1-3) by (simp add: Init_def)
  qed (simp add: Init_def assms(1,2))
  have "forest_ok []" by (simp add: forest_ok_def)
  moreover have "path_ok nsList root ns" if "ns \<in> set ?nss" "mstr (meta_annotations ns) RoleKey = Leaf" for ns
    using that assms(6) by (auto simp: tree_ok_def list_all_iff leaf_of_sns_def)
  moreover have "up_path nsList root ns ! r = keyOf n"
    if "ns \<in> set ?nss" "mstr (meta_annotations ns) RoleKey = Leaf" "n \<in> set (drop r (up_path nsList root ns))" for ns n
    using that by (intro keyOf) (simp add: leaf_of_sns_def)
  ultimately obtain F where F: "init_leaves ?nss nsList (Some root) [] = OK F" "forest_ok F"
    "Key F = (\<lambda>n. if \<exists>ns \<in> set ?nss. mstr (meta_annotations ns) RoleKey = Leaf \<and> n \<in> set (drop r (up_path nsList root ns))
                  then keyOf n else Key [] n)"
    using init_leaves_places [of "[]" root r ?nss nsList keyOf] assms(4) by auto
  then have key: "Key F n = (if \<exists>ns. ?on ns n then keyOf n else '''')" for n
    by (auto simp: leaf_of_sns_def)
  then show ?thesis using root F(1,2) keyOf by auto
qed

text \<open>C15: at start-up the database is built without an error and well formed: every namespace on the path of a leaf,
  from the level below the ResourceQuotas on, has as its key the namespace of that level on the path, and no other
  namespace has a key, as long as the namespaces form a tree of at most nine levels below the root.\<close>

theorem Init_builds_forest:
  assumes "NewList (api_ns E) w ListAll = OK nsList" "NewList (api_sns E) w ListAll = OK snsList"
    and "LocateNS nsList (meta_name root) = Some root" "fst (Atoi (mstr (meta_annotations root) RqDepthKey)) = int r"
    and "\<And>ns. ns \<in> set nsList \<Longrightarrow> isSNS snsList (meta_name ns) \<Longrightarrow> mstr (meta_annotations ns) RootCrqSelectorKey = meta_name root"
    and "tree_ok (filter (leaf_of_sns snsList) nsList) nsList root"
  shows "\<exists>F. Init E w = OK F \<and> forest_ok F \<and>
    (\<forall>ns \<in> set nsList. leaf_of_sns snsList ns \<longrightarrow>
       (\<forall>n \<in> set (drop r (up_path nsList root ns)). Key F n = up_path nsList root ns ! r)) \<and>
    (\<forall>n. (\<forall>ns \<in> set nsList. leaf_of_sns snsList ns \<longrightarrow> n \<notin> set (drop r (up_path nsList root ns))) \<longrightarrow> Key F n = '''')"
  using assms by (rule Init_forest)

definition sample_with_leaves :: mem where
  "sample_with_leaves = sample\<lparr>mem_ns := map (\<lambda>ns. if meta_name ns \<in> {''c'', ''d''}
     then ns\<lparr>meta_annotations := map_option (AList.update RoleKey Leaf) (meta_annotations ns)\<rparr> else ns) (mem_ns sample)\<rparr>"

lemma sample_leaves_evaluate:
  "NewList (api_ns mem_env) sample_with_leaves ListAll = OK (mem_ns sample_with_leaves)"
  "NewList (api_sns mem_env) sample_with_leaves ListAll = OK (mem_sns sample_with_leaves)"
  "LocateNS (mem_ns sample_with_leaves) (meta_name (mk_root ''1'')) = Some (mk_root ''1'')"
  "fst (Atoi (mstr (meta_annotations (mk_root ''1'')) RqDepthKey)) = int 1"
  "list_all (\<lambda>ns. isSNS (mem_sns sample_with_leaves) (meta_name ns) \<longrightarrow>
     mstr (meta_annotations ns) RootCrqSelectorKey = meta_name (mk_root ''1'')) (mem_ns sample_with_leaves)"
  "tree_ok (filter (leaf_of_sns (mem_sns sample_with_leaves)) (mem_ns sample_with_leaves)) (mem_ns sample_with_leaves) (mk_root ''1'')"
  "map meta_name (filter (leaf_of_sns (mem_sns sample_with_leaves)) (mem_ns sample_with_leaves)) = [''c'', ''d'']"
  "map (up_path (mem_ns sample_with_leaves) (mk_root ''1''))
     (filter (leaf_of_sns (mem_sns sample_with_leaves)) (mem_ns sample_with_leaves)) = [[''a'', ''b'', ''c''], [''a'', ''d'']]"
  by code_simp+

theorem Init_builds_forest_witness:
  "\<exists>F. Init mem_env sample_with_leaves = OK F \<and> forest_ok F \<and> Key F ''b'' = ''b'' \<and> Key F ''c'' = ''b'' \<and>
     Key F ''d'' = ''d'' \<and> Key F ''a'' = ''''"
proof -
  let ?nss = "mem_ns sample_with_leaves" and ?snss = "mem_sns sample_with_leaves" and ?root = "mk_root ''1''"
  obtain F where F: "Init mem_env sample_with_leaves = OK F" "forest_ok F"
    "\<And>ns n. ns \<in> set (filter (leaf_of_sns ?snss) ?nss) \<Longrightarrow> n \<in> set (drop 1 (up_path ?nss ?root ns)) \<Longrightarrow>
       Key F n = up_path ?nss ?root ns ! 1"
    "\<And>n. (\<forall>ns \<in> set (filter (leaf_of_sns ?snss) ?nss). n \<notin> set (drop 1 (up_path ?nss ?root ns))) \<Longrightarrow> Key F n = ''''"
    using Init_builds_forest [OF sample_leaves_evaluate(1-4) _ sample_leaves_evaluate(6)] sample_leaves_evaluate(5)
    by (auto simp: list_all_iff)
  obtain c d where cd: "filter (leaf_of_sns ?snss) ?nss = [c, d]" "up_path ?nss ?root c = [''a'', ''b'', ''c'']"
    "up_path ?nss ?root d = [''a'', ''d'']"
    using sample_leaves_evaluate(7,8) by (auto simp: map_eq_Cons_conv)
  have "Key F ''b'' = ''b''" "Key F ''c'' = ''b''" "Key F ''d'' = ''d''"
    using F(3) [of c "''b''"] F(3) [of c "''c''"] F(3) [of d "''d''"] cd by simp_all
  moreover have "Key F ''a'' = ''''" by (rule F(4)) (simp add: cd)
  ultimately show ?thesis using F(1,2) by blast
qed

subsection \<open>A path of ten levels\<close>

lemma ten_levels: "map (\<lambda>i. Itoa (int i)) [1..<11] = ''1'' # [''2'', ''3'', ''4'', ''5'', ''6'', ''7'', ''8'', ''9''] @ [''10'']"
  by code_simp

lemma ten_levels_sorted: "sorted_wrt (<) (''1'' # ''10'' # [''2'', ''3'', ''4'', ''5'', ''6'', ''7'', ''8'', ''9''])"
  by code_simp

lemma sort_ten_levels:
  assumes "map depth_string path = map (\<lambda>i. Itoa (int i)) [1..<11]"
  obtains top inner deepest where "path = top # inner @ [deepest]" "length inner = 8"
    "sort_key depth_string (rev path) = top # deepest # inner"
proof -
  obtain top rest where path: "path = top # rest" using assms by (cases path) (simp_all add: ten_levels)
  have rest: "map depth_string rest = [''2'', ''3'', ''4'', ''5'', ''6'', ''7'', ''8'', ''9''] @ [''10'']"
    and top: "depth_string top = ''1''" using assms unfolding path ten_levels by simp_all
  obtain inner deepest where rest_eq: "rest = inner @ [deepest]" using rest by (cases rest rule: rev_cases) simp_all
  have inner: "map depth_string inner = [''2'', ''3'', ''4'', ''5'', ''6'', ''7'', ''8'', ''9'']"
    and deepest: "depth_string deepest = ''10''" using rest unfolding rest_eq by simp_all
  have "sorted_wrt (<) (map depth_string (top # deepest # inner))"
    using ten_levels_sorted by (simp only: list.map top inner deepest)
  then have "sort_key depth_string (rev path) = top # deepest # inner"
    by (rule sort_key_unique) (auto simp: path rest_eq)
  moreover have "length inner = 8" using arg_cong [OF inner, of length] by simp
  ultimately show thesis using that path rest_eq by blast
qed

text \<open>C39: depths are compared as strings, so that on any path of ten levels the tenth is sorted second. With
  ResourceQuotas on the first level only, the deepest namespace becomes the key of all the namespaces below that
  level, where the key should be the namespace of the second level. With ResourceQuotas on the first \<open>r\<close> levels, \<open>r\<close>
  from 2 to 9, the namespace of level \<open>r\<close>, which still has a ResourceQuota, becomes the key of those down to level
  nine, and the deepest one gets no key.\<close>

theorem addHierarchy_ten_levels:
  assumes "forest_ok ndb" "NSListUp ns (meta_name root) nsList = OK (rev path)"
    and "map depth_string path = map (\<lambda>i. Itoa (int i)) [1..<11]"
    and "fst (Atoi (mstr (meta_annotations root) RqDepthKey)) = int r" "1 \<le> r" "r \<le> 9"
    and "distinct (map meta_name path)" "'''' \<notin> set (map meta_name path)"
    and "\<And>n. n \<in> set (map meta_name path) \<Longrightarrow> Key ndb n = ''''"
  shows "\<exists>F. addHierarchy ns nsList (Some root) ndb = OK F \<and> forest_ok F \<and>
    (r = 1 \<longrightarrow> (\<forall>n \<in> set (map meta_name (drop 1 path)). Key F n = meta_name (last path)) \<and>
       meta_name (last path) \<noteq> meta_name (path ! 1)) \<and>
    (1 < r \<longrightarrow> (\<forall>n \<in> set (map meta_name (drop (r - 1) (butlast path))). Key F n = meta_name (path ! (r - 1))) \<and>
       Key F (meta_name (last path)) = '''')"
proof -
  obtain top inner deepest where path: "path = top # inner @ [deepest]" "length inner = 8"
    and sorted: "sort_key depth_string (rev path) = top # deepest # inner"
    using sort_ten_levels [OF assms(3)] by blast
  let ?sorted = "top # deepest # inner"
  have "set (map meta_name (drop r ?sorted)) \<subseteq> set (map meta_name path)"
    using set_drop_subset [of r ?sorted] by (auto simp: path(1))
  then have "\<And>n. n \<in> set (map meta_name (drop r ?sorted)) \<Longrightarrow> Key ndb n = '''' \<or> Key ndb n = meta_name (?sorted ! r)"
    using assms(9) by blast
  then obtain F where F: "addHierarchy ns nsList (Some root) ndb = OK F" "forest_ok F"
    "Key F = (\<lambda>n. if n \<in> set (map meta_name (drop r ?sorted)) then meta_name (?sorted ! r) else Key ndb n)"
    using addHierarchy_places [OF assms(1,2) sorted assms(4)] assms(6-8) path by auto
  have "(\<forall>n \<in> set (map meta_name (drop 1 path)). Key F n = meta_name (last path)) \<and> meta_name (last path) \<noteq> meta_name (path ! 1)"
    if "r = 1"
  proof -
    have "inner ! 0 \<in> set inner" by (rule nth_mem) (simp add: path(2))
    then have "(inner @ [deepest]) ! 0 \<in> set inner" by (simp add: nth_append path(2))
    then show ?thesis using assms(7) unfolding F(3) that path(1) by auto
  qed
  moreover have "(\<forall>n \<in> set (map meta_name (drop (r - 1) (butlast path))). Key F n = meta_name (path ! (r - 1))) \<and>
      Key F (meta_name (last path)) = ''''" if "1 < r"
  proof -
    obtain k where k: "r = Suc (Suc k)" "k < 8" using \<open>1 < r\<close> assms(6) by (cases r; cases "r - 1") auto
    have "?sorted ! r = path ! (r - 1)" by (simp add: k path nth_append)
    moreover have "drop r ?sorted = drop (r - 1) (butlast path)" by (simp add: k path butlast_append)
    moreover have "meta_name deepest \<notin> set (map meta_name (drop r ?sorted))"
      using assms(7) set_drop_subset [of k inner] by (auto simp: k(1) path(1))
    ultimately show ?thesis using assms(9) [of "meta_name deepest"] unfolding F(3) by (simp add: path(1))
  qed
  ultimately show ?thesis using F(1,2) by blast
qed

definition deep_path :: "namespace list" where
  "deep_path = [mk_ns ''a'' ''root'' ''root/a'' ''1'', mk_ns ''b'' ''a'' ''root/a/b'' ''2'',
     mk_ns ''c'' ''b'' ''root/a/b/c'' ''3'', mk_ns ''d'' ''c'' ''root/a/b/c/d'' ''4'',
     mk_ns ''e'' ''d'' ''root/a/b/c/d/e'' ''5'', mk_ns ''f'' ''e'' ''root/a/b/c/d/e/f'' ''6'',
     mk_ns ''g'' ''f'' ''root/a/b/c/d/e/f/g'' ''7'', mk_ns ''h'' ''g'' ''root/a/b/c/d/e/f/g/h'' ''8'',
     mk_ns ''i'' ''h'' ''root/a/b/c/d/e/f/g/h/i'' ''9'', mk_ns ''j'' ''i'' ''root/a/b/c/d/e/f/g/h/i/j'' ''10'']"

lemma deep_path_evaluates:
  "NSListUp (last deep_path) (meta_name (mk_root ''1'')) deep_path = OK (rev deep_path)"
  "map depth_string deep_path = map (\<lambda>i. Itoa (int i)) [1..<11]"
  "fst (Atoi (mstr (meta_annotations (mk_root ''1'')) RqDepthKey)) = int 1"
  "map meta_name deep_path = [''a'', ''b'', ''c'', ''d'', ''e'', ''f'', ''g'', ''h'', ''i'', ''j'']"
  "meta_name (last deep_path) = ''j''" "map meta_name (drop 1 deep_path) = [''b'', ''c'', ''d'', ''e'', ''f'', ''g'', ''h'', ''i'', ''j'']"
  by code_simp+

theorem addHierarchy_ten_levels_witness:
  "\<exists>F. addHierarchy (last deep_path) deep_path (Some (mk_root ''1'')) [] = OK F \<and> Key F ''b'' = ''j'' \<and> Key F ''i'' = ''j''"
proof -
  have "forest_ok []" by (simp add: forest_ok_def)
  from addHierarchy_ten_levels [OF this deep_path_evaluates(1-3)] show ?thesis
    unfolding deep_path_evaluates(4-6) by auto
qed

subsection \<open>Migration of a key\<close>

lemma add_all:
  assumes "map_of ndb d = Some ms" "d \<notin> set ns"
  shows "\<exists>F. fold_outcome (\<lambda>n. addNSToKey d n) ns ndb = OK F \<and> map_of F = (map_of ndb)(d \<mapsto> ms @ ns)"
  using assms
proof (induction ns arbitrary: ndb ms)
  case Nil
  then show ?case by auto
next
  case (Cons n ns)
  let ?d = "AList.update d (ms @ [n]) ndb"
  have "addNSToKey d n ndb = OK ?d" using Cons.prems by (simp add: addNSToKey_def)
  moreover have "map_of ?d d = Some (ms @ [n])" "d \<notin> set ns" using Cons.prems(2) by simp_all
  from Cons.IH [OF this] obtain F where
    "fold_outcome (\<lambda>n. addNSToKey d n) ns ?d = OK F" "map_of F = (map_of ?d)(d \<mapsto> (ms @ [n]) @ ns)" by blast
  ultimately show ?case by (auto simp: update_conv')
qed

lemma migrate_key_children:
  assumes "d \<noteq> ''''" "fold_outcome (\<lambda>n. addNSToKey d n) (map oc_name children) (crqForest s) = OK F"
  shows "for_each children (\<lambda>child. migrate_child key d key (oc_name child)) s = (OK (), s\<lparr>crqForest := F\<rparr>)"
  using assms(2)
proof (induction children arbitrary: s)
  case Nil
  then show ?case by (simp add: ret_def)
next
  case (Cons c cs)
  then obtain F1 where F1: "addNSToKey d (oc_name c) (crqForest s) = OK F1"
    "fold_outcome (\<lambda>n. addNSToKey d n) (map oc_name cs) F1 = OK F"
    by (auto simp: obind_OK_iff)
  have "migrate_child key d key (oc_name c) s = (OK (), s\<lparr>crqForest := F1\<rparr>)"
    using assms(1) F1(1) by (simp add: migrate_child_def isKeyEmpty_def wrapf_on_forest_OK)
  then show ?case using Cons.IH [of "s\<lparr>crqForest := F1\<rparr>"] F1(2) by (simp add: bind_step)
qed

text \<open>C38: migrating a namespace that is itself a key into another hierarchy reports success but breaks the
  database: the namespace stays a key with its members and is a member of the new hierarchy as well.\<close>

theorem MigrateNSHierarchy_of_key:
  fixes s :: "('w, 'q) hns"
  assumes "forest_ok (crqForest s)" "snsName \<noteq> ''''" "Key (crqForest s) snsName = snsName"
    and "Key (crqForest s) dest \<noteq> ''''" "Key (crqForest s) dest \<noteq> snsName"
    and "New (api_ns E) (world s) (nskey snsName) empty_meta = OK ns"
    and "GetAllChildren_ns E (world s) (stack_limit E) (Some ns) = OK children"
    and "snsName \<in> set (map oc_name children)" "Key (crqForest s) dest \<notin> set (map oc_name children)"
  shows "\<exists>F. MigrateNSHierarchy E snsName dest s = (OK (), s\<lparr>crqForest := F\<rparr>) \<and>
     doesKeyExist F snsName \<and> valInKeyExist F (Key (crqForest s) dest) snsName \<and> \<not> forest_ok F"
proof -
  let ?d = "Key (crqForest s) dest"
  obtain ms where ms: "map_of (crqForest s) ?d = Some ms"
    using Key_self [OF assms(1,4)] ndb.key_idem [OF assms(1)] by auto
  obtain F where F: "fold_outcome (\<lambda>n. addNSToKey ?d n) (map oc_name children) (crqForest s) = OK F"
    "map_of F = (map_of (crqForest s))(?d \<mapsto> ms @ map oc_name children)"
    using add_all [OF ms assms(9)] by blast
  have "map_of F snsName \<noteq> None"
    using Key_self [OF assms(1,2)] assms(3,5) F(2) by auto
  moreover have "snsName \<in> set (members F ?d)" using F(2) assms(8) by (simp add: members_def)
  moreover have "\<not> ok_map (map_of F)"
    using calculation F(2) assms(8) unfolding ok_map_def by (metis fun_upd_same in_set_conv_decomp append_assoc Un_iff set_append)
  moreover have "MigrateNSHierarchy E snsName dest s = (OK (), s\<lparr>crqForest := F\<rparr>)"
    using assms(3,6,7) migrate_key_children [OF assms(4) F(1)] by (simp add: MigrateNSHierarchy_def bind_reads)
  ultimately show ?thesis
    by (auto simp: doesKeyExist_def valInKeyExist_def forest_ok_iff)
qed

theorem MigrateNSHierarchy_of_key_witness:
  "\<exists>F. MigrateNSHierarchy mem_env ''b'' ''d'' (mem_state sample sample_forest) =
         (OK (), (mem_state sample sample_forest)\<lparr>crqForest := F\<rparr>) \<and> \<not> forest_ok F"
proof -
  let ?s = "mem_state sample sample_forest"
  let ?b = "ctx (mk_ns ''b'' ''a'' ''root/a/b'' ''2'')" and ?c = "ctx (mk_ns ''c'' ''b'' ''root/a/b/c'' ''3'')"
  have "crqForest ?s = sample_forest" "world ?s = sample" by (simp_all add: mem_state_def)
  moreover have "Key sample_forest ''b'' = ''b''" "Key sample_forest ''d'' = ''d''" by code_simp+
  moreover have "New (api_ns mem_env) sample (nskey ''b'') empty_meta = OK ?b" by code_simp
  moreover have "GetAllChildren_ns mem_env sample (stack_limit mem_env) (Some ?b) = OK [?b, ?c]" by code_simp
  moreover have "map oc_name [?b, ?c] = [''b'', ''c'']" by code_simp
  ultimately show ?thesis
    using MigrateNSHierarchy_of_key [where s = ?s and snsName = "''b''" and dest = "''d''" and E = mem_env and ns = ?b and children = "[?b, ?c]"]
      sample_forest_ok by auto
qed

end
