(* ===== verification/Start.thy ===== *)
theory Start
  imports ForestSpec Operator
begin

section \<open>The start of the operator\<close>

text \<open>
  \<^verbatim>\<open>cmd/main.go\<close>: the variables that the command line sets, the options of the manager, and the
  steps up to the running manager, each of which ends the process when it fails. The library
  splits the command line, so the model starts from its assignments; the manager is a parameter.
\<close>

subsection \<open>The command line\<close>

record flags =
  metricsAddr :: string
  enableLeaderElection :: bool
  probeAddr :: string
  noWebhooks :: bool
  onlyResourcePool :: bool
  maxSNS :: int
  secureMetrics :: bool
  enableHTTP2 :: bool

text \<open>The variables as \<^verbatim>\<open>parseFlags\<close> sets them before \<^verbatim>\<open>flag.Parse\<close>: the last two have no flag and stay false.\<close>

definition flag_defaults :: flags where
  "flag_defaults = \<lparr>metricsAddr = '':8080'', enableLeaderElection = False, probeAddr = '':8081'', noWebhooks = False,
     onlyResourcePool = False, maxSNS = 250, secureMetrics = False, enableHTTP2 = False\<rparr>"

datatype flag_value = StringVar string | BoolVar bool | IntVar int

text \<open>One assignment; the flags of other packages set none of the variables.\<close>

fun set_flag :: "string \<times> flag_value \<Rightarrow> flags \<Rightarrow> flags" where
  "set_flag (nm, StringVar v) fl =
     (if nm = ''metrics-bind-address'' then fl\<lparr>metricsAddr := v\<rparr>
      else if nm = ''health-probe-bind-address'' then fl\<lparr>probeAddr := v\<rparr>
      else fl)"
| "set_flag (nm, BoolVar v) fl =
     (if nm = ''leader-elect'' then fl\<lparr>enableLeaderElection := v\<rparr>
      else if nm = ''no-webhooks'' then fl\<lparr>noWebhooks := v\<rparr>
      else if nm = ''only-resourcepool'' then fl\<lparr>onlyResourcePool := v\<rparr>
      else fl)"
| "set_flag (nm, IntVar v) fl = (if nm = ''max-sns'' then fl\<lparr>maxSNS := v\<rparr> else fl)"

definition parseFlags :: "(string \<times> flag_value) list \<Rightarrow> flags" where
  "parseFlags args = fold set_flag args flag_defaults"

subsection \<open>The options\<close>

record manager_options =
  mo_metricsBindAddress :: string
  mo_secureServing :: bool
  mo_metricsFilter :: bool
  mo_tlsProtos :: "string list option"
  mo_healthProbeBindAddress :: string
  mo_leaderElection :: bool
  mo_leaderElectionID :: string

text \<open>With HTTP/2 off, \<^verbatim>\<open>disableHTTP2\<close> is among the TLS options of the webhook and the metrics server.\<close>

definition manager_options_of :: "flags \<Rightarrow> manager_options" where
  "manager_options_of fl =
     \<lparr>mo_metricsBindAddress = metricsAddr fl, mo_secureServing = secureMetrics fl, mo_metricsFilter = secureMetrics fl,
      mo_tlsProtos = (if \<not> enableHTTP2 fl then Some [''http/1.1''] else None),
      mo_healthProbeBindAddress = probeAddr fl, mo_leaderElection = enableLeaderElection fl,
      mo_leaderElectionID = ''d5a09fa6.hns.dana.io''\<rparr>"

definition hnsOpts :: "flags \<Rightarrow> Options" where
  "hnsOpts fl = \<lparr>opt_NoWebhooks = noWebhooks fl, opt_OnlyResourcePool = onlyResourcePool fl,
     opt_MaxSNSInHierarchy = maxSNS fl\<rparr>"

lemma default_hnsOpts: "hnsOpts (parseFlags []) = default_options"
  by (simp add: hnsOpts_def parseFlags_def flag_defaults_def default_options_def)

text \<open>No command line turns HTTP/2 or the secure metrics on.\<close>

lemma set_flag_fixed: "enableHTTP2 (set_flag a fl) = enableHTTP2 fl \<and> secureMetrics (set_flag a fl) = secureMetrics fl"
  by (cases "(a, fl)" rule: set_flag.cases) simp_all

lemma parseFlags_fixed: "\<not> enableHTTP2 (parseFlags args) \<and> \<not> secureMetrics (parseFlags args)"
proof -
  have "enableHTTP2 (fold set_flag args fl) = enableHTTP2 fl \<and> secureMetrics (fold set_flag args fl) = secureMetrics fl" for fl
    by (induction args arbitrary: fl) (simp_all add: set_flag_fixed)
  then show ?thesis by (simp add: parseFlags_def flag_defaults_def)
qed

lemma parseFlags_protocols: "mo_tlsProtos (manager_options_of (parseFlags args)) = Some [''http/1.1'']"
  by (simp add: manager_options_of_def parseFlags_fixed)

subsection \<open>The steps of main\<close>

text \<open>The manager: what \<^verbatim>\<open>NewManager\<close>, \<^verbatim>\<open>SetupWithManager\<close> of each controller, the two checks and
  \<^verbatim>\<open>Start\<close> return.\<close>

record manager =
  mgr_new :: "manager_options \<Rightarrow> go_error option"
  mgr_setup :: "string \<Rightarrow> go_error option"
  mgr_healthz :: "go_error option"
  mgr_readyz :: "go_error option"
  mgr_start :: "go_error option"

text \<open>\<^verbatim>\<open>setup.Controllers\<close>: the five controllers in order, up to the first that fails.\<close>

fun setup_all :: "manager \<Rightarrow> string list \<Rightarrow> unit outcome" where
  "setup_all M [] = OK ()"
| "setup_all M (c # cs) =
     (case mgr_setup M c of
        Some err \<Rightarrow> Err (Errorf ''unable to create controller: %v'' [error_text err])
      | None \<Rightarrow> setup_all M cs)"

definition setup_Controllers :: "manager \<Rightarrow> unit outcome" where
  "setup_Controllers M =
     setup_all M [''Namespace'', ''Subnamespace'', ''RoleBinding'', ''UpdateQuota'', ''MigrationHierarchy'']"

text \<open>The process: its exit code once it ends, the state in which the manager starts, if it gets there, and the
  options of the webhooks, if they are registered.\<close>

record ('w, 'q) process =
  proc_exit :: nat
  proc_state :: "('w, 'q) hns option"
  proc_webhooks :: "Options option"

definition exited :: "('w, 'q) process" where
  "exited = \<lparr>proc_exit = 1, proc_state = None, proc_webhooks = None\<rparr>"

definition main :: "('w, 'q) env \<Rightarrow> manager \<Rightarrow> (string \<times> flag_value) list \<Rightarrow> 'w \<Rightarrow> ('w, 'q) process outcome" where
  "main E M args w =
     (let fl = parseFlags args in
      if mgr_new M (manager_options_of fl) \<noteq> None then OK exited
      else (case Init E w of
              Panic \<Rightarrow> Panic
            | Err _ \<Rightarrow> OK exited
            | OK ndb \<Rightarrow>
      let opts = hnsOpts fl in
      (case setup_Controllers M of
              Panic \<Rightarrow> Panic
            | Err _ \<Rightarrow> OK exited
            | OK _ \<Rightarrow>
      let hooks = (if \<not> opt_NoWebhooks opts then Some opts else None) in
      if mgr_healthz M \<noteq> None then OK (exited\<lparr>proc_webhooks := hooks\<rparr>)
      else if mgr_readyz M \<noteq> None then OK (exited\<lparr>proc_webhooks := hooks\<rparr>)
      else OK \<lparr>proc_exit = (if mgr_start M \<noteq> None then 1 else 0),
               proc_state = Some \<lparr>world = w, crqForest = ndb, snsEvents = [], nsEvents = [], gauges = []\<rparr>,
               proc_webhooks = hooks\<rparr>)))"

text \<open>A manager that takes every step.\<close>

definition willing :: "manager \<Rightarrow> bool" where
  "willing M \<longleftrightarrow> mgr_new M = (\<lambda>_. None) \<and> mgr_setup M = (\<lambda>_. None) \<and> mgr_healthz M = None \<and> mgr_readyz M = None"

lemma main_serves:
  assumes "willing M" "Init E w = OK ndb"
  shows "\<exists>code hooks. main E M args w = OK \<lparr>proc_exit = code,
     proc_state = Some \<lparr>world = w, crqForest = ndb, snsEvents = [], nsEvents = [], gauges = []\<rparr>, proc_webhooks = hooks\<rparr>"
proof -
  have "setup_all M cs = OK ()" for cs using assms(1) by (induction cs) (simp_all add: willing_def)
  then show ?thesis using assms by (simp add: main_def Let_def willing_def setup_Controllers_def)
qed

text \<open>C3: the operator from its start on: when the namespaces form a tree of at most nine levels below the root, the
  process starts its manager, and along any sequence of requests without a migration the namespace database
  stays well formed; a namespace on the path of a leaf keeps the key that its level gives it, unless the namespace
  controller is asked about it or about that key.\<close>

theorem main_operates_on_forest:
  assumes "willing M"
    and "NewList (api_ns E) w ListAll = OK nsList" "NewList (api_sns E) w ListAll = OK snsList"
    and "LocateNS nsList (meta_name root) = Some root" "fst (Atoi (mstr (meta_annotations root) RqDepthKey)) = int r"
    and "\<And>ns. ns \<in> set nsList \<Longrightarrow> isSNS snsList (meta_name ns) \<Longrightarrow> mstr (meta_annotations ns) RootCrqSelectorKey = meta_name root"
    and "tree_ok (filter (leaf_of_sns snsList) nsList) nsList root"
    and "\<And>req. MhRequest req \<notin> set rs"
    and "sns_laws E view" "\<And>w ns obj. k_get (api_sns E) (nnkey ns '''') w \<noteq> Inr obj" "lawful (api_ns E) nsView"
  shows "\<exists>p s. main E M args w = OK p \<and> proc_state p = Some s \<and> forest_ok (crqForest (operate E rs s)) \<and>
    (\<forall>ns \<in> set nsList. leaf_of_sns snsList ns \<longrightarrow>
       (\<forall>n \<in> set (drop r (up_path nsList root ns)).
          n \<notin> all_asked_of_ns E rs s \<and> up_path nsList root ns ! r \<notin> all_asked_of_ns E rs s \<longrightarrow>
          Key (crqForest (operate E rs s)) n = up_path nsList root ns ! r))"
proof -
  from Init_forest [OF assms(2-7)] obtain F where F: "Init E w = OK F" "forest_ok F"
    "\<And>ns n. ns \<in> set nsList \<Longrightarrow> leaf_of_sns snsList ns \<Longrightarrow> n \<in> set (drop r (up_path nsList root ns)) \<Longrightarrow>
       Key F n = up_path nsList root ns ! r" by auto
  obtain p where p: "main E M args w = OK p"
    "proc_state p = Some \<lparr>world = w, crqForest = F, snsEvents = [], nsEvents = [], gauges = []\<rparr>"
    using main_serves [OF assms(1) F(1), of args] by auto
  let ?s = "\<lparr>world = w, crqForest = F, snsEvents = [], nsEvents = [], gauges = []\<rparr>"
  have within: "forest_within (all_asked_of_ns E rs ?s) ?s (operate E rs ?s)"
    by (rule operate_within [OF assms(8-11)])
  have "Key (crqForest (operate E rs ?s)) n = up_path nsList root ns ! r"
    if n: "ns \<in> set nsList" "leaf_of_sns snsList ns" "n \<in> set (drop r (up_path nsList root ns))"
      "n \<notin> all_asked_of_ns E rs ?s" "up_path nsList root ns ! r \<notin> all_asked_of_ns E rs ?s" for ns n
  proof -
    have "path_ok nsList root ns" using assms(7) n(1,2) by (simp add: tree_ok_def list_all_iff)
    then have "'''' \<notin> set (up_path nsList root ns)" by (auto simp: path_ok_def up_path_def split: outcome.splits)
    moreover have "r < length (up_path nsList root ns)" using n(3) by (metis drop_all list.distinct(1) list.set_cases not_less)
    ultimately have "Key F n \<noteq> ''''" using F(3) [OF n(1-3)] by (metis nth_mem)
    then show ?thesis using within F(2) F(3) [OF n(1-3)] n(4,5) by (simp add: forest_within_def)
  qed
  moreover have "forest_ok (crqForest (operate E rs ?s))" using within F(2) by (simp add: forest_within_def)
  ultimately show ?thesis using p by (intro exI [of _ p] exI [of _ ?s]) blast
qed


subsection \<open>An instance\<close>

definition sample_manager :: manager where
  "sample_manager = \<lparr>mgr_new = (\<lambda>_. None), mgr_setup = (\<lambda>_. None), mgr_healthz = None, mgr_readyz = None, mgr_start = None\<rparr>"

lemma named_leaves_evaluate:
  "NewList (api_ns named_env) sample_with_leaves ListAll = OK (mem_ns sample_with_leaves)"
  "NewList (api_sns named_env) sample_with_leaves ListAll = OK (mem_sns sample_with_leaves)"
  by code_simp+

theorem main_operates_on_forest_witness:
  "\<exists>p s. main named_env sample_manager [(''max-sns'', IntVar 100)] sample_with_leaves = OK p \<and> proc_state p = Some s \<and>
     forest_ok (crqForest (operate named_env sample_requests s)) \<and>
     Key (crqForest (operate named_env sample_requests s)) ''c'' = ''b''"
proof -
  let ?nss = "mem_ns sample_with_leaves" and ?snss = "mem_sns sample_with_leaves" and ?root = "mk_root ''1''"
  have willing: "willing sample_manager" by (simp add: willing_def sample_manager_def)
  have no: "MhRequest req \<notin> set sample_requests" for req by (simp add: sample_requests_def)
  have asked: "all_asked_of_ns named_env sample_requests s \<subseteq> {''d''}" for s :: "(mem, int \<times> string) hns"
    by (simp add: sample_requests_def key_name_nskey)
  have roots: "mstr (meta_annotations ns) RootCrqSelectorKey = meta_name ?root"
    if "ns \<in> set ?nss" "isSNS ?snss (meta_name ns)" for ns
    using sample_leaves_evaluate(5) that by (simp add: list_all_iff)
  obtain p s where ps: "main named_env sample_manager [(''max-sns'', IntVar 100)] sample_with_leaves = OK p" "proc_state p = Some s"
    "forest_ok (crqForest (operate named_env sample_requests s))"
    "\<And>ns n. ns \<in> set (filter (leaf_of_sns ?snss) ?nss) \<Longrightarrow> n \<in> set (drop 1 (up_path ?nss ?root ns)) \<Longrightarrow>
       n \<notin> all_asked_of_ns named_env sample_requests s \<Longrightarrow>
       up_path ?nss ?root ns ! 1 \<notin> all_asked_of_ns named_env sample_requests s \<Longrightarrow>
       Key (crqForest (operate named_env sample_requests s)) n = up_path ?nss ?root ns ! 1"
    using main_operates_on_forest [OF willing named_leaves_evaluate sample_leaves_evaluate(3,4) roots sample_leaves_evaluate(6) no
        named_env_laws, where args = "[(''max-sns'', IntVar 100)]"] by auto
  obtain c d where cd: "filter (leaf_of_sns ?snss) ?nss = [c, d]" "up_path ?nss ?root c = [''a'', ''b'', ''c'']"
    using sample_leaves_evaluate(7,8) by (auto simp: map_eq_Cons_conv)
  have "Key (crqForest (operate named_env sample_requests s)) ''c'' = ''b''"
    using ps(4) [of c "''c''"] asked [of s] cd by auto
  then show ?thesis using ps(1-3) by blast
qed

end
