(* ===== verification/Spec2Isabelle.thy ===== *)
theory Spec2Isabelle
  imports MigrationSafety ClusterPlacement SnsProgress Start
begin

text \<open>
  \<^bold>\<open>HNS, the hierarchical namespaces operator.\<close>

  HNS is a Kubernetes operator written in Go. A Subnamespace object in a namespace stands for a
  child namespace; the operator creates that namespace, gives it labels and annotations that spell
  out its path, keeps a quota object for it (a ResourceQuota near the root, a ClusterResourceQuota
  below), copies RoleBindings down the tree, moves resources along the tree (UpdateQuota) and moves
  whole subtrees (MigrationHierarchy). Admission webhooks refuse what would break the tree or exceed
  a quota. In memory the operator keeps the namespace database: which namespaces are below which
  topmost ClusterResourceQuota, so that the size of such a hierarchy can be bounded.

  \<^bold>\<open>How the program is modelled.\<close> Every function of \<^verbatim>\<open>internal\<close> is one definition, named as in
  the source (with a prefix such as \<open>ns_\<close> or \<open>mh_\<close> where two packages use one name). A Go function
  returns \<open>OK\<close> a value, \<open>Err\<close> an error, or \<open>Panic\<close> (type \<open>outcome\<close>). A function with effects is a
  \<open>prog\<close>: it takes the state \<open>hns\<close> (the cluster, the namespace database, the two event channels, the
  metrics) and returns an outcome and a state; \<open>bind\<close>, \<open>wrapf\<close>, \<open>attempt\<close> and \<open>for_each\<close> render
  sequencing, \<^verbatim>\<open>fmt.Errorf\<close> around an error, a tested error and a loop. An admission handler reads
  the cluster and gives a \<open>response\<close>. A map is an association list in the order \<^verbatim>\<open>range\<close> visits it, or
  nil. 64-bit arithmetic wraps around (\<open>i64\<close>). Objects are records over \<open>object_meta\<close>.

  What is not in the repository is the parameter \<open>env\<close>: the API server per kind of object
  (\<open>k_get\<close>, \<open>k_list\<close>, \<open>k_create\<close>, \<open>k_update\<close>, \<open>k_updateStatus\<close>, \<open>k_delete\<close>), the arithmetic of
  \<^verbatim>\<open>resource.Quantity\<close>, access reviews, owner references, finalizers, \<^verbatim>\<open>retry.RetryOnConflict\<close>,
  \<^verbatim>\<open>time.Sleep\<close>, the number of attempts that fit before a deadline and the depth of the stack.

  \<^bold>\<open>The theories.\<close>
  \<^item> \<^verbatim>\<open>Prelude\<close>: outcomes, programs, and the locale \<open>frame\<close>: a preorder on states that a
    program stays within, with the rules that carry it through every construct.
  \<^item> \<^verbatim>\<open>GoLib\<close>: maps, 64-bit integers, \<^verbatim>\<open>strconv\<close>, \<^verbatim>\<open>strings\<close> and \<^verbatim>\<open>fmt\<close> as far as used.
  \<^item> \<^verbatim>\<open>Api\<close>: \<^verbatim>\<open>api/v1\<close>, the constants and resource types; the environment; the state.
  \<^item> \<^verbatim>\<open>ObjectContext\<close>: \<^verbatim>\<open>internal/objectcontext\<close>, and the laws of an API server, in two strengths.
  \<^item> \<^verbatim>\<open>MemCluster\<close>: a cluster in memory that obeys the laws, on which the instances run.
  \<^item> \<^verbatim>\<open>NsUtils\<close>, \<^verbatim>\<open>SnsUtils\<close>, \<^verbatim>\<open>ResourcePool\<close>, \<^verbatim>\<open>Common\<close>, \<^verbatim>\<open>RbUtils\<close>: the packages
    \<^verbatim>\<open>nsutils\<close>, \<^verbatim>\<open>snsutils\<close>, \<^verbatim>\<open>resourcepool\<close>, \<^verbatim>\<open>common\<close> and \<^verbatim>\<open>rbutils\<close>.
  \<^item> \<^verbatim>\<open>Quota\<close>, \<^verbatim>\<open>SnsQuota\<close>: \<^verbatim>\<open>internal/quota\<close>.
  \<^item> \<^verbatim>\<open>NamespaceDB\<close>: \<^verbatim>\<open>internal/namespacedb\<close>, its invariant \<open>forest_ok\<close> and the locale
    \<open>namespace_db\<close> of the laws its clients use; \<^verbatim>\<open>ForestSpec\<close>: the abstract database (a function
    from namespaces to keys), the refinement, and the construction at start-up.
  \<^item> \<^verbatim>\<open>SnsValidator\<close>: the Subnamespace webhook; \<^verbatim>\<open>SnsReconciler\<close>: its controller and the
    metrics, with the locales \<open>hns_frame\<close> and \<open>sns_frame\<close>; \<^verbatim>\<open>SnsStatus\<close>: the accounting in its status.
  \<^item> \<^verbatim>\<open>NsPlacement\<close>, \<^verbatim>\<open>SnsPlacement\<close>: what the labels and annotations of a namespace say of its
    place (\<open>well_placed\<close>), after its creation, after a migration, and across a reconciliation;
    \<^verbatim>\<open>SnsProgress\<close>: what a reconciliation that succeeds has reached.
  \<^item> \<^verbatim>\<open>UpdateQuota\<close>, \<^verbatim>\<open>QuotaMoves\<close>: \<^verbatim>\<open>internal/updatequota\<close> and what a move does.
  \<^item> \<^verbatim>\<open>Migration\<close>: \<^verbatim>\<open>internal/migrationhierarchy\<close> and \<^verbatim>\<open>internal/buildconfig\<close>; \<^verbatim>\<open>Triples\<close>: the rules of
    pre- and postconditions of a program, by the way it ends; \<^verbatim>\<open>MigrationSafety\<close>: where the
    subnamespace is during a migration, with the locale \<open>mh_frame\<close> of the steps that leave it alone.
  \<^item> \<^verbatim>\<open>NsReconciler\<close>, \<^verbatim>\<open>RoleBinding\<close>: \<^verbatim>\<open>internal/namespace\<close> and \<^verbatim>\<open>internal/rolebinding\<close>.
  \<^item> \<^verbatim>\<open>Operator\<close>: \<^verbatim>\<open>internal/setup\<close>, the controllers together on any sequence of requests,
    with the locale \<open>operator_frame\<close>, which is interpreted for the namespace database there, and
    for the objects of the cluster in \<^verbatim>\<open>ClusterPlacement\<close>: the step relation \<open>operates\<close> of the
    controllers and the other clients, with the invariant \<open>tree_placed\<close>.
  \<^item> \<^verbatim>\<open>Start\<close>: \<^verbatim>\<open>cmd/main.go\<close>, from the command line to the running manager; there the start-up of
    the namespace database and the run of the controllers meet.

  \<^bold>\<open>What is shown.\<close>
  \<^item> The namespace database. \<open>forest_ok\<close>: no key is a member, no namespace is twice in the database.
    Its operations keep it and implement the abstract database; \<^verbatim>\<open>Key\<close> does not depend on the
    iteration order; insertion, migration and clean-up move exactly the namespaces they should; start-up
    builds it from a tree of at most nine levels; every reconciliation, and every sequence of requests
    and events without a migration, keeps it, from the start of the process on.
  \<^item> Admission. The quota checks decide the intended inequalities between request, siblings and
    parent; a name is accepted exactly when it is a DNS label; the bound on the size of a hierarchy is
    kept by admissions followed by insertions; an admitted migration makes no loop; an admitted UpdateQuota
    has quota objects at both ends, a user who may move them, and, unless one end is the root, crosses no
    border of a secondary root; who has permission. The limit on the size of a hierarchy is checked at a migration
    only between two plain namespaces with keys; there it holds after the migration in the database.
  \<^item> The Subnamespace controller. Its phase moves along None, Missing, Created (or Migrated, Created)
    whatever the cluster answers, no other Subnamespace is written, and the status accounts for the quota.
    It deletes and moves no namespace, and the one it creates is well placed. A reconciliation that
    succeeds, and meets no conflict, moves the phase a step; once it is Created, the namespace and a quota
    object exist. With a conflict it reports success without moving the phase, which is shown, too.
  \<^item> The controllers together. As long as they run, without a migration and with other clients that
    respect what the webhooks demand, every Subnamespace lives in a well-placed namespace, and each
    request only adds to the tree: no namespace is moved, none disappears but one that somebody else has
    deleted and that loses its last finalizer, and a new one is that of a Subnamespace, well placed below the
    namespace the Subnamespace is in.
  \<^item> Migrations. Wherever a reconciliation of a MigrationHierarchy fails whose destination is not yet the
    parent, the Subnamespace is under the old parent or the new one, unless a deletion was reported as failed
    although it took effect; one that goes through has moved it, with its quota, and has left every
    other Subnamespace as it was; the namespaces it updates are stored well placed below their new parents.
  \<^item> UpdateQuota. A move shifts each Subnamespace of the path exactly once and no other; the shifts
    undo each other; the wait is bounded.
  \<^item> Paths and trees. Display names split back into paths, the lowest common ancestor is found, all
    descendants are found on a stack deeper than the tree.
  \<^item> Object updates. A retried update is applied exactly once and succeeds within two attempts
    against a server that answers. RoleBindings are propagated to every child.
  \<^item> Errors. Each fault named in the theorems of kind error is a proved behaviour of the code: depths
    compared as strings, the migration of a key, the recursion on an absent namespace, the selectors a migrated namespace keeps, the Subnamespace a repeated migration deletes.

  \<^bold>\<open>Bounds.\<close> \<open>stack_limit\<close> bounds the recursion over descendants: below it the model panics, as
  a Go stack overflow does, and the theorem about \<^verbatim>\<open>GetAllChildren\<close> asks for a stack deeper than the
  tree only. \<open>deadline_attempts\<close> bounds the retries that fit before the deadline of
  \<^verbatim>\<open>EnsureUpdateObject\<close>; two are enough for the theorem that it succeeds. \<open>MaxRetries\<close> is the
  source's own bound on polling.

  \<^bold>\<open>Laws assumed of the environment\<close>, each shown to hold of the cluster in memory:
  \<^item> \<open>lawful\<close>: reads return what is stored, a write needs the current version and stores under the given key,
    a failed write stores nothing. \<open>finishes\<close> is weaker: an update that takes the last finalizer from an object that
    is being deleted removes it, and a create or an update that fails may have taken effect.
  \<^item> \<open>leaves\<close>: a write to one kind leaves the others alone; \<open>responsive\<close>: the server fails only by conflicts.
  \<^item> \<open>quantity_laws\<close>, \<open>value_laws\<close>, \<open>status_laws\<close>: quantities add up, and \<^verbatim>\<open>Value\<close> and \<^verbatim>\<open>Set\<close> agree.
  \<^item> \<open>sns_laws\<close>: \<open>lawful\<close> and \<open>leaves\<close> for Subnamespaces, and owner references change owners only; \<open>ns_laws\<close>:
    \<open>finishes\<close> and \<open>leaves\<close> for namespaces; \<open>calm_laws\<close>: both, and writes to the remaining kinds leave both alone;
    \<open>progress_laws\<close>: both, and \<open>lawful\<close> and \<open>leaves\<close> for quota objects. Reads that return what is stored, and the
    absence of other writers during a reconciliation, exclude conflicts: what a swallowed conflict does is
    stated separately (\<open>setup_swallows_conflict\<close>).
  \<^item> \<open>place_laws\<close> (namespaces, with \<open>finishes\<close>), \<open>mh_laws\<close> (Subnamespaces, with \<open>lawful\<close>), \<open>move_laws\<close>: nobody else
    writes them during the sleeps and retries of the operator. \<open>fault_laws\<close> is \<open>mh_laws\<close> without the assumption
    that a failed create or delete has no effect; it counts the deletions that failed and took effect.
  \<^item> \<open>tree_ok\<close>, \<open>well_placed\<close>, \<open>tree_placed\<close> and \<open>client_step\<close> are not laws but conditions on the namespaces of the
    cluster: each leaf has one path up to the root, of at most nine levels; path, depth and selectors agree.

  \<^bold>\<open>Not modelled.\<close> Logging; the decoding of requests and the computation of JSON patches (the
  decoded object or the decoding error is the input); the registration of watches, indexes and
  gauges with the manager, whose filters are modelled; the splitting of the command line, of which the
  assignments are the input; the registration of types; the generated deep copies. One reconciliation runs without another
  between its steps: each operation that the mutex of the namespace database guards is one step, and
  the interleaving of \<^verbatim>\<open>Operator\<close> is that of whole reconciliations. The channels are unbounded queues,
  where the source blocks on an unbuffered channel.
\<close>

end
